(* ===== verification/Aissh_Prelude.thy ===== *)
theory Aissh_Prelude
  imports Main
begin

text \<open>
  Shared vocabulary of the development: the types that stand for Rust's strings, byte
  vectors and results, the bounds of its unsigned integers, the helpers of
  \<open>core::cmp\<close> and \<open>Result\<close> that the sources call everywhere, a collection of rules, and
  three interfaces used by several components: an invariant of a step relation, the
  simulation of one step relation by another, and a cursor-driven page reader.
\<close>

section \<open>Types and collections\<close>

named_theorems writes
  \<open>operations of the sessions change the database only through its methods\<close>

text \<open>
  A Rust \<open>String\<close> is its UTF-8 bytes, so both strings and \<open>Vec<u8>\<close> are lists of
  8-bit characters; validity of the encoding is a predicate of \<open>Rust_Str\<close>.
\<close>

type_synonym str = "char list"
type_synonym bytes = "char list"

text \<open>\<open>DateTime<Utc>\<close> and \<open>Instant\<close>: nanoseconds since an epoch.\<close>

type_synonym time = nat

section \<open>Machine integers\<close>

definition u64_mod :: nat where
  "u64_mod = 2 ^ 64"

definition i64_limit :: nat where
  "i64_limit = 2 ^ 63"

text \<open>\<open>u64::wrapping_add\<close>, and \<open>AtomicU64::fetch_add\<close>, which wraps as well.\<close>

definition wrapping_add :: "nat \<Rightarrow> nat \<Rightarrow> nat" where
  "wrapping_add a b = (a + b) mod u64_mod"

text \<open>\<open>u64::saturating_add\<close>.\<close>

definition saturating_add :: "nat \<Rightarrow> nat \<Rightarrow> nat" where
  "saturating_add a b = min (a + b) (u64_mod - 1)"

text \<open>\<open>Ord::clamp\<close>.\<close>

definition clamp :: "'a::linorder \<Rightarrow> 'a \<Rightarrow> 'a \<Rightarrow> 'a" where
  "clamp x lo hi = (if x < lo then lo else if hi < x then hi else x)"

lemma clamp_bounds: "lo \<le> hi \<Longrightarrow> lo \<le> clamp x lo hi \<and> clamp x lo hi \<le> hi"
  by (auto simp: clamp_def)

lemma wrapping_add_small [simp]: "a + b < u64_mod \<Longrightarrow> wrapping_add a b = a + b"
  by (simp add: wrapping_add_def)

lemma i64_below_u64: "i64_limit < u64_mod"
  by (simp add: i64_limit_def u64_mod_def)

lemma wrapping_add_i64 [simp]: "Suc a < i64_limit \<Longrightarrow> wrapping_add a 1 = Suc a"
  using i64_below_u64 by simp

lemma saturating_add_le_iff: "k < u64_mod - 1 \<Longrightarrow> saturating_add a b \<le> k \<longleftrightarrow> a + b \<le> k"
  by (auto simp: saturating_add_def)

section \<open>Results\<close>

definition map_err :: "('e \<Rightarrow> 'f) \<Rightarrow> 'e + 'a \<Rightarrow> 'f + 'a" where
  "map_err f r = (case r of Inl e \<Rightarrow> Inl (f e) | Inr x \<Rightarrow> Inr x)"

definition ok :: "'e + 'a \<Rightarrow> 'a option" where
  "ok r = (case r of Inl e \<Rightarrow> None | Inr x \<Rightarrow> Some x)"

lemma map_err_simps [simp]:
  "map_err f (Inl e) = Inl (f e)"
  "map_err f (Inr x) = Inr x"
  by (simp_all add: map_err_def)

lemma ok_simps [simp]:
  "ok (Inl e) = None"
  "ok (Inr x) = Some x"
  by (simp_all add: ok_def)

lemma map_err_Inr_iff [simp]: "map_err f r = Inr x \<longleftrightarrow> r = Inr x"
  by (cases r) auto

lemma map_err_Inl_iff: "map_err f r = Inl e \<longleftrightarrow> (\<exists>e'. r = Inl e' \<and> e = f e')"
  by (cases r) auto

section \<open>Lists\<close>

lemma takeWhile_append_dropWhile_filter:
  "filter P xs = takeWhile P (filter P xs)"
  by (simp add: takeWhile_eq_all_conv[THEN iffD2])

lemma sum_list_le_mem:
  fixes f :: "'a \<Rightarrow> nat"
  shows "x \<in> set xs \<Longrightarrow> f x \<le> sum_list (map f xs)"
  by (induction xs) auto

lemma sorted_key_filter:
  "sorted (map f xs) \<Longrightarrow> sorted (map f (filter P xs))"
  by (induction xs) auto

lemma strict_sorted_key_filter:
  "sorted_wrt (<) (map f xs) \<Longrightarrow> sorted_wrt (<) (map f (filter P xs))"
  by (induction xs) auto

lemma strict_sorted_split:
  fixes f :: "'a \<Rightarrow> nat"
  assumes "sorted_wrt (<) (map f (xs @ ys))" and "xs \<noteq> []"
  shows "filter (\<lambda>x. f (last xs) < f x) (xs @ ys) = ys"
proof -
  have le: "\<forall>x \<in> set xs. f x \<le> f (last xs)"
    using assms by (induction xs rule: rev_induct)
      (auto simp: sorted_wrt_append intro: less_imp_le)
  have gt: "\<forall>y \<in> set ys. f (last xs) < f y"
    using assms by (auto simp: sorted_wrt_append)
  have "filter (\<lambda>x. f (last xs) < f x) xs = []"
    using le by (auto simp: filter_empty_conv)
  moreover have "filter (\<lambda>x. f (last xs) < f x) ys = ys"
    using gt by (simp add: filter_id_conv)
  ultimately show ?thesis by simp
qed

lemma sorted_strict_sort_key:
  "sorted_wrt (<) (map f xs) \<Longrightarrow> sort_key f xs = xs"
  by (simp add: sorted_sort_id strict_sorted_imp_sorted sort_key_id_if_sorted)

section \<open>Interface: an invariant of a step relation\<close>

text \<open>
  Several components are state machines whose guarantees are invariants. The law each
  machine provides is that its initial states satisfy the invariant and that one step
  preserves it; the lemma is that every state of every run satisfies it.
\<close>

locale step_invariant =
  fixes initial :: "'s \<Rightarrow> bool"
    and step :: "'s \<Rightarrow> 's \<Rightarrow> bool"
    and inv :: "'s \<Rightarrow> bool"
  assumes initial_inv: "initial s \<Longrightarrow> inv s"
    and step_inv: "step s t \<Longrightarrow> inv s \<Longrightarrow> inv t"
begin

lemma run_inv:
  assumes "step\<^sup>*\<^sup>* s t" and "inv s"
  shows "inv t"
  using assms by (induction rule: rtranclp_induct) (auto intro: step_inv)

lemma reachable_inv:
  assumes "initial s" and "step\<^sup>*\<^sup>* s t"
  shows "inv t"
  using run_inv[OF assms(2) initial_inv[OF assms(1)]] .

end

text \<open>
  A machine that has an invariant refines another one through an abstraction of its states when
  each of its steps is a run of the other. Then its runs are runs of the other, and what is
  invariant there holds of the abstraction here.
\<close>

locale step_simulation = step_invariant initial step inv
  for initial :: "'s \<Rightarrow> bool" and step :: "'s \<Rightarrow> 's \<Rightarrow> bool" and inv :: "'s \<Rightarrow> bool" +
  fixes abs :: "'s \<Rightarrow> 'a"
    and astep :: "'a \<Rightarrow> 'a \<Rightarrow> bool"
  assumes simulates: "step s t \<Longrightarrow> inv s \<Longrightarrow> astep\<^sup>*\<^sup>* (abs s) (abs t)"
begin

lemma run_simulates:
  assumes "step\<^sup>*\<^sup>* s t" and "inv s"
  shows "astep\<^sup>*\<^sup>* (abs s) (abs t)"
  using assms
proof (induction rule: rtranclp_induct)
  case (step t u)
  have "inv t" using run_inv[OF step.hyps(1) step.prems] .
  then show ?case using step simulates by (meson rtranclp_trans)
qed simp

lemma reachable_simulates: "initial s \<Longrightarrow> step\<^sup>*\<^sup>* s t \<Longrightarrow> astep\<^sup>*\<^sup>* (abs s) (abs t)"
  using run_simulates initial_inv by blast

end

section \<open>Interface: reading a log page by page\<close>

text \<open>
  A page reader answers a cursor with some of the entries after it and a flag that says
  whether it held any back. The laws: a page is an initial segment of what is left, it
  is not empty while something is left, and the flag is false exactly when nothing was
  held back. A client that moves its cursor to the last key it saw then reads every
  entry once, in order, and stops.
\<close>

locale page_reader =
  fixes invar :: "'s \<Rightarrow> bool"
    and entries :: "'s \<Rightarrow> 'e list"
    and key :: "'e \<Rightarrow> nat"
    and page :: "'s \<Rightarrow> nat \<Rightarrow> 'e list \<times> bool"
    and bound :: nat
  assumes ascending: "invar s \<Longrightarrow> sorted_wrt (<) (map key (entries s))"
    and bounded: "invar s \<Longrightarrow> e \<in> set (entries s) \<Longrightarrow> key e < bound"
    and page_prefix: "invar s \<Longrightarrow> after < bound \<Longrightarrow> page s after = (es, more) \<Longrightarrow>
      \<exists>rest. filter (\<lambda>e. after < key e) (entries s) = es @ rest \<and> (more \<longleftrightarrow> rest \<noteq> [])"
    and page_progress: "invar s \<Longrightarrow> after < bound \<Longrightarrow> page s after = (es, more) \<Longrightarrow>
      filter (\<lambda>e. after < key e) (entries s) \<noteq> [] \<Longrightarrow> es \<noteq> []"
begin

text \<open>What a client at a cursor has still to read.\<close>

definition pending :: "'s \<Rightarrow> nat \<Rightarrow> 'e list" where
  "pending s after = filter (\<lambda>e. after < key e) (entries s)"

lemma pending_after_page:
  assumes inv: "invar s" and split: "pending s after = es @ rest" and "es \<noteq> []"
  shows "pending s (key (last es)) = rest"
proof -
  have sorted: "sorted_wrt (<) (map key (es @ rest))"
    using strict_sorted_key_filter[OF ascending[OF inv]] split unfolding pending_def by metis
  have "last es \<in> set (pending s after)"
    using split \<open>es \<noteq> []\<close> by simp
  then have last: "after < key (last es)"
    by (simp add: pending_def)
  have "pending s (key (last es)) = filter (\<lambda>e. key (last es) < key e) (pending s after)"
    using last by (simp add: pending_def conj_commute) (metis (mono_tags, opaque_lifting) less_trans)
  also have "\<dots> = rest"
    using strict_sorted_split[OF sorted \<open>es \<noteq> []\<close>] split by simp
  finally show ?thesis .
qed

text \<open>
  A client's loop is any function that asks for a page, moves its cursor to the last key
  while the flag says there is more, and gives up when its fuel runs out. With more fuel
  than pending entries it returns exactly the pending entries.
\<close>

lemma drain_all:
  assumes step: "\<And>fuel after. after < bound \<Longrightarrow> loop (Suc fuel) after =
      (case page s after of (es, more) \<Rightarrow>
        if more then map_option (\<lambda>rest. es @ rest) (loop fuel (key (last es)))
        else Some es)"
    and inv: "invar s"
  shows "after < bound \<Longrightarrow> length (pending s after) < fuel \<Longrightarrow>
    loop fuel after = Some (pending s after)"
proof (induction fuel arbitrary: after)
  case 0
  then show ?case by simp
next
  case (Suc fuel)
  obtain es more where page: "page s after = (es, more)" by fastforce
  obtain rest where split: "pending s after = es @ rest"
    and more: "more \<longleftrightarrow> rest \<noteq> []"
    using page_prefix[OF inv Suc.prems(1) page] unfolding pending_def by blast
  show ?case
  proof (cases more)
    case False
    with more split page step[OF Suc.prems(1)] show ?thesis by simp
  next
    case True
    then have "es \<noteq> []"
      using page_progress[OF inv Suc.prems(1) page] split more unfolding pending_def by auto
    then have left: "pending s (key (last es)) = rest"
      using pending_after_page[OF inv split] by blast
    have "last es \<in> set (entries s)"
      using split \<open>es \<noteq> []\<close> unfolding pending_def
      by (metis Un_iff filter_is_subset last_in_set set_append subsetD)
    then have "key (last es) < bound" by (rule bounded[OF inv])
    moreover have "length rest < fuel"
      using Suc.prems split \<open>es \<noteq> []\<close> by (cases es) auto
    ultimately have "loop fuel (key (last es)) = Some rest"
      using Suc.IH left by metis
    with True page split step[OF Suc.prems(1)] show ?thesis by simp
  qed
qed

end

end
