(* ===== verification/Rust_Str.thy ===== *)
theory Rust_Str
  imports Aissh_Prelude
begin

text \<open>
  What the sources use of Rust's \<open>str\<close>: UTF-8 validation with the position and the
  length of the first error, the lossy conversion, the characters of a string, and the
  whitespace functions. A string is its bytes. The streaming lemmas at the end say how
  validation of a whole buffer relates to validation of its pieces; the incremental
  text decoder of the MCP server rests on them.
\<close>

section \<open>UTF-8 validation\<close>

definition bval :: "char \<Rightarrow> nat" where
  "bval c = of_char c"

definition is_cont :: "char \<Rightarrow> bool" where
  "is_cont c \<longleftrightarrow> 128 \<le> bval c \<and> bval c < 192"

text \<open>The second byte a three- or four-byte sequence may have after its first byte.\<close>

definition second_of_3 :: "nat \<Rightarrow> nat \<Rightarrow> bool" where
  "second_of_3 a b \<longleftrightarrow>
     (a = 224 \<and> 160 \<le> b \<and> b \<le> 191) \<or> (225 \<le> a \<and> a \<le> 236 \<and> 128 \<le> b \<and> b \<le> 191)
   \<or> (a = 237 \<and> 128 \<le> b \<and> b \<le> 159) \<or> (238 \<le> a \<and> a \<le> 239 \<and> 128 \<le> b \<and> b \<le> 191)"

definition second_of_4 :: "nat \<Rightarrow> nat \<Rightarrow> bool" where
  "second_of_4 a b \<longleftrightarrow>
     (a = 240 \<and> 144 \<le> b \<and> b \<le> 191) \<or> (241 \<le> a \<and> a \<le> 243 \<and> 128 \<le> b \<and> b \<le> 191)
   \<or> (a = 244 \<and> 128 \<le> b \<and> b \<le> 143)"

text \<open>
  One round of the validation loop of \<open>core::str::from_utf8\<close>: a character and its
  width, the end of the input inside a character, or an invalid sequence and the number
  of bytes the error covers.
\<close>

datatype utf8_step = UChar nat | UIncomplete | UInvalid nat

fun utf8_tail :: "nat \<Rightarrow> nat \<Rightarrow> bytes \<Rightarrow> utf8_step" where
  "utf8_tail seen 0 bs = UChar seen"
| "utf8_tail seen (Suc k) [] = UIncomplete"
| "utf8_tail seen (Suc k) (b # bs) =
     (if is_cont b then utf8_tail (Suc seen) k bs else UInvalid seen)"

fun utf8_next :: "bytes \<Rightarrow> utf8_step" where
  "utf8_next [] = UIncomplete"
| "utf8_next (b # bs) =
     (if bval b < 128 then UChar 1
      else if 194 \<le> bval b \<and> bval b \<le> 223 then utf8_tail 1 1 bs
      else if 224 \<le> bval b \<and> bval b \<le> 239 then
        (case bs of [] \<Rightarrow> UIncomplete
         | c # cs \<Rightarrow> if second_of_3 (bval b) (bval c) then utf8_tail 2 1 cs else UInvalid 1)
      else if 240 \<le> bval b \<and> bval b \<le> 244 then
        (case bs of [] \<Rightarrow> UIncomplete
         | c # cs \<Rightarrow> if second_of_4 (bval b) (bval c) then utf8_tail 2 2 cs else UInvalid 1)
      else UInvalid 1)"

lemma utf8_tail_UChar: "utf8_tail seen k bs = UChar w \<Longrightarrow> w = seen + k \<and> k \<le> length bs"
  by (induction seen k bs rule: utf8_tail.induct) (auto split: if_splits)

lemma utf8_tail_UInvalid:
  "utf8_tail seen k bs = UInvalid n \<Longrightarrow> seen \<le> n \<and> n < seen + k \<and> n - seen < length bs"
  by (induction seen k bs rule: utf8_tail.induct) (auto split: if_splits)

lemma utf8_tail_UIncomplete: "utf8_tail seen k bs = UIncomplete \<Longrightarrow> length bs < k"
  by (induction seen k bs rule: utf8_tail.induct) (auto split: if_splits)

lemma utf8_next_UChar:
  "utf8_next bs = UChar w \<Longrightarrow> 0 < w \<and> w \<le> 4 \<and> w \<le> length bs"
  by (cases bs) (auto split: if_splits list.splits dest!: utf8_tail_UChar)

lemma utf8_next_UInvalid:
  "utf8_next bs = UInvalid k \<Longrightarrow> 0 < k \<and> k \<le> 3 \<and> k \<le> length bs"
  by (cases bs) (auto split: if_splits list.splits dest!: utf8_tail_UInvalid)

lemma utf8_next_UIncomplete: "utf8_next bs = UIncomplete \<Longrightarrow> length bs < 4"
  by (cases bs) (auto split: if_splits list.splits dest!: utf8_tail_UIncomplete)

text \<open>The result of \<open>from_utf8\<close>: \<open>Utf8Err valid_up_to error_len\<close> is its \<open>Utf8Error\<close>.\<close>

datatype utf8_result = Utf8Ok | Utf8Err nat "nat option"

function from_utf8_at :: "nat \<Rightarrow> bytes \<Rightarrow> utf8_result" where
  "from_utf8_at i bs =
     (if bs = [] then Utf8Ok
      else case utf8_next bs of
        UChar w \<Rightarrow> from_utf8_at (i + w) (drop w bs)
      | UIncomplete \<Rightarrow> Utf8Err i None
      | UInvalid k \<Rightarrow> Utf8Err i (Some k))"
  by pat_completeness auto
termination
  by (relation "measure (\<lambda>(i, bs). length bs)") (auto dest: utf8_next_UChar)

declare from_utf8_at.simps [simp del]

definition from_utf8 :: "bytes \<Rightarrow> utf8_result" where
  "from_utf8 bs = from_utf8_at 0 bs"

definition valid_utf8 :: "bytes \<Rightarrow> bool" where
  "valid_utf8 bs \<longleftrightarrow> from_utf8 bs = Utf8Ok"

text \<open>\<open>String::from_utf8_lossy\<close>: every error becomes U+FFFD.\<close>

definition replacement :: bytes where
  "replacement = [CHR 0xEF, CHR 0xBF, CHR 0xBD]"

function from_utf8_lossy :: "bytes \<Rightarrow> str" where
  "from_utf8_lossy bs =
     (if bs = [] then []
      else case utf8_next bs of
        UChar w \<Rightarrow> take w bs @ from_utf8_lossy (drop w bs)
      | UIncomplete \<Rightarrow> replacement
      | UInvalid k \<Rightarrow> replacement @ from_utf8_lossy (drop k bs))"
  by pat_completeness auto
termination
  by (relation "measure length") (auto dest: utf8_next_UChar utf8_next_UInvalid)

declare from_utf8_lossy.simps [simp del]

section \<open>Characters and whitespace\<close>

text \<open>
  The characters of a string, each as its bytes. On bytes that are not UTF-8, which no
  Rust string holds, a stray byte counts as one character.
\<close>

function chars :: "str \<Rightarrow> str list" where
  "chars s =
     (if s = [] then []
      else case utf8_next s of
        UChar w \<Rightarrow> take w s # chars (drop w s)
      | _ \<Rightarrow> take 1 s # chars (drop 1 s))"
  by pat_completeness auto
termination
  by (relation "measure length") (auto dest: utf8_next_UChar)

declare chars.simps [simp del]

definition ws_chars :: "str list" where
  "ws_chars =
     [[CHR 0x09], [CHR 0x0A], [CHR 0x0B], [CHR 0x0C], [CHR 0x0D], [CHR 0x20],
      [CHR 0xC2, CHR 0x85], [CHR 0xC2, CHR 0xA0], [CHR 0xE1, CHR 0x9A, CHR 0x80],
      [CHR 0xE2, CHR 0x80, CHR 0x80], [CHR 0xE2, CHR 0x80, CHR 0x81],
      [CHR 0xE2, CHR 0x80, CHR 0x82], [CHR 0xE2, CHR 0x80, CHR 0x83],
      [CHR 0xE2, CHR 0x80, CHR 0x84], [CHR 0xE2, CHR 0x80, CHR 0x85],
      [CHR 0xE2, CHR 0x80, CHR 0x86], [CHR 0xE2, CHR 0x80, CHR 0x87],
      [CHR 0xE2, CHR 0x80, CHR 0x88], [CHR 0xE2, CHR 0x80, CHR 0x89],
      [CHR 0xE2, CHR 0x80, CHR 0x8A], [CHR 0xE2, CHR 0x80, CHR 0xA8],
      [CHR 0xE2, CHR 0x80, CHR 0xA9], [CHR 0xE2, CHR 0x80, CHR 0xAF],
      [CHR 0xE2, CHR 0x81, CHR 0x9F], [CHR 0xE3, CHR 0x80, CHR 0x80]]"

text \<open>\<open>char::is_whitespace\<close>: the characters with the Unicode property White\_Space.\<close>

definition is_whitespace :: "str \<Rightarrow> bool" where
  "is_whitespace c = List.member ws_chars c"

definition trim_chars :: "str list \<Rightarrow> str list" where
  "trim_chars cs = rev (dropWhile is_whitespace (rev (dropWhile is_whitespace cs)))"

definition trim :: "str \<Rightarrow> str" where
  "trim s = concat (trim_chars (chars s))"

fun words_of :: "str list \<Rightarrow> str \<Rightarrow> str list" where
  "words_of [] acc = (if acc = [] then [] else [acc])"
| "words_of (c # cs) acc =
     (if is_whitespace c then (if acc = [] then words_of cs [] else acc # words_of cs [])
      else words_of cs (acc @ c))"

definition split_whitespace :: "str \<Rightarrow> str list" where
  "split_whitespace s = words_of (chars s) []"

text \<open>\<open>str::starts_with\<close>, \<open>ends_with\<close> and \<open>trim_end_matches\<close> with one character.\<close>

definition starts_with :: "str \<Rightarrow> str \<Rightarrow> bool" where
  "starts_with s p \<longleftrightarrow> take (length p) s = p"

definition ends_with :: "str \<Rightarrow> str \<Rightarrow> bool" where
  "ends_with s p \<longleftrightarrow> starts_with (rev s) (rev p)"

definition trim_end_matches :: "char \<Rightarrow> str \<Rightarrow> str" where
  "trim_end_matches c s = rev (dropWhile (\<lambda>x. x = c) (rev s))"

text \<open>\<open>str::rfind\<close> of an ASCII character: the index of its last occurrence.\<close>

fun rfind :: "char \<Rightarrow> str \<Rightarrow> nat option" where
  "rfind c [] = None"
| "rfind c (x # xs) =
     (case rfind c xs of Some i \<Rightarrow> Some (Suc i) | None \<Rightarrow> if x = c then Some 0 else None)"

text \<open>\<open>str::split_once\<close> with a two-character separator.\<close>

fun split_once2 :: "char \<Rightarrow> char \<Rightarrow> str \<Rightarrow> (str \<times> str) option" where
  "split_once2 p q (x # y # zs) =
     (if x = p \<and> y = q then Some ([], zs)
      else map_option (\<lambda>(l, r). (x # l, r)) (split_once2 p q (y # zs)))"
| "split_once2 p q _ = None"

definition to_ascii_lowercase :: "str \<Rightarrow> str" where
  "to_ascii_lowercase = map (\<lambda>c. if 65 \<le> bval c \<and> bval c \<le> 90 then char_of (bval c + 32) else c)"

definition is_ascii_uppercase :: "char \<Rightarrow> bool" where
  "is_ascii_uppercase c \<longleftrightarrow> 65 \<le> bval c \<and> bval c \<le> 90"

definition is_ascii_alphabetic :: "char \<Rightarrow> bool" where
  "is_ascii_alphabetic c \<longleftrightarrow> (65 \<le> bval c \<and> bval c \<le> 90) \<or> (97 \<le> bval c \<and> bval c \<le> 122)"

definition is_ascii_digit :: "char \<Rightarrow> bool" where
  "is_ascii_digit c \<longleftrightarrow> 48 \<le> bval c \<and> bval c \<le> 57"

text \<open>\<open>Display\<close> of an unsigned integer in base \<open>b\<close> (10, or 8 for \<open>{:o}\<close>).\<close>

function show_base :: "nat \<Rightarrow> nat \<Rightarrow> str" where
  "show_base b n =
     (if b \<le> 1 \<or> n < b then [char_of (48 + n)]
      else show_base b (n div b) @ [char_of (48 + n mod b)])"
  by pat_completeness auto
termination
  by (relation "measure snd") auto

declare show_base.simps [simp del]

definition show_nat :: "nat \<Rightarrow> str" where
  "show_nat n = show_base 10 n"

section \<open>Lemmas\<close>

lemma concat_chars [simp]: "concat (chars s) = s"
proof (induction s rule: chars.induct)
  case (1 s)
  show ?case
  proof (cases "s = []")
    case True
    then show ?thesis by (simp add: chars.simps)
  next
    case False
    then show ?thesis
      using 1 by (cases "utf8_next s") (simp_all add: chars.simps[of s])
  qed
qed

lemma chars_Nil [simp]: "chars [] = []"
  by (simp add: chars.simps)

lemma from_utf8_at_Nil [simp]: "from_utf8_at i [] = Utf8Ok"
  by (simp add: from_utf8_at.simps)

lemma from_utf8_Nil [simp]: "from_utf8 [] = Utf8Ok"
  by (simp add: from_utf8_def)

lemma from_utf8_lossy_Nil [simp]: "from_utf8_lossy [] = []"
  by (simp add: from_utf8_lossy.simps)

text \<open>More input after a complete character or after an error does not change it.\<close>

lemma utf8_tail_append:
  "utf8_tail seen k bs \<noteq> UIncomplete \<Longrightarrow> utf8_tail seen k (bs @ cs) = utf8_tail seen k bs"
  by (induction seen k bs rule: utf8_tail.induct) auto

lemma utf8_next_append:
  "utf8_next bs \<noteq> UIncomplete \<Longrightarrow> utf8_next (bs @ cs) = utf8_next bs"
  by (cases bs) (auto split: list.splits simp: utf8_tail_append)

text \<open>The offset only shifts the reported position.\<close>

lemma from_utf8_at_shift:
  "from_utf8_at (i + j) bs =
    (case from_utf8_at i bs of Utf8Ok \<Rightarrow> Utf8Ok | Utf8Err v e \<Rightarrow> Utf8Err (v + j) e)"
proof (induction i bs arbitrary: j rule: from_utf8_at.induct)
  case (1 i bs)
  show ?case
  proof (cases "bs = []")
    case False
    then show ?thesis
    proof (cases "utf8_next bs")
      case (UChar w)
      have "from_utf8_at (i + w + j) (drop w bs) =
          (case from_utf8_at (i + w) (drop w bs) of
            Utf8Ok \<Rightarrow> Utf8Ok | Utf8Err v e \<Rightarrow> Utf8Err (v + j) e)"
        using 1[OF False UChar] .
      then show ?thesis
        using False UChar by (simp add: from_utf8_at.simps[of _ bs] ac_simps)
    qed (simp_all add: from_utf8_at.simps[of _ bs])
  qed simp
qed

lemma from_utf8_UChar:
  assumes "utf8_next bs = UChar w"
  shows "from_utf8 bs =
    (case from_utf8 (drop w bs) of Utf8Ok \<Rightarrow> Utf8Ok | Utf8Err v e \<Rightarrow> Utf8Err (v + w) e)"
proof -
  have "bs \<noteq> []" using assms by auto
  then show ?thesis
    using assms from_utf8_at_shift[of 0 w "drop w bs"]
    by (simp add: from_utf8_def from_utf8_at.simps[of 0 bs])
qed

lemma from_utf8_UIncomplete:
  "bs \<noteq> [] \<Longrightarrow> utf8_next bs = UIncomplete \<Longrightarrow> from_utf8 bs = Utf8Err 0 None"
  by (simp add: from_utf8_def from_utf8_at.simps)

lemma from_utf8_UInvalid:
  "utf8_next bs = UInvalid k \<Longrightarrow> from_utf8 bs = Utf8Err 0 (Some k)"
  by (cases "bs = []") (simp_all add: from_utf8_def from_utf8_at.simps)

lemma utf8_induct [case_names Nil UChar UIncomplete UInvalid]:
  assumes "P []"
    and "\<And>bs w. bs \<noteq> [] \<Longrightarrow> utf8_next bs = UChar w \<Longrightarrow> P (drop w bs) \<Longrightarrow> P bs"
    and "\<And>bs. bs \<noteq> [] \<Longrightarrow> utf8_next bs = UIncomplete \<Longrightarrow> P bs"
    and "\<And>bs k. bs \<noteq> [] \<Longrightarrow> utf8_next bs = UInvalid k \<Longrightarrow> P bs"
  shows "P bs"
proof (induction bs rule: length_induct)
  case (1 bs)
  show ?case
  proof (cases "bs = []")
    case False
    show ?thesis
    proof (cases "utf8_next bs")
      case (UChar w)
      then have "length (drop w bs) < length bs"
        using utf8_next_UChar False by (metis length_drop diff_less length_greater_0_conv)
      then show ?thesis using assms(2)[OF False UChar] 1 by blast
    qed (use assms False in auto)
  qed (use assms in simp)
qed

text \<open>The valid part in front of an error is valid, and the rest starts with the error.\<close>

lemma from_utf8_Err_split:
  "from_utf8 bs = Utf8Err v e \<Longrightarrow>
    v < length bs \<and> valid_utf8 (take v bs) \<and> from_utf8 (drop v bs) = Utf8Err 0 e"
proof (induction bs arbitrary: v rule: utf8_induct)
  case (UChar bs w)
  obtain v' where v': "from_utf8 (drop w bs) = Utf8Err v' e" and v: "v = v' + w"
    using UChar.prems from_utf8_UChar[OF UChar.hyps(2)] by (auto split: utf8_result.splits)
  have w: "0 < w" "w \<le> length bs" using utf8_next_UChar[OF UChar.hyps(2)] by auto
  have IH: "v' < length (drop w bs)" "valid_utf8 (take v' (drop w bs))"
    "from_utf8 (drop v' (drop w bs)) = Utf8Err 0 e"
    using UChar.IH[OF v'] by auto
  have "utf8_next (take w bs) = UChar w"
  proof (rule ccontr)
    assume neq: "utf8_next (take w bs) \<noteq> UChar w"
    have *: "utf8_next (take w bs @ drop w bs) = UChar w" using UChar.hyps by simp
    then have inc: "utf8_next (take w bs) = UIncomplete"
      using utf8_next_append neq by metis
    show False
      using inc * w by (cases bs; cases w)
        (auto split: if_splits list.splits dest!: utf8_tail_UChar utf8_tail_UIncomplete
          simp: take_Cons')
  qed
  then have "utf8_next (take v bs) = UChar w"
    using utf8_next_append[of "take w bs" "take v' (drop w bs)"] take_add[of w v' bs] v
    by (simp add: add.commute)
  moreover have "drop w (take v bs) = take v' (drop w bs)"
    using v by (simp add: drop_take)
  ultimately have "valid_utf8 (take v bs)"
    using IH(2) from_utf8_UChar by (simp add: valid_utf8_def)
  then show ?case using IH v w by (simp add: add.commute)
qed (auto simp: from_utf8_UIncomplete from_utf8_UInvalid valid_utf8_def)

lemma from_utf8_append_valid:
  "valid_utf8 xs \<Longrightarrow> from_utf8 (xs @ ys) =
    (case from_utf8 ys of Utf8Ok \<Rightarrow> Utf8Ok | Utf8Err v e \<Rightarrow> Utf8Err (v + length xs) e)"
proof (induction xs rule: utf8_induct)
  case (UChar xs w)
  have w: "w \<le> length xs" using utf8_next_UChar[OF UChar.hyps(2)] by simp
  have valid: "valid_utf8 (drop w xs)"
    using UChar.prems from_utf8_UChar[OF UChar.hyps(2)]
    by (auto simp: valid_utf8_def split: utf8_result.splits)
  have first: "utf8_next (xs @ ys) = UChar w"
    using utf8_next_append UChar.hyps(2) by simp
  show ?case
    using from_utf8_UChar[OF first] UChar.IH[OF valid] w
    by (auto split: utf8_result.splits)
qed (auto simp: from_utf8_UIncomplete from_utf8_UInvalid valid_utf8_def
      split: utf8_result.splits)

lemma valid_utf8_append: "valid_utf8 xs \<Longrightarrow> valid_utf8 (xs @ ys) \<longleftrightarrow> valid_utf8 ys"
  by (simp add: from_utf8_append_valid valid_utf8_def split: utf8_result.splits)

lemma from_utf8_lossy_valid: "valid_utf8 bs \<Longrightarrow> from_utf8_lossy bs = bs"
proof (induction bs rule: utf8_induct)
  case (UChar bs w)
  then have "valid_utf8 (drop w bs)"
    using from_utf8_UChar[OF UChar.hyps(2)]
    by (auto simp: valid_utf8_def split: utf8_result.splits)
  then show ?case using UChar by (simp add: from_utf8_lossy.simps[of bs])
qed (auto simp: from_utf8_UIncomplete from_utf8_UInvalid valid_utf8_def)

text \<open>A prefix of a valid string is valid up to an incomplete last character.\<close>

lemma from_utf8_prefix_of_valid:
  assumes "valid_utf8 (xs @ ys)"
  shows "from_utf8 xs = Utf8Ok \<or> (\<exists>v. from_utf8 xs = Utf8Err v None)"
proof (cases "from_utf8 xs")
  case (Utf8Err v e)
  then have split: "valid_utf8 (take v xs)" "from_utf8 (drop v xs) = Utf8Err 0 e" "v < length xs"
    using from_utf8_Err_split by auto
  have "valid_utf8 (drop v xs @ ys)"
    using valid_utf8_append[OF split(1), of "drop v xs @ ys"] assms
    by (simp flip: append_assoc)
  moreover have "e = None"
  proof (cases "utf8_next (drop v xs)")
    case (UInvalid k)
    then have "utf8_next (drop v xs @ ys) = UInvalid k"
      using utf8_next_append by simp
    then show ?thesis
      using calculation from_utf8_UInvalid by (simp add: valid_utf8_def)
  next
    case (UChar w)
    then show ?thesis
      using split(2) from_utf8_UChar[OF UChar] utf8_next_UChar[OF UChar]
      by (auto split: utf8_result.splits)
  next
    case UIncomplete
    then show ?thesis
      using split(2,3) from_utf8_UIncomplete[of "drop v xs"] by simp
  qed
  ultimately show ?thesis using Utf8Err by auto
qed simp

lemma length_trim_chars: "length (trim_chars cs) \<le> length cs"
  by (simp add: trim_chars_def) (metis le_trans length_dropWhile_le length_rev)

end
