(* ===== verification/Protocol.thy ===== *)
theory Protocol
  imports Rust_Str
begin

text \<open>
  The IPC contract of \<open>crates/protocol/src/lib.rs\<close>: its enumerations, records, requests
  and responses, the command preview, and the length-prefixed frames that carry a
  serialized message over a byte stream. The serializer (\<open>rmp_serde\<close>) is a parameter
  of the framing functions. The interface \<open>framing\<close> states what a reader and a writer
  owe each other, and its lemma lifts that from one message to a conversation.
\<close>

section \<open>Constants and data\<close>

definition PROTOCOL_VERSION :: nat where
  "PROTOCOL_VERSION = 3"

definition MAX_FRAME_BYTES :: nat where
  "MAX_FRAME_BYTES = 8 * 1024 * 1024"

definition MAX_WAIT_SECONDS :: nat where
  "MAX_WAIT_SECONDS = 300"

definition COMMAND_PREVIEW_CHARS :: nat where
  "COMMAND_PREVIEW_CHARS = 200"

definition ellipsis :: str where
  "ellipsis = [CHR 0xE2, CHR 0x80, CHR 0xA6]"

definition command_preview :: "str \<Rightarrow> str" where
  "command_preview command =
     (let trimmed = trim command in
      if length (chars trimmed) \<le> COMMAND_PREVIEW_CHARS then trimmed
      else concat (take COMMAND_PREVIEW_CHARS (chars trimmed)) @ ellipsis)"

datatype session_status =
    S_Connecting | S_Ready | S_ExecRunning | S_PtyOpen | S_Idle
  | S_Disconnected | S_Interrupted | S_Closed | S_Failed

datatype command_status =
    C_Running | C_Completed | C_Failed | C_TimedOut | C_Cancelled | C_Interrupted

datatype stream_kind = Stdout | Stderr | Pty | System

datatype file_kind = File | Directory | Symlink | OtherKind

record target_summary =
  ts_id :: str
  ts_name :: str
  ts_host :: str
  ts_port :: nat
  ts_username :: str
  ts_host_verification :: bool

record session_info =
  si_id :: str
  si_target_id :: str
  si_target_name :: str
  si_purpose :: str
  si_client_name :: str
  si_status :: session_status
  si_current_command :: "str option"
  si_last_exit_code :: "nat option"
  si_recording_truncated :: bool
  si_host_fingerprint :: "str option"
  si_created_at :: time
  si_updated_at :: time
  si_closed_at :: "time option"

record command_info =
  ci_id :: str
  ci_session_id :: str
  ci_command :: str
  ci_status :: command_status
  ci_exit_code :: "nat option"
  ci_started_at :: time
  ci_finished_at :: "time option"
  ci_last_sequence :: nat
  ci_recording_truncated :: bool
  ci_output_bytes :: nat

record command_summary =
  cs_id :: str
  cs_session_id :: str
  cs_command_preview :: str
  cs_status :: command_status
  cs_exit_code :: "nat option"
  cs_started_at :: time
  cs_finished_at :: "time option"
  cs_last_sequence :: nat
  cs_output_bytes :: nat
  cs_recording_truncated :: bool
  cs_running_for_seconds :: "nat option"
  cs_seconds_since_last_output :: "nat option"

record terminal_event =
  te_session_id :: str
  te_command_id :: "str option"
  te_sequence :: nat
  te_timestamp :: time
  te_stream :: stream_kind
  te_payload :: bytes
  te_persisted :: bool

record file_stat_info =
  fs_path :: str
  fs_kind :: file_kind
  fs_size :: nat
  fs_mode :: "nat option"
  fs_uid :: "nat option"
  fs_gid :: "nat option"
  fs_user :: "str option"
  fs_group :: "str option"
  fs_modified_at :: "time option"
  fs_sha256 :: "str option"

record file_content_info =
  fc_path :: str
  fc_size :: nat
  fc_bytes_returned :: nat
  fc_truncated :: bool
  fc_is_utf8 :: bool
  fc_sha256 :: "str option"
  fc_data :: bytes

record file_outcome =
  fo_path :: str
  fo_bytes :: nat
  fo_sha256 :: "str option"
  fo_verified :: bool
  fo_changed :: bool
  fo_mode :: "nat option"
  fo_local_path :: "str option"

record event_progress =
  ep_seconds_since_last_output :: "nat option"
  ep_live_tail_dropped :: bool
  ep_timed_out :: bool
  ep_waited_seconds :: nat

text \<open>\<open>EventProgress::default()\<close>.\<close>

definition event_progress_default :: event_progress where
  "event_progress_default =
     \<lparr>ep_seconds_since_last_output = None, ep_live_tail_dropped = False,
      ep_timed_out = False, ep_waited_seconds = 0\<rparr>"

record error_payload =
  ep_code :: str
  ep_message :: str
  ep_retryable :: bool

definition new_error :: "str \<Rightarrow> str \<Rightarrow> error_payload" where
  "new_error code message = \<lparr>ep_code = code, ep_message = message, ep_retryable = False\<rparr>"

definition retryable :: "error_payload \<Rightarrow> error_payload" where
  "retryable e = e\<lparr>ep_retryable := True\<rparr>"

type_synonym 'a api_result = "error_payload + 'a"

text \<open>The environment of a command is a \<open>BTreeMap\<close>: its entries, keys ascending.\<close>

type_synonym env_map = "(str \<times> str) list"

datatype request =
    Handshake nat str
  | TargetsList
  | SessionsList bool
  | SessionCreate str str
  | SessionStatus str
  | SessionClose str
  | ExecStart str str "str option" env_map "nat option"
  | ExecBackground str str "str option" env_map "nat option"
  | CommandPoll str nat nat nat
  | CommandCancel str
  | CommandsList "str option" bool nat
  | ShellOpen str nat nat str
  | ShellWrite str bytes
  | ShellRead str nat nat nat
  | ShellResize str nat nat
  | ShellClose str
  | FileStat str str bool
  | FileRead str str nat bool
  | FileWrite str str bytes bool bool "nat option" bool bool
  | FileUpload str str str bool "nat option" bool
  | FileDownload str str str bool bool bool
  | FileMkdir str str bool "nat option"
  | ReloadConfig
  | DaemonShutdown

record events_page =
  ev_command :: "command_info option"
  ev_commands :: "command_info list"
  ev_events :: "terminal_event list"
  ev_next_sequence :: nat
  ev_has_more :: bool
  ev_delivery_complete :: bool
  ev_warnings :: "str list"
  ev_progress :: event_progress

datatype response_data =
    R_Handshake nat str
  | R_Targets "target_summary list"
  | R_Sessions "session_info list"
  | R_Session session_info
  | R_Command command_info
  | R_Commands "command_summary list"
  | R_FileStat file_stat_info
  | R_FileContent file_content_info
  | R_FileOutcome file_outcome
  | R_Events events_page
  | R_Ack

record response =
  re_request_id :: nat
  re_result :: "response_data api_result"

record request_frame =
  rf_request_id :: nat
  rf_request :: request

section \<open>Frames\<close>

text \<open>The error kinds of \<open>std::io::ErrorKind\<close> that the sources name.\<close>

datatype io_kind =
    UnexpectedEof | InvalidData | AddrInUse | ConnectionRefused | NotFound
  | PermissionDenied | AlreadyExists | WouldBlock | OtherIo

record io_error =
  io_kind :: io_kind
  io_message :: str

definition io_err :: "io_kind \<Rightarrow> str \<Rightarrow> io_error" where
  "io_err k m = \<lparr>io_kind = k, io_message = m\<rparr>"

definition frame_too_large :: io_error where
  "frame_too_large = io_err InvalidData ''IPC frame is too large''"

text \<open>\<open>AsyncWriteExt::write_u32\<close> and \<open>AsyncReadExt::read_u32\<close>: four bytes, big-endian.\<close>

definition be32 :: "nat \<Rightarrow> bytes" where
  "be32 n = [char_of (n div 2 ^ 24), char_of (n div 2 ^ 16), char_of (n div 2 ^ 8), char_of n]"

definition of_be32 :: "bytes \<Rightarrow> nat" where
  "of_be32 bs = foldl (\<lambda>acc b. acc * 256 + bval b) 0 bs"

text \<open>
  \<open>write_frame\<close> returns the bytes it puts on the stream. \<open>read_frame\<close> returns what is
  left of the stream after it; a stream that ends inside a frame is consumed.
\<close>

definition write_frame :: "('a \<Rightarrow> str + bytes) \<Rightarrow> 'a \<Rightarrow> io_error + bytes" where
  "write_frame to_vec value =
     (case to_vec value of
        Inl e \<Rightarrow> Inl (io_err OtherIo e)
      | Inr body \<Rightarrow>
          if length body > MAX_FRAME_BYTES then Inl frame_too_large
          else Inr (be32 (length body) @ body))"

definition read_frame :: "(bytes \<Rightarrow> str + 'a) \<Rightarrow> bytes \<Rightarrow> (io_error + 'a) \<times> bytes" where
  "read_frame from_slice stream =
     (if length stream < 4 then (Inl (io_err UnexpectedEof ''early eof''), [])
      else
        let len = of_be32 (take 4 stream); rest = drop 4 stream in
        if len > MAX_FRAME_BYTES then (Inl frame_too_large, rest)
        else if length rest < len then (Inl (io_err UnexpectedEof ''early eof''), [])
        else (map_err (io_err OtherIo) (from_slice (take len rest)), drop len rest))"

text \<open>A peer that reads \<open>n\<close> messages in a row, stopping at the first failure.\<close>

fun read_frames :: "(bytes \<Rightarrow> str + 'a) \<Rightarrow> nat \<Rightarrow> bytes \<Rightarrow> 'a list \<times> bytes" where
  "read_frames from_slice 0 s = ([], s)"
| "read_frames from_slice (Suc n) s =
     (case read_frame from_slice s of
        (Inl e, s') \<Rightarrow> ([], s')
      | (Inr x, s') \<Rightarrow>
          (case read_frames from_slice n s' of (xs, t) \<Rightarrow> (x # xs, t)))"

section \<open>Interface: a framed byte stream\<close>

locale framing =
  fixes put :: "'a \<Rightarrow> 'e + bytes"
    and get :: "bytes \<Rightarrow> ('e + 'a) \<times> bytes"
  assumes get_put: "put x = Inr w \<Longrightarrow> get (w @ rest) = (Inr x, rest)"
begin

text \<open>Any function that reads message after message recovers what was written.\<close>

lemma many_of_put:
  assumes zero: "\<And>s. many 0 s = ([], s)"
    and more: "\<And>n s x t. get s = (Inr x, t) \<Longrightarrow> many (Suc n) s = (x # fst (many n t), snd (many n t))"
    and sent: "list_all2 (\<lambda>x w. put x = Inr w) xs ws"
  shows "many (length xs) (concat ws @ rest) = (xs, rest)"
  using sent by (induction xs ws rule: list_all2_induct) (simp_all add: zero more get_put)

end

section \<open>Lemmas\<close>

lemma new_error_simps [simp]:
  "ep_code (new_error c m) = c" "ep_message (new_error c m) = m"
  "ep_retryable (new_error c m) = False"
  "ep_code (retryable e) = ep_code e" "ep_message (retryable e) = ep_message e"
  "ep_retryable (retryable e) = True"
  by (simp_all add: new_error_def retryable_def)

lemma length_be32 [simp]: "length (be32 n) = 4"
  by (simp add: be32_def)

lemma bval_char_of [simp]: "bval (char_of n) = n mod 256"
  by (simp add: bval_def)

lemma of_be32_be32: "n < 2 ^ 32 \<Longrightarrow> of_be32 (be32 n) = n"
proof -
  assume n: "n < 2 ^ 32"
  define a where "a = n div 256"
  define b where "b = a div 256"
  define c where "c = b div 256"
  have divs: "n div 65536 = b" "n div 16777216 = c"
    by (simp_all add: a_def b_def c_def flip: div_mult2_eq)
  have "c < 256" using n by (simp add: a_def b_def c_def flip: div_mult2_eq)
  moreover have "n = a * 256 + n mod 256" "a = b * 256 + a mod 256" "b = c * 256 + b mod 256"
    by (simp_all add: a_def b_def c_def)
  ultimately show ?thesis
    by (simp add: of_be32_def be32_def divs flip: a_def)
qed

lemma max_frame_below_u32: "MAX_FRAME_BYTES < 2 ^ 32"
  by (simp add: MAX_FRAME_BYTES_def)

lemma write_frame_Inr:
  "write_frame to_vec x = Inr w \<longleftrightarrow>
    (\<exists>body. to_vec x = Inr body \<and> length body \<le> MAX_FRAME_BYTES \<and> w = be32 (length body) @ body)"
  by (auto simp: write_frame_def split: sum.splits)

lemma read_frame_of_body:
  assumes "length body \<le> MAX_FRAME_BYTES"
  shows "read_frame from_slice ((be32 (length body) @ body) @ rest) =
    (map_err (io_err OtherIo) (from_slice body), rest)"
proof -
  have "of_be32 (be32 (length body)) = length body"
    using assms max_frame_below_u32 by (intro of_be32_be32) simp
  then show ?thesis using assms by (simp add: read_frame_def Let_def)
qed

section \<open>Interface: a serializer\<close>

text \<open>
  What is relied on of the serializers of the two sides: one decodes what the other encoded. The
  frames around such a pair are a framed byte stream.
\<close>

locale codec =
  fixes enc :: "'a \<Rightarrow> str + bytes"
    and dec :: "bytes \<Rightarrow> str + 'a"
  assumes decode: "enc x = Inr body \<Longrightarrow> dec body = Inr x"
begin

lemma read_back:
  assumes "write_frame enc x = Inr w"
  shows "read_frame dec (w @ rest) = (Inr x, rest)"
proof -
  obtain body where body: "enc x = Inr body" "length body \<le> MAX_FRAME_BYTES"
    and w: "w = be32 (length body) @ body"
    using assms by (auto simp: write_frame_Inr)
  show ?thesis unfolding w read_frame_of_body[OF body(2)] using decode[OF body(1)] by simp
qed

end

sublocale codec \<subseteq> frames: framing "write_frame enc" "read_frame dec"
  by unfold_locales (rule read_back)

context codec
begin

lemma read_frames_back:
  "list_all2 (\<lambda>x w. write_frame enc x = Inr w) xs ws \<Longrightarrow>
    read_frames dec (length xs) (concat ws @ rest) = (xs, rest)"
  by (rule frames.many_of_put) (simp_all add: split_beta)

end

text \<open>The two directions of a connection between a client and the daemon.\<close>

locale peers = requests: codec enc_request dec_request + responses: codec enc_response dec_response
  for enc_request :: "request_frame \<Rightarrow> str + bytes" and dec_request :: "bytes \<Rightarrow> str + request_frame"
    and enc_response :: "response \<Rightarrow> str + bytes" and dec_response :: "bytes \<Rightarrow> str + response"

lemma peersI:
  assumes "\<And>f body. enc_request f = Inr body \<Longrightarrow> dec_request body = Inr f"
    and "\<And>x body. enc_response x = Inr body \<Longrightarrow> dec_response body = Inr x"
  shows "peers enc_request dec_request enc_response dec_response"
  by (intro peers.intro codec.intro) (fact assms)+

text \<open>A body that is bytes already.\<close>

interpretation raw: codec Inr Inr
  by unfold_locales simp

section \<open>Properties\<close>

text \<open>
  C6: a conversation survives the byte stream. Any list of messages whose frames are
  written one after the other, with anything behind them, is read back as the same list
  and leaves exactly what was behind it, provided the serializer decodes what it encoded.
\<close>

theorem frames_round_trip:
  assumes codec: "\<And>x body. to_vec x = Inr body \<Longrightarrow> from_slice body = Inr x"
    and sent: "list_all2 (\<lambda>x w. write_frame to_vec x = Inr w) xs ws"
  shows "read_frames from_slice (length xs) (concat ws @ rest) = (xs, rest)"
  by (rule codec.read_frames_back[OF codec.intro[OF codec] sent])

theorem frames_round_trip_witness:
  "read_frames Inr (length [''ab'', []])
      (concat [be32 2 @ ''ab'', be32 0 @ []] @ ''xyz'') = ([''ab'', []], ''xyz'')"
  by (rule frames_round_trip[of Inr])
    (auto simp: write_frame_def MAX_FRAME_BYTES_def be32_def)

text \<open>
  the frame limit is enforced on both sides. A message is written only when its body
  fits the limit, and a reader that sees a longer announced length rejects it before
  reading any of the body; in every case it consumes at most the limit and the prefix.
\<close>

theorem frame_limit_enforced:
  "(write_frame to_vec x = Inr w \<longrightarrow> length w \<le> 4 + MAX_FRAME_BYTES) \<and>
   (4 \<le> length s \<and> of_be32 (take 4 s) > MAX_FRAME_BYTES \<longrightarrow>
      read_frame from_slice s = (Inl frame_too_large, drop 4 s)) \<and>
   (fst (read_frame from_slice s) = Inr y \<longrightarrow>
      (\<exists>n \<le> 4 + MAX_FRAME_BYTES. snd (read_frame from_slice s) = drop n s))"
proof (intro conjI impI)
  assume "fst (read_frame from_slice s) = Inr y"
  then have "of_be32 (take 4 s) \<le> MAX_FRAME_BYTES"
    and "snd (read_frame from_slice s) = drop (4 + of_be32 (take 4 s)) s"
    by (auto simp: read_frame_def Let_def add.commute split: if_splits)
  then show "\<exists>n \<le> 4 + MAX_FRAME_BYTES. snd (read_frame from_slice s) = drop n s"
    by (intro exI[of _ "4 + of_be32 (take 4 s)"]) simp
qed (auto simp: write_frame_Inr read_frame_def Let_def)

theorem frame_limit_enforced_witness:
  "length (be32 3 @ ''abc'') \<le> 4 + MAX_FRAME_BYTES \<and>
   read_frame Inr (be32 (MAX_FRAME_BYTES + 1) @ ''q'') = (Inl frame_too_large, ''q'') \<and>
   (\<exists>n \<le> 4 + MAX_FRAME_BYTES. snd (read_frame Inr (be32 0 @ ''q'')) = drop n (be32 0 @ ''q''))"
proof -
  have "write_frame Inr ''abc'' = Inr (be32 3 @ ''abc'')"
    by (simp add: write_frame_def MAX_FRAME_BYTES_def be32_def)
  moreover have "of_be32 (be32 (MAX_FRAME_BYTES + 1)) = MAX_FRAME_BYTES + 1"
    by (rule of_be32_be32) (simp add: MAX_FRAME_BYTES_def)
  moreover have "read_frame Inr (be32 0 @ ''q'') = (Inr [], ''q'')"
    using read_frame_of_body[of "[]" Inr "''q''"] by simp
  ultimately show ?thesis
    using frame_limit_enforced[of Inr "''abc''" "be32 3 @ ''abc''" "[]" Inr]
      frame_limit_enforced[of Inr "[]" "[]" "be32 (MAX_FRAME_BYTES + 1) @ ''q''" Inr]
      frame_limit_enforced[of Inr "[]" "[]" "be32 0 @ ''q''" Inr "[]"]
    by simp
qed

text \<open>
  a preview is short and never splits a character. It has at most one character more
  than the limit, the whole trimmed command is shown when it fits, and otherwise the
  preview is a prefix of whole characters with an ellipsis.
\<close>

theorem command_preview_shape:
  "(length (chars (trim c)) \<le> COMMAND_PREVIEW_CHARS \<and> command_preview c = trim c) \<or>
   (\<exists>shown hidden. chars (trim c) = shown @ hidden \<and> length shown = COMMAND_PREVIEW_CHARS \<and>
      hidden \<noteq> [] \<and> command_preview c = concat shown @ ellipsis)"
proof (cases "length (chars (trim c)) \<le> COMMAND_PREVIEW_CHARS")
  case True
  then show ?thesis by (simp add: command_preview_def)
next
  case False
  then show ?thesis
    by (intro disjI2 exI[of _ "take COMMAND_PREVIEW_CHARS (chars (trim c))"]
        exI[of _ "drop COMMAND_PREVIEW_CHARS (chars (trim c))"])
      (simp add: command_preview_def)
qed

end
