(* ===== verification/Storage.thy ===== *)
theory Storage
  imports Protocol
begin

text \<open>
  The SQLite history of \<open>crates/storage/src/lib.rs\<close>. The three tables of the schema are
  lists of rows in insertion order, and each method is the meaning of the statements it
  executes, constraint violations included: primary keys, the foreign keys with their
  cascades, \<open>UNIQUE(session_id, sequence)\<close> and the conversion of a \<open>u64\<close> parameter to
  SQLite's signed integer. Any statement may also fail for a reason of its own (a full disk, a
  locked file, a poisoned connection lock): the store carries a function that says which ones do,
  and \<open>append_event\<close>, whose statements run without a transaction, stops between two of them.
  Timestamps are stored as RFC 3339 text in UTC, whose text order is the order of time, so a
  timestamp is a \<open>time\<close>. The invariant \<open>st_inv\<close> states the keys, the references and the byte
  accounting; \<open>st_exact\<close> is the accounting when no statement has failed.
\<close>

section \<open>Enumerations as text\<close>

text \<open>
  \<open>enum_text\<close> and \<open>parse_enum\<close> at the three enumerations the tables hold. The types are instances of
  \<open>enum\<close>, so that a text is looked up among all their values.
\<close>

fun session_status_text :: "session_status \<Rightarrow> str" where
  "session_status_text S_Connecting = ''connecting''"
| "session_status_text S_Ready = ''ready''"
| "session_status_text S_ExecRunning = ''exec_running''"
| "session_status_text S_PtyOpen = ''pty_open''"
| "session_status_text S_Idle = ''idle''"
| "session_status_text S_Disconnected = ''disconnected''"
| "session_status_text S_Interrupted = ''interrupted''"
| "session_status_text S_Closed = ''closed''"
| "session_status_text S_Failed = ''failed''"

fun command_status_text :: "command_status \<Rightarrow> str" where
  "command_status_text C_Running = ''running''"
| "command_status_text C_Completed = ''completed''"
| "command_status_text C_Failed = ''failed''"
| "command_status_text C_TimedOut = ''timed_out''"
| "command_status_text C_Cancelled = ''cancelled''"
| "command_status_text C_Interrupted = ''interrupted''"

fun stream_text :: "stream_kind \<Rightarrow> str" where
  "stream_text Stdout = ''stdout''"
| "stream_text Stderr = ''stderr''"
| "stream_text Pty = ''pty''"
| "stream_text System = ''system''"

instantiation session_status :: enum
begin

definition enum_session_status :: "session_status list" where
  "enum_session_status = [S_Connecting, S_Ready, S_ExecRunning, S_PtyOpen, S_Idle,
     S_Disconnected, S_Interrupted, S_Closed, S_Failed]"

definition enum_all_session_status :: "(session_status \<Rightarrow> bool) \<Rightarrow> bool" where
  "enum_all_session_status P \<longleftrightarrow> P S_Connecting \<and> P S_Ready \<and> P S_ExecRunning \<and> P S_PtyOpen \<and> P S_Idle
      \<and> P S_Disconnected \<and> P S_Interrupted \<and> P S_Closed \<and> P S_Failed"

definition enum_ex_session_status :: "(session_status \<Rightarrow> bool) \<Rightarrow> bool" where
  "enum_ex_session_status P \<longleftrightarrow> P S_Connecting \<or> P S_Ready \<or> P S_ExecRunning \<or> P S_PtyOpen \<or> P S_Idle
      \<or> P S_Disconnected \<or> P S_Interrupted \<or> P S_Closed \<or> P S_Failed"

instance
proof
  have "x \<in> set enum_class.enum" for x :: session_status
    by (cases x) (simp_all add: enum_session_status_def)
  then show "(UNIV :: session_status set) = set enum_class.enum" by blast
  show "enum_class.enum_all P \<longleftrightarrow> Ball UNIV P" for P :: "session_status \<Rightarrow> bool"
    unfolding enum_all_session_status_def by (metis UNIV_I session_status.exhaust)
  show "enum_class.enum_ex P \<longleftrightarrow> Bex UNIV P" for P :: "session_status \<Rightarrow> bool"
    unfolding enum_ex_session_status_def by (metis UNIV_I session_status.exhaust)
qed (simp add: enum_session_status_def)

end

instantiation command_status :: enum
begin

definition enum_command_status :: "command_status list" where
  "enum_command_status = [C_Running, C_Completed, C_Failed, C_TimedOut,
     C_Cancelled, C_Interrupted]"

definition enum_all_command_status :: "(command_status \<Rightarrow> bool) \<Rightarrow> bool" where
  "enum_all_command_status P \<longleftrightarrow> P C_Running \<and> P C_Completed \<and> P C_Failed \<and> P C_TimedOut
      \<and> P C_Cancelled \<and> P C_Interrupted"

definition enum_ex_command_status :: "(command_status \<Rightarrow> bool) \<Rightarrow> bool" where
  "enum_ex_command_status P \<longleftrightarrow> P C_Running \<or> P C_Completed \<or> P C_Failed \<or> P C_TimedOut
      \<or> P C_Cancelled \<or> P C_Interrupted"

instance
proof
  have "x \<in> set enum_class.enum" for x :: command_status
    by (cases x) (simp_all add: enum_command_status_def)
  then show "(UNIV :: command_status set) = set enum_class.enum" by blast
  show "enum_class.enum_all P \<longleftrightarrow> Ball UNIV P" for P :: "command_status \<Rightarrow> bool"
    unfolding enum_all_command_status_def by (metis UNIV_I command_status.exhaust)
  show "enum_class.enum_ex P \<longleftrightarrow> Bex UNIV P" for P :: "command_status \<Rightarrow> bool"
    unfolding enum_ex_command_status_def by (metis UNIV_I command_status.exhaust)
qed (simp add: enum_command_status_def)

end

instantiation stream_kind :: enum
begin

definition enum_stream_kind :: "stream_kind list" where
  "enum_stream_kind = [Stdout, Stderr, Pty, System]"

definition enum_all_stream_kind :: "(stream_kind \<Rightarrow> bool) \<Rightarrow> bool" where
  "enum_all_stream_kind P \<longleftrightarrow> P Stdout \<and> P Stderr \<and> P Pty \<and> P System"

definition enum_ex_stream_kind :: "(stream_kind \<Rightarrow> bool) \<Rightarrow> bool" where
  "enum_ex_stream_kind P \<longleftrightarrow> P Stdout \<or> P Stderr \<or> P Pty \<or> P System"

instance
proof
  have "x \<in> set enum_class.enum" for x :: stream_kind
    by (cases x) (simp_all add: enum_stream_kind_def)
  then show "(UNIV :: stream_kind set) = set enum_class.enum" by blast
  show "enum_class.enum_all P \<longleftrightarrow> Ball UNIV P" for P :: "stream_kind \<Rightarrow> bool"
    unfolding enum_all_stream_kind_def by (metis UNIV_I stream_kind.exhaust)
  show "enum_class.enum_ex P \<longleftrightarrow> Bex UNIV P" for P :: "stream_kind \<Rightarrow> bool"
    unfolding enum_ex_stream_kind_def by (metis UNIV_I stream_kind.exhaust)
qed (simp add: enum_stream_kind_def)

end

definition parse_enum :: "('a::enum \<Rightarrow> str) \<Rightarrow> str \<Rightarrow> 'a \<Rightarrow> 'a" where
  "parse_enum text v fallback =
     (case find (\<lambda>x. text x = v) enum_class.enum of Some x \<Rightarrow> x | None \<Rightarrow> fallback)"

text \<open>What was written is read back, whatever the fallback, because no two values share a text.\<close>

lemma parse_enum_text:
  assumes "\<forall>x y. text x = text y \<longrightarrow> x = y"
  shows "parse_enum text (text x) fallback = x"
proof -
  obtain y where "find (\<lambda>y. text y = text x) enum_class.enum = Some y"
    using enum_UNIV by (metis (mono_tags, lifting) UNIV_I find_None_iff2 not_Some_eq)
  moreover from this have "y = x" using assms by (auto simp: find_Some_iff)
  ultimately show ?thesis by (simp add: parse_enum_def)
qed

lemma enum_texts_inject:
  "\<forall>x y. session_status_text x = session_status_text y \<longrightarrow> x = y"
  "\<forall>x y. command_status_text x = command_status_text y \<longrightarrow> x = y"
  "\<forall>x y. stream_text x = stream_text y \<longrightarrow> x = y"
  by code_simp+

lemmas parse_enum_texts [simp] = enum_texts_inject[THEN parse_enum_text]

section \<open>Tables\<close>

record session_row =
  sr_id :: str
  sr_target_id :: str
  sr_target_name :: str
  sr_purpose :: str
  sr_client_name :: str
  sr_status :: str
  sr_current_command :: "str option"
  sr_host_fingerprint :: "str option"
  sr_created_at :: time
  sr_updated_at :: time
  sr_closed_at :: "time option"
  sr_last_exit_code :: "nat option"
  sr_recorded_bytes :: nat
  sr_recording_truncated :: bool

record command_row =
  cr_id :: str
  cr_session_id :: str
  cr_command :: str
  cr_status :: str
  cr_exit_code :: "nat option"
  cr_started_at :: time
  cr_finished_at :: "time option"
  cr_last_sequence :: nat
  cr_recording_truncated :: bool
  cr_recorded_bytes :: nat

record event_row =
  er_session_id :: str
  er_command_id :: "str option"
  er_sequence :: nat
  er_timestamp :: time
  er_stream :: str
  er_payload :: bytes

datatype storage_error = Database str | Lock

text \<open>
  The statements the methods execute, and which of them the engine refuses at the moment. The error
  is \<open>Lock\<close> for a connection lock that a panic poisoned, and then for every statement.
\<close>

datatype sql_call =
    SqlInterrupt | SqlUpsertSession | SqlSessions | SqlSession
  | SqlInsertCommand | SqlUpdateCommand | SqlCommand | SqlLatestCommand | SqlCommands
  | SqlRecordedBytes | SqlMarkSession | SqlMarkCommand
  | SqlInsertEvent | SqlCountCommand | SqlCountSession | SqlEvents | SqlCleanup

type_synonym sql_faults = "sql_call \<Rightarrow> storage_error option"

record storage =
  st_sessions :: "session_row list"
  st_commands :: "command_row list"
  st_events :: "event_row list"
  st_recording_limit_bytes :: nat
  st_fault :: sql_faults

fun storage_error_text :: "storage_error \<Rightarrow> str" where
  "storage_error_text (Database e) = ''database error: '' @ e"
| "storage_error_text Lock = ''database lock poisoned''"

text \<open>
  \<open>Storage::open\<close> on the tables the file already holds (empty for a new file). The limit is
  computed in \<open>u64\<close>, so it wraps around in a release build.
\<close>

definition no_faults :: sql_faults where
  "no_faults = (\<lambda>_. None)"

definition open_storage ::
    "session_row list \<Rightarrow> command_row list \<Rightarrow> event_row list \<Rightarrow> nat \<Rightarrow> storage" where
  "open_storage sessions commands events recording_limit_mib =
     \<lparr>st_sessions = sessions, st_commands = commands, st_events = events,
      st_recording_limit_bytes = (recording_limit_mib * 1024 * 1024) mod u64_mod,
      st_fault = no_faults\<rparr>"

text \<open>Taking the lock and executing a statement.\<close>

definition conn :: "sql_call \<Rightarrow> storage \<Rightarrow> storage_error + unit" where
  "conn q st = (case st_fault st q of Some e \<Rightarrow> Inl e | None \<Rightarrow> Inr ())"

definition healthy :: "storage \<Rightarrow> bool" where
  "healthy st \<longleftrightarrow> st_fault st = no_faults"

lemma no_faults_apply [simp]: "no_faults q = None"
  by (simp add: no_faults_def)

lemma healthy_fault [simp]: "healthy st \<Longrightarrow> st_fault st q = None"
  by (simp add: healthy_def)

lemma healthy_conn [simp]: "healthy st \<Longrightarrow> conn q st = Inr ()"
  by (simp add: conn_def)

lemma healthy_more [simp]:
  "healthy (st\<lparr>st_sessions := ss\<rparr>) = healthy st" "healthy (st\<lparr>st_commands := cs\<rparr>) = healthy st"
  "healthy (st\<lparr>st_events := es\<rparr>) = healthy st" "healthy (open_storage ss cs es mib)"
  by (simp_all add: healthy_def open_storage_def)

text \<open>Binding a \<open>u64\<close> parameter fails when it does not fit SQLite's signed integer.\<close>

definition to_sql_u64 :: "nat \<Rightarrow> storage_error + nat" where
  "to_sql_u64 n =
     (if n < i64_limit then Inr n
      else Inl (Database ''out of range integral type conversion attempted''))"

text \<open>\<open>ORDER BY key DESC\<close>, stable in the insertion order.\<close>

definition order_desc :: "('a \<Rightarrow> time) \<Rightarrow> 'a list \<Rightarrow> 'a list" where
  "order_desc key xs = sort_key (\<lambda>x. - int (key x)) xs"

section \<open>Sessions\<close>

definition terminal_session_texts :: "str list" where
  "terminal_session_texts = [''closed'', ''failed'', ''disconnected'', ''interrupted'']"

definition interrupt_unfinished :: "time \<Rightarrow> storage \<Rightarrow> (storage_error + unit) \<times> storage" where
  "interrupt_unfinished now st =
     (case conn SqlInterrupt st of
        Inl e \<Rightarrow> (Inl e, st)
      | Inr _ \<Rightarrow>
          (Inr (),
           st\<lparr>st_sessions :=
             map (\<lambda>r. if List.member terminal_session_texts (sr_status r) then r
                      else r\<lparr>sr_status := ''interrupted'', sr_updated_at := now,
                             sr_closed_at := Some now\<rparr>) (st_sessions st)\<rparr>))"

definition row_of_session :: "session_info \<Rightarrow> session_row" where
  "row_of_session s =
     \<lparr>sr_id = si_id s, sr_target_id = si_target_id s, sr_target_name = si_target_name s,
      sr_purpose = si_purpose s, sr_client_name = si_client_name s,
      sr_status = session_status_text (si_status s),
      sr_current_command = si_current_command s, sr_host_fingerprint = si_host_fingerprint s,
      sr_created_at = si_created_at s, sr_updated_at = si_updated_at s,
      sr_closed_at = si_closed_at s, sr_last_exit_code = si_last_exit_code s,
      sr_recorded_bytes = 0, sr_recording_truncated = si_recording_truncated s\<rparr>"

definition update_session_row :: "session_info \<Rightarrow> session_row \<Rightarrow> session_row" where
  "update_session_row s r =
     r\<lparr>sr_status := session_status_text (si_status s),
       sr_current_command := si_current_command s,
       sr_host_fingerprint := si_host_fingerprint s,
       sr_updated_at := si_updated_at s, sr_closed_at := si_closed_at s,
       sr_last_exit_code := si_last_exit_code s,
       sr_recording_truncated := (sr_recording_truncated r \<or> si_recording_truncated s)\<rparr>"

definition upsert_session :: "session_info \<Rightarrow> storage \<Rightarrow> (storage_error + unit) \<times> storage" where
  "upsert_session s st =
     (case conn SqlUpsertSession st of
        Inl e \<Rightarrow> (Inl e, st)
      | Inr _ \<Rightarrow>
          (Inr (),
           if \<exists>r \<in> set (st_sessions st). sr_id r = si_id s
           then st\<lparr>st_sessions := map (\<lambda>r. if sr_id r = si_id s then update_session_row s r else r)
                                    (st_sessions st)\<rparr>
           else st\<lparr>st_sessions := st_sessions st @ [row_of_session s]\<rparr>))"

definition session_from_row :: "session_row \<Rightarrow> session_info" where
  "session_from_row r =
     \<lparr>si_id = sr_id r, si_target_id = sr_target_id r, si_target_name = sr_target_name r,
      si_purpose = sr_purpose r, si_client_name = sr_client_name r,
      si_status = parse_enum session_status_text (sr_status r) S_Failed,
      si_current_command = sr_current_command r, si_last_exit_code = sr_last_exit_code r,
      si_recording_truncated = sr_recording_truncated r,
      si_host_fingerprint = sr_host_fingerprint r, si_created_at = sr_created_at r,
      si_updated_at = sr_updated_at r, si_closed_at = sr_closed_at r\<rparr>"

definition sessions :: "storage \<Rightarrow> storage_error + session_info list" where
  "sessions st =
     (case conn SqlSessions st of
        Inl e \<Rightarrow> Inl e
      | Inr _ \<Rightarrow> Inr (map session_from_row (order_desc sr_created_at (st_sessions st))))"

definition session :: "str \<Rightarrow> storage \<Rightarrow> storage_error + session_info option" where
  "session i st =
     (case conn SqlSession st of
        Inl e \<Rightarrow> Inl e
      | Inr _ \<Rightarrow> Inr (map_option session_from_row (find (\<lambda>r. sr_id r = i) (st_sessions st))))"

section \<open>Commands\<close>

definition insert_command :: "command_info \<Rightarrow> storage \<Rightarrow> (storage_error + unit) \<times> storage" where
  "insert_command c st =
     (case conn SqlInsertCommand st of
        Inl e \<Rightarrow> (Inl e, st)
      | Inr _ \<Rightarrow>
        (case to_sql_u64 (ci_last_sequence c) of
           Inl e \<Rightarrow> (Inl e, st)
         | Inr last_seq \<Rightarrow>
         (case to_sql_u64 (ci_output_bytes c) of
            Inl e \<Rightarrow> (Inl e, st)
          | Inr out_bytes \<Rightarrow>
            if \<exists>r \<in> set (st_commands st). cr_id r = ci_id c
            then (Inl (Database ''UNIQUE constraint failed: commands.id''), st)
            else if \<not> (\<exists>r \<in> set (st_sessions st). sr_id r = ci_session_id c)
            then (Inl (Database ''FOREIGN KEY constraint failed''), st)
            else (Inr (),
              st\<lparr>st_commands := st_commands st @
                [\<lparr>cr_id = ci_id c, cr_session_id = ci_session_id c, cr_command = ci_command c,
                  cr_status = command_status_text (ci_status c), cr_exit_code = ci_exit_code c,
                  cr_started_at = ci_started_at c, cr_finished_at = ci_finished_at c,
                  cr_last_sequence = last_seq,
                  cr_recording_truncated = ci_recording_truncated c,
                  cr_recorded_bytes = out_bytes\<rparr>]\<rparr>))))"

definition update_command_row :: "command_info \<Rightarrow> command_row \<Rightarrow> command_row" where
  "update_command_row c r =
     r\<lparr>cr_status := command_status_text (ci_status c), cr_exit_code := ci_exit_code c,
       cr_finished_at := ci_finished_at c, cr_last_sequence := ci_last_sequence c,
       cr_recording_truncated := (cr_recording_truncated r \<or> ci_recording_truncated c)\<rparr>"

definition update_command :: "command_info \<Rightarrow> storage \<Rightarrow> (storage_error + unit) \<times> storage" where
  "update_command c st =
     (case conn SqlUpdateCommand st of
        Inl e \<Rightarrow> (Inl e, st)
      | Inr _ \<Rightarrow>
        (case to_sql_u64 (ci_last_sequence c) of
           Inl e \<Rightarrow> (Inl e, st)
         | Inr _ \<Rightarrow>
           (Inr (),
            st\<lparr>st_commands := map (\<lambda>r. if cr_id r = ci_id c then update_command_row c r else r)
                                 (st_commands st)\<rparr>)))"

definition command_from_row :: "command_row \<Rightarrow> command_info" where
  "command_from_row r =
     \<lparr>ci_id = cr_id r, ci_session_id = cr_session_id r, ci_command = cr_command r,
      ci_status = parse_enum command_status_text (cr_status r) C_Failed,
      ci_exit_code = cr_exit_code r, ci_started_at = cr_started_at r,
      ci_finished_at = cr_finished_at r, ci_last_sequence = cr_last_sequence r,
      ci_recording_truncated = cr_recording_truncated r,
      ci_output_bytes = cr_recorded_bytes r\<rparr>"

definition command :: "str \<Rightarrow> storage \<Rightarrow> storage_error + command_info option" where
  "command i st =
     (case conn SqlCommand st of
        Inl e \<Rightarrow> Inl e
      | Inr _ \<Rightarrow> Inr (map_option command_from_row (find (\<lambda>r. cr_id r = i) (st_commands st))))"

definition latest_command_for_session ::
    "str \<Rightarrow> storage \<Rightarrow> storage_error + command_info option" where
  "latest_command_for_session session_id st =
     (case conn SqlLatestCommand st of
        Inl e \<Rightarrow> Inl e
      | Inr _ \<Rightarrow>
          (case order_desc cr_started_at
                  (filter (\<lambda>r. cr_session_id r = session_id) (st_commands st)) of
             [] \<Rightarrow> Inr None
           | r # _ \<Rightarrow> Inr (Some (command_from_row r))))"

text \<open>Whole seconds between two points in time, never negative.\<close>

definition seconds_between :: "time \<Rightarrow> time \<Rightarrow> nat" where
  "seconds_between later earlier = (later - earlier) div 1000000000"

definition summarize :: "time \<Rightarrow> command_info \<Rightarrow> command_summary" where
  "summarize now c =
     \<lparr>cs_id = ci_id c, cs_session_id = ci_session_id c,
      cs_command_preview = command_preview (ci_command c), cs_status = ci_status c,
      cs_exit_code = ci_exit_code c, cs_started_at = ci_started_at c,
      cs_finished_at = ci_finished_at c, cs_last_sequence = ci_last_sequence c,
      cs_output_bytes = ci_output_bytes c, cs_recording_truncated = ci_recording_truncated c,
      cs_running_for_seconds =
        (if ci_status c = C_Running then Some (seconds_between now (ci_started_at c)) else None),
      cs_seconds_since_last_output = None\<rparr>"

definition list_commands ::
    "time \<Rightarrow> str option \<Rightarrow> bool \<Rightarrow> nat \<Rightarrow> storage \<Rightarrow> storage_error + command_summary list" where
  "list_commands now session_id include_finished limit st =
     (case conn SqlCommands st of
        Inl e \<Rightarrow> Inl e
      | Inr _ \<Rightarrow>
          Inr (map (\<lambda>r. summarize now (command_from_row r))
            (take limit
              (order_desc cr_started_at
                (filter (\<lambda>r. (case session_id of None \<Rightarrow> True | Some s \<Rightarrow> cr_session_id r = s)
                           \<and> (include_finished \<or> cr_status r = ''running''))
                  (st_commands st))))))"

section \<open>Events\<close>

text \<open>
  \<open>append_event\<close> also returns the event, whose \<open>persisted\<close> flag it overwrites. Its statements run
  one after the other without a transaction: what ran before a failure stays.
\<close>

definition run_sql :: "sql_call \<Rightarrow> (storage \<Rightarrow> storage) \<Rightarrow> storage \<Rightarrow> (storage_error + unit) \<times> storage" where
  "run_sql q f st = (case conn q st of Inl er \<Rightarrow> (Inl er, st) | Inr _ \<Rightarrow> (Inr (), f st))"

definition then_sql :: "(storage_error + unit) \<times> storage \<Rightarrow> (storage \<Rightarrow> (storage_error + unit) \<times> storage)
    \<Rightarrow> (storage_error + unit) \<times> storage" where
  "then_sql p k = (case p of (Inl er, st) \<Rightarrow> (Inl er, st) | (Inr _, st) \<Rightarrow> k st)"

definition over_limit :: "storage \<Rightarrow> nat \<Rightarrow> terminal_event \<Rightarrow> bool" where
  "over_limit st recorded e \<longleftrightarrow>
     saturating_add recorded (length (te_payload e)) > st_recording_limit_bytes st"

definition mark_session :: "terminal_event \<Rightarrow> storage \<Rightarrow> storage" where
  "mark_session e st =
     st\<lparr>st_sessions := map (\<lambda>r. if sr_id r = te_session_id e
                              then r\<lparr>sr_recording_truncated := True\<rparr> else r) (st_sessions st)\<rparr>"

definition mark_command :: "terminal_event \<Rightarrow> storage \<Rightarrow> storage" where
  "mark_command e st =
     st\<lparr>st_commands := map (\<lambda>r. if te_command_id e = Some (cr_id r)
                              then r\<lparr>cr_recording_truncated := True\<rparr> else r) (st_commands st)\<rparr>"

definition mark_truncated :: "terminal_event \<Rightarrow> storage \<Rightarrow> (storage_error + unit) \<times> storage" where
  "mark_truncated e st =
     then_sql (run_sql SqlMarkSession (mark_session e) st)
       (\<lambda>st1. if te_command_id e = None then (Inr (), st1)
              else run_sql SqlMarkCommand (mark_command e) st1)"

definition add_event_row :: "terminal_event \<Rightarrow> storage \<Rightarrow> storage" where
  "add_event_row e st =
     st\<lparr>st_events := st_events st @
          [\<lparr>er_session_id = te_session_id e, er_command_id = te_command_id e,
            er_sequence = te_sequence e, er_timestamp = te_timestamp e,
            er_stream = stream_text (te_stream e), er_payload = te_payload e\<rparr>]\<rparr>"

definition insert_event :: "terminal_event \<Rightarrow> storage \<Rightarrow> (storage_error + unit) \<times> storage" where
  "insert_event e st =
     (case conn SqlInsertEvent st of
        Inl er \<Rightarrow> (Inl er, st)
      | Inr _ \<Rightarrow>
        (case to_sql_u64 (te_sequence e) of
           Inl er \<Rightarrow> (Inl er, st)
         | Inr _ \<Rightarrow>
           if \<exists>r \<in> set (st_events st). er_session_id r = te_session_id e \<and> er_sequence r = te_sequence e
           then (Inl (Database ''UNIQUE constraint failed: events.session_id, events.sequence''), st)
           else if (case te_command_id e of None \<Rightarrow> False
                    | Some c \<Rightarrow> \<not> (\<exists>r \<in> set (st_commands st). cr_id r = c))
           then (Inl (Database ''FOREIGN KEY constraint failed''), st)
           else (Inr (), add_event_row e st)))"

definition count_command :: "terminal_event \<Rightarrow> storage \<Rightarrow> storage" where
  "count_command e st =
     st\<lparr>st_commands := map (\<lambda>r. if te_command_id e = Some (cr_id r)
            then r\<lparr>cr_recorded_bytes := cr_recorded_bytes r + length (te_payload e),
                   cr_last_sequence := te_sequence e\<rparr> else r) (st_commands st)\<rparr>"

definition count_session :: "terminal_event \<Rightarrow> storage \<Rightarrow> storage" where
  "count_session e st =
     st\<lparr>st_sessions := map (\<lambda>r. if sr_id r = te_session_id e
            then r\<lparr>sr_recorded_bytes := sr_recorded_bytes r + length (te_payload e)\<rparr>
            else r) (st_sessions st)\<rparr>"

definition count_event :: "terminal_event \<Rightarrow> storage \<Rightarrow> (storage_error + unit) \<times> storage" where
  "count_event e st =
     then_sql (if te_command_id e = None then (Inr (), st)
               else run_sql SqlCountCommand (count_command e) st)
       (run_sql SqlCountSession (count_session e))"

definition append_event ::
    "terminal_event \<Rightarrow> storage \<Rightarrow> (storage_error + unit) \<times> terminal_event \<times> storage" where
  "append_event e st =
     (case conn SqlRecordedBytes st of
        Inl er \<Rightarrow> (Inl er, e, st)
      | Inr _ \<Rightarrow>
        (case find (\<lambda>r. sr_id r = te_session_id e) (st_sessions st) of
           None \<Rightarrow> (Inl (Database ''Query returned no rows''), e, st)
         | Some s \<Rightarrow>
           if over_limit st (sr_recorded_bytes s) e
           then (case mark_truncated e st of (r, st') \<Rightarrow> (r, e\<lparr>te_persisted := False\<rparr>, st'))
           else (case then_sql (insert_event e st) (count_event e) of
                   (r, st') \<Rightarrow> (r, e\<lparr>te_persisted := True\<rparr>, st'))))"

definition event_from_row :: "event_row \<Rightarrow> terminal_event" where
  "event_from_row r =
     \<lparr>te_session_id = er_session_id r, te_command_id = er_command_id r,
      te_sequence = er_sequence r, te_timestamp = er_timestamp r,
      te_stream = parse_enum stream_text (er_stream r) System,
      te_payload = er_payload r, te_persisted = True\<rparr>"

definition PAGE_EVENTS :: nat where
  "PAGE_EVENTS = 2048"

text \<open>The column the query filters on, and its test on a row.\<close>

datatype event_column = CommandColumn | SessionColumn

fun column_is :: "event_column \<Rightarrow> str \<Rightarrow> event_row \<Rightarrow> bool" where
  "column_is CommandColumn i r = (er_command_id r = Some i)"
| "column_is SessionColumn i r = (er_session_id r = i)"

fun page_loop :: "nat \<Rightarrow> terminal_event list \<Rightarrow> nat \<Rightarrow> terminal_event list
    \<Rightarrow> terminal_event list \<times> bool" where
  "page_loop max_bytes result sz [] = (result, False)"
| "page_loop max_bytes result sz (e # rows) =
     (if length result = PAGE_EVENTS
         \<or> (result \<noteq> [] \<and> sz + length (te_payload e) > max_bytes)
      then (result, True)
      else page_loop max_bytes (result @ [e]) (sz + length (te_payload e)) rows)"

definition stored_log :: "event_column \<Rightarrow> str \<Rightarrow> storage \<Rightarrow> terminal_event list" where
  "stored_log column i st =
     map event_from_row (sort_key er_sequence (filter (column_is column i) (st_events st)))"

definition events :: "event_column \<Rightarrow> str \<Rightarrow> nat \<Rightarrow> nat \<Rightarrow> storage
    \<Rightarrow> storage_error + (terminal_event list \<times> bool)" where
  "events column i after max_bytes st =
     (case conn SqlEvents st of
        Inl e \<Rightarrow> Inl e
      | Inr _ \<Rightarrow>
        (case to_sql_u64 after of
           Inl e \<Rightarrow> Inl e
         | Inr a \<Rightarrow>
             Inr (page_loop max_bytes [] 0
               (map event_from_row
                 (take (PAGE_EVENTS + 1)
                   (sort_key er_sequence
                     (filter (\<lambda>r. column_is column i r \<and> er_sequence r > a)
                       (st_events st))))))))"

definition events_for_command :: "str \<Rightarrow> nat \<Rightarrow> nat \<Rightarrow> storage
    \<Rightarrow> storage_error + (terminal_event list \<times> bool)" where
  "events_for_command = events CommandColumn"

definition events_for_session :: "str \<Rightarrow> nat \<Rightarrow> nat \<Rightarrow> storage
    \<Rightarrow> storage_error + (terminal_event list \<times> bool)" where
  "events_for_session = events SessionColumn"

text \<open>
  \<open>cleanup\<close>: deleting a session deletes its commands and its events, and the events of
  those commands (\<open>ON DELETE CASCADE\<close>).
\<close>

definition nanos_per_day :: nat where
  "nanos_per_day = 86400 * 1000000000"

definition expired :: "time \<Rightarrow> nat \<Rightarrow> session_row \<Rightarrow> bool" where
  "expired now retention_days r \<longleftrightarrow>
     int (sr_created_at r) < int now - int (retention_days * nanos_per_day)
   \<and> List.member terminal_session_texts (sr_status r)"

definition cleanup :: "time \<Rightarrow> nat \<Rightarrow> storage \<Rightarrow> (storage_error + nat) \<times> storage" where
  "cleanup now retention_days st =
     (case conn SqlCleanup st of
        Inl e \<Rightarrow> (Inl e, st)
      | Inr _ \<Rightarrow>
        (let gone = filter (expired now retention_days) (st_sessions st);
             gone_ids = map sr_id gone;
             gone_commands =
               map cr_id (filter (\<lambda>r. List.member gone_ids (cr_session_id r)) (st_commands st))
         in (Inr (length gone),
             st\<lparr>st_sessions := filter (\<lambda>r. \<not> expired now retention_days r) (st_sessions st),
                st_commands := filter (\<lambda>r. \<not> List.member gone_ids (cr_session_id r)) (st_commands st),
                st_events := filter (\<lambda>r. \<not> List.member gone_ids (er_session_id r)
                    \<and> (case er_command_id r of None \<Rightarrow> True
                       | Some c \<Rightarrow> \<not> List.member gone_commands c)) (st_events st)\<rparr>)))"

section \<open>The invariant\<close>

definition payload_bytes :: "event_row list \<Rightarrow> nat" where
  "payload_bytes rows = sum_list (map (\<lambda>r. length (er_payload r)) rows)"

definition session_bytes :: "str \<Rightarrow> event_row list \<Rightarrow> nat" where
  "session_bytes i rows = payload_bytes (filter (\<lambda>e. er_session_id e = i) rows)"

definition command_bytes :: "str \<Rightarrow> event_row list \<Rightarrow> nat" where
  "command_bytes i rows = payload_bytes (filter (\<lambda>e. er_command_id e = Some i) rows)"

definition st_keys :: "storage \<Rightarrow> bool" where
  "st_keys st \<longleftrightarrow>
     distinct (map sr_id (st_sessions st)) \<and> distinct (map cr_id (st_commands st))
   \<and> distinct (map (\<lambda>r. (er_session_id r, er_sequence r)) (st_events st))
   \<and> (\<forall>r \<in> set (st_events st). er_sequence r < i64_limit)"

definition st_refs :: "storage \<Rightarrow> bool" where
  "st_refs st \<longleftrightarrow>
     (\<forall>c \<in> set (st_commands st). cr_session_id c \<in> sr_id ` set (st_sessions st))
   \<and> (\<forall>e \<in> set (st_events st). er_session_id e \<in> sr_id ` set (st_sessions st)
        \<and> (\<forall>i. er_command_id e = Some i \<longrightarrow>
              (i, er_session_id e) \<in> (\<lambda>c. (cr_id c, cr_session_id c)) ` set (st_commands st)))"

definition st_accounts :: "storage \<Rightarrow> bool" where
  "st_accounts st \<longleftrightarrow>
     (\<forall>s \<in> set (st_sessions st).
        sr_recorded_bytes s \<le> session_bytes (sr_id s) (st_events st)
      \<and> sr_recorded_bytes s \<le> st_recording_limit_bytes st)
   \<and> (\<forall>c \<in> set (st_commands st).
        cr_recorded_bytes c \<le> command_bytes (cr_id c) (st_events st))
   \<and> st_recording_limit_bytes st < u64_mod - 1"

definition st_exact :: "storage \<Rightarrow> bool" where
  "st_exact st \<longleftrightarrow>
     (\<forall>s \<in> set (st_sessions st). sr_recorded_bytes s = session_bytes (sr_id s) (st_events st))
   \<and> (\<forall>c \<in> set (st_commands st). cr_recorded_bytes c = command_bytes (cr_id c) (st_events st))"

definition st_inv :: "storage \<Rightarrow> bool" where
  "st_inv st \<longleftrightarrow> st_keys st \<and> st_refs st \<and> st_accounts st"

lemmas st_inv_defs = st_inv_def st_keys_def st_refs_def st_accounts_def

lemma st_inv_fault [simp]: "st_inv (st\<lparr>st_fault := f\<rparr>) = st_inv st"
  by (simp add: st_inv_defs)

text \<open>Changing columns that no key, reference or account mentions keeps the invariant.\<close>

lemma st_inv_map_sessions:
  assumes "\<And>r. sr_id (f r) = sr_id r" "\<And>r. sr_recorded_bytes (f r) = sr_recorded_bytes r"
  shows "st_inv (st\<lparr>st_sessions := map f (st_sessions st)\<rparr>) \<longleftrightarrow> st_inv st"
    "st_exact (st\<lparr>st_sessions := map f (st_sessions st)\<rparr>) \<longleftrightarrow> st_exact st"
proof -
  have "sr_id \<circ> f = sr_id" using assms by auto
  then show "st_inv (st\<lparr>st_sessions := map f (st_sessions st)\<rparr>) \<longleftrightarrow> st_inv st"
    using assms by (simp add: st_inv_defs image_image)
qed (use assms in \<open>simp add: st_exact_def\<close>)

lemma st_inv_map_commands:
  assumes "\<And>r. cr_id (f r) = cr_id r" "\<And>r. cr_session_id (f r) = cr_session_id r"
    "\<And>r. cr_recorded_bytes (f r) = cr_recorded_bytes r"
  shows "st_inv (st\<lparr>st_commands := map f (st_commands st)\<rparr>) \<longleftrightarrow> st_inv st"
    "st_exact (st\<lparr>st_commands := map f (st_commands st)\<rparr>) \<longleftrightarrow> st_exact st"
proof -
  have "cr_id \<circ> f = cr_id" using assms by auto
  then show "st_inv (st\<lparr>st_commands := map f (st_commands st)\<rparr>) \<longleftrightarrow> st_inv st"
    using assms by (simp add: st_inv_defs image_image)
qed (use assms in \<open>simp add: st_exact_def\<close>)

lemma st_inv_open: "st_inv (open_storage [] [] [] mib)"
proof -
  have "(mib * 1024 * 1024) mod u64_mod = 1048576 * (mib mod 2 ^ 44)"
    using mult_mod_right[of 1048576 mib "2 ^ 44"] by (simp add: u64_mod_def mult.commute)
  also have "\<dots> < u64_mod - 1"
  proof -
    have "mib mod 2 ^ 44 \<le> 2 ^ 44 - 1" using mod_less_divisor[of "2 ^ 44" mib] by simp
    then have "1048576 * (mib mod 2 ^ 44) \<le> 1048576 * (2 ^ 44 - 1)" by (rule mult_le_mono2)
    also have "\<dots> < u64_mod - 1" by (simp add: u64_mod_def)
    finally show ?thesis .
  qed
  finally show ?thesis by (simp add: st_inv_defs open_storage_def)
qed

lemma st_exact_open: "st_exact (open_storage [] [] [] mib)"
  by (simp add: st_exact_def open_storage_def)

lemma st_inv_interrupt_unfinished:
  "st_inv st \<Longrightarrow> st_inv (snd (interrupt_unfinished now st))"
  "st_exact st \<Longrightarrow> st_exact (snd (interrupt_unfinished now st))"
  by (simp_all add: interrupt_unfinished_def st_inv_map_sessions split: sum.split)

lemma bytes_append [simp]:
  "payload_bytes [] = 0"
  "payload_bytes (xs @ ys) = payload_bytes xs + payload_bytes ys"
  "session_bytes i (xs @ [e]) =
     session_bytes i xs + (if er_session_id e = i then length (er_payload e) else 0)"
  "command_bytes i (xs @ [e]) =
     command_bytes i xs + (if er_command_id e = Some i then length (er_payload e) else 0)"
  by (simp_all add: payload_bytes_def session_bytes_def command_bytes_def)

lemma no_session_bytes: "(\<And>e. e \<in> set es \<Longrightarrow> er_session_id e \<noteq> i) \<Longrightarrow> session_bytes i es = 0"
  by (simp add: session_bytes_def filter_empty_conv[THEN iffD2])

lemma no_command_bytes: "(\<And>e. e \<in> set es \<Longrightarrow> er_command_id e \<noteq> Some i) \<Longrightarrow> command_bytes i es = 0"
  by (simp add: command_bytes_def filter_empty_conv[THEN iffD2])

text \<open>Adding a row with a fresh key and existing references.\<close>

lemma st_inv_add_session:
  assumes "st_inv st" "sr_id r \<notin> sr_id ` set (st_sessions st)" "sr_recorded_bytes r = 0"
  shows "st_inv (st\<lparr>st_sessions := st_sessions st @ [r]\<rparr>)"
    "st_exact st \<Longrightarrow> st_exact (st\<lparr>st_sessions := st_sessions st @ [r]\<rparr>)"
proof -
  have none: "session_bytes (sr_id r) (st_events st) = 0"
    using assms by (intro no_session_bytes) (metis st_inv_def st_refs_def)
  show "st_inv (st\<lparr>st_sessions := st_sessions st @ [r]\<rparr>)" using assms by (auto simp: st_inv_defs)
  show "st_exact st \<Longrightarrow> st_exact (st\<lparr>st_sessions := st_sessions st @ [r]\<rparr>)"
    using none assms(3) by (auto simp: st_exact_def)
qed

lemma st_inv_add_command:
  assumes "st_inv st" "cr_id r \<notin> cr_id ` set (st_commands st)"
    "cr_session_id r \<in> sr_id ` set (st_sessions st)" "cr_recorded_bytes r = 0"
  shows "st_inv (st\<lparr>st_commands := st_commands st @ [r]\<rparr>)"
    "st_exact st \<Longrightarrow> st_exact (st\<lparr>st_commands := st_commands st @ [r]\<rparr>)"
proof -
  have none: "command_bytes (cr_id r) (st_events st) = 0"
    using assms by (intro no_command_bytes) (fastforce simp: st_inv_defs)
  show "st_inv (st\<lparr>st_commands := st_commands st @ [r]\<rparr>)" using assms by (auto simp: st_inv_defs)
  show "st_exact st \<Longrightarrow> st_exact (st\<lparr>st_commands := st_commands st @ [r]\<rparr>)"
    using none assms(4) by (auto simp: st_exact_def)
qed

lemma st_inv_upsert_session:
  "st_inv st \<Longrightarrow> st_inv (snd (upsert_session s st))"
  "st_inv st \<Longrightarrow> st_exact st \<Longrightarrow> st_exact (snd (upsert_session s st))"
  by (auto simp: upsert_session_def st_inv_map_sessions update_session_row_def row_of_session_def
      image_iff split: sum.split intro!: st_inv_add_session)

lemma insert_command_cases:
  obtains (failed) er where "insert_command c st = (Inl er, st)"
  | (inserted) r where "insert_command c st = (Inr (), st\<lparr>st_commands := st_commands st @ [r]\<rparr>)"
      "command_from_row r = c" "cr_id r = ci_id c" "cr_session_id r = ci_session_id c"
      "cr_recorded_bytes r = ci_output_bytes c" "ci_id c \<notin> cr_id ` set (st_commands st)"
      "ci_session_id c \<in> sr_id ` set (st_sessions st)"
proof (cases "\<exists>er. insert_command c st = (Inl er, st)")
  case True
  then show ?thesis using failed by blast
next
  case False
  define r where "r = \<lparr>cr_id = ci_id c, cr_session_id = ci_session_id c, cr_command = ci_command c,
      cr_status = command_status_text (ci_status c), cr_exit_code = ci_exit_code c,
      cr_started_at = ci_started_at c, cr_finished_at = ci_finished_at c,
      cr_last_sequence = ci_last_sequence c,
      cr_recording_truncated = ci_recording_truncated c, cr_recorded_bytes = ci_output_bytes c\<rparr>"
  from False have "insert_command c st = (Inr (), st\<lparr>st_commands := st_commands st @ [r]\<rparr>)"
    and "\<not> (\<exists>q \<in> set (st_commands st). cr_id q = ci_id c)"
    and "\<exists>q \<in> set (st_sessions st). sr_id q = ci_session_id c"
    by (auto simp: insert_command_def to_sql_u64_def r_def split: sum.splits if_splits)
  moreover from this have "ci_id c \<notin> cr_id ` set (st_commands st)"
    and "ci_session_id c \<in> sr_id ` set (st_sessions st)" by (auto, metis image_eqI)
  ultimately have "insert_command c st = (Inr (), st\<lparr>st_commands := st_commands st @ [r]\<rparr>)"
    and "ci_id c \<notin> cr_id ` set (st_commands st)"
    and "ci_session_id c \<in> sr_id ` set (st_sessions st)" by blast+
  then show ?thesis
    using inserted[of r] by (simp add: r_def command_from_row_def)
qed

lemma st_inv_insert_command:
  assumes "st_inv st" "ci_output_bytes c = 0"
  shows "st_inv (snd (insert_command c st))"
    "st_exact st \<Longrightarrow> st_exact (snd (insert_command c st))"
  by (cases rule: insert_command_cases[of c st]; use assms in \<open>simp_all add: st_inv_add_command\<close>)+

lemma st_inv_update_command:
  "st_inv st \<Longrightarrow> st_inv (snd (update_command c st))"
  "st_exact st \<Longrightarrow> st_exact (snd (update_command c st))"
  by (simp_all add: update_command_def st_inv_map_commands update_command_row_def split: sum.split)

text \<open>Rows are determined by their keys, and an event's command is a row of its session.\<close>

lemma session_row_unique:
  "st_inv st \<Longrightarrow> r \<in> set (st_sessions st) \<Longrightarrow> q \<in> set (st_sessions st) \<Longrightarrow>
    sr_id r = sr_id q \<Longrightarrow> r = q"
  by (auto simp: st_inv_defs distinct_map inj_on_def)

lemma command_row_unique:
  "st_inv st \<Longrightarrow> r \<in> set (st_commands st) \<Longrightarrow> q \<in> set (st_commands st) \<Longrightarrow>
    cr_id r = cr_id q \<Longrightarrow> r = q"
  by (auto simp: st_inv_defs distinct_map inj_on_def)

lemma event_command_row:
  assumes "st_inv st" "e \<in> set (st_events st)" "c \<in> set (st_commands st)"
    and "er_command_id e = Some (cr_id c)"
  shows "cr_session_id c = er_session_id e"
proof -
  from assms obtain d where "d \<in> set (st_commands st)" "cr_id d = cr_id c"
    "cr_session_id d = er_session_id e"
    by (fastforce simp: st_inv_defs)
  with command_row_unique[OF assms(1)] assms(3) show ?thesis by metis
qed

lemma event_command_exists:
  "st_inv st \<Longrightarrow> e \<in> set (st_events st) \<Longrightarrow> er_command_id e = Some i \<Longrightarrow>
    \<exists>c \<in> set (st_commands st). cr_id c = i \<and> cr_session_id c = er_session_id e"
  by (fastforce simp: st_inv_defs)

definition gone_ids :: "time \<Rightarrow> nat \<Rightarrow> storage \<Rightarrow> str set" where
  "gone_ids now days st = sr_id ` {r \<in> set (st_sessions st). expired now days r}"

lemma gone_ids_expired:
  "st_inv st \<Longrightarrow> r \<in> set (st_sessions st) \<Longrightarrow> sr_id r \<in> gone_ids now days st \<longleftrightarrow> expired now days r"
  using session_row_unique by (fastforce simp: gone_ids_def)

text \<open>With the invariant, the cascade over commands removes no event of another session.\<close>

lemma cleanup_shape:
  assumes inv: "st_inv st" and "st_fault st SqlCleanup = None"
  shows "snd (cleanup now days st) =
    st\<lparr>st_sessions := filter (\<lambda>r. sr_id r \<notin> gone_ids now days st) (st_sessions st),
       st_commands := filter (\<lambda>r. cr_session_id r \<notin> gone_ids now days st) (st_commands st),
       st_events := filter (\<lambda>r. er_session_id r \<notin> gone_ids now days st) (st_events st)\<rparr>"
proof -
  let ?gone = "gone_ids now days st"
  let ?gone_commands = "{c \<in> set (st_commands st). cr_session_id c \<in> ?gone}"
  have events: "e \<in> set (st_events st) \<Longrightarrow>
      (case er_command_id e of None \<Rightarrow> True | Some i \<Rightarrow> i \<notin> cr_id ` ?gone_commands)
      \<or> er_session_id e \<in> ?gone" for e
    using event_command_row[OF inv] by (fastforce split: option.split)
  have ids: "set (map sr_id (filter (expired now days) (st_sessions st))) = ?gone"
    by (auto simp: gone_ids_def)
  have 1: "filter (\<lambda>r. \<not> expired now days r) (st_sessions st) =
      filter (\<lambda>r. sr_id r \<notin> ?gone) (st_sessions st)"
    by (rule filter_cong) (auto simp: gone_ids_expired[OF inv])
  have 2: "filter (\<lambda>r. er_session_id r \<notin> ?gone \<and>
      (case er_command_id r of None \<Rightarrow> True | Some i \<Rightarrow> i \<notin> cr_id ` ?gone_commands)) (st_events st) =
      filter (\<lambda>r. er_session_id r \<notin> ?gone) (st_events st)"
    using events by (intro filter_cong) auto
  have members: "List.member (map sr_id (filter (expired now days) (st_sessions st))) x \<longleftrightarrow> x \<in> ?gone" for x
    using ids by simp
  have commands: "List.member (map cr_id (filter (\<lambda>r. cr_session_id r \<in> ?gone) (st_commands st))) i
      \<longleftrightarrow> i \<in> cr_id ` ?gone_commands" for i
    by auto
  show ?thesis
    using assms(2) unfolding cleanup_def conn_def Let_def members commands
    by (simp add: 1 2)
qed

lemma payload_bytes_kept:
  "(\<And>e. e \<in> set es \<Longrightarrow> P e \<Longrightarrow> Q e) \<Longrightarrow>
    payload_bytes (filter P (filter Q es)) = payload_bytes (filter P es)"
  by (simp add: filter_filter) (metis (mono_tags, lifting) filter_cong)

lemma st_inv_cleanup:
  assumes inv: "st_inv st"
  shows "st_inv (snd (cleanup now days st)) \<and> (st_exact st \<longrightarrow> st_exact (snd (cleanup now days st)))"
proof (cases "st_fault st SqlCleanup")
  case None
  let ?gone = "gone_ids now days st"
  let ?kept = "filter (\<lambda>r. er_session_id r \<notin> ?gone) (st_events st)"
  note shape = cleanup_shape[OF inv None, of now days]
  have "st_keys (snd (cleanup now days st))"
    using inv by (auto simp: shape st_inv_def st_keys_def distinct_map_filter)
  moreover have "st_refs (snd (cleanup now days st))"
    using inv event_command_exists[OF inv] by (fastforce simp: shape st_inv_def st_refs_def)
  moreover have "st_accounts (snd (cleanup now days st)) \<and> (st_exact st \<longrightarrow> st_exact (snd (cleanup now days st)))"
  proof -
    have "session_bytes i ?kept = session_bytes i (st_events st)" if "i \<notin> ?gone" for i
      using that unfolding session_bytes_def by (intro payload_bytes_kept) auto
    moreover have "command_bytes (cr_id c) ?kept = command_bytes (cr_id c) (st_events st)"
      if "c \<in> set (st_commands st)" "cr_session_id c \<notin> ?gone" for c
      using that event_command_row[OF inv] unfolding command_bytes_def
      by (intro payload_bytes_kept) metis
    ultimately show ?thesis
      using inv by (auto simp: shape st_inv_def st_accounts_def st_exact_def)
  qed
  ultimately show ?thesis by (simp add: st_inv_def)
qed (use inv in \<open>simp add: cleanup_def conn_def\<close>)

text \<open>
  An event may be appended when its command, if any, is a command of its session; this is
  how the session layer calls \<open>append_event\<close>.
\<close>

definition event_command_ok :: "terminal_event \<Rightarrow> storage \<Rightarrow> bool" where
  "event_command_ok e st \<longleftrightarrow>
     (\<forall>c \<in> set (st_commands st). te_command_id e = Some (cr_id c) \<longrightarrow>
        cr_session_id c = te_session_id e)"

text \<open>
  What is left of an append that stops between two statements: the flags say which of the marks
  and of the counts were made.
\<close>

definition marked_as :: "bool \<Rightarrow> bool \<Rightarrow> terminal_event \<Rightarrow> storage \<Rightarrow> storage" where
  "marked_as a b e st = (if b then mark_command e else id) ((if a then mark_session e else id) st)"

definition stored_as :: "bool \<Rightarrow> bool \<Rightarrow> terminal_event \<Rightarrow> storage \<Rightarrow> storage" where
  "stored_as a b e st = (if b then count_session e else id) ((if a then count_command e else id) (add_event_row e st))"

lemmas partial_defs = marked_as_def stored_as_def mark_session_def mark_command_def add_event_row_def
  count_command_def count_session_def

lemma mark_command_none: "te_command_id e = None \<Longrightarrow> mark_command e st = st"
  by (simp add: mark_command_def)

lemma count_command_none: "te_command_id e = None \<Longrightarrow> count_command e st = st"
  by (simp add: count_command_def)

lemma partial_fault [simp]:
  "st_fault (marked_as a b e st) = st_fault st" "st_fault (stored_as a b e st) = st_fault st"
  "healthy (marked_as a b e st) = healthy st" "healthy (stored_as a b e st) = healthy st"
  by (simp_all add: partial_defs healthy_def)

lemma mark_truncated_cases:
  obtains r a b where "mark_truncated e st = (r, marked_as a b e st)" "healthy st \<Longrightarrow> r = Inr () \<and> a \<and> b"
proof -
  let ?a = "st_fault st SqlMarkSession = None" and ?b = "st_fault st SqlMarkSession = None \<and> st_fault st SqlMarkCommand = None"
  have "mark_truncated e st = (fst (mark_truncated e st), marked_as ?a ?b e st)"
    "healthy st \<Longrightarrow> fst (mark_truncated e st) = Inr ()"
    using mark_command_none[of e]
    by (auto simp: mark_truncated_def then_sql_def run_sql_def conn_def marked_as_def mark_session_def split: option.split)
  then show ?thesis using that[of "fst (mark_truncated e st)" ?a ?b] by simp
qed

lemma count_event_cases:
  obtains r a b where "count_event e (add_event_row e st) = (r, stored_as a b e st)" "healthy st \<Longrightarrow> r = Inr () \<and> a \<and> b"
proof -
  let ?a = "st_fault st SqlCountCommand = None"
  let ?b = "(te_command_id e = None \<or> ?a) \<and> st_fault st SqlCountSession = None"
  let ?p = "count_event e (add_event_row e st)"
  have fault: "st_fault (add_event_row e st) = st_fault st" "st_fault (count_command e st') = st_fault st'" for st'
    by (simp_all add: add_event_row_def count_command_def)
  have "?p = (fst ?p, stored_as ?a ?b e st)" "healthy st \<Longrightarrow> fst ?p = Inr ()"
    using count_command_none[of e]
    by (auto simp: count_event_def then_sql_def run_sql_def conn_def stored_as_def fault split: option.split)
  then show ?thesis using that[of "fst ?p" ?a ?b] by simp
qed

lemma insert_event_cases:
  obtains (refused) er where "insert_event e st = (Inl er, st)"
  | (inserted) "insert_event e st = (Inr (), add_event_row e st)" "te_sequence e < i64_limit"
      "(te_session_id e, te_sequence e) \<notin> (\<lambda>r. (er_session_id r, er_sequence r)) ` set (st_events st)"
      "\<And>i. te_command_id e = Some i \<Longrightarrow> i \<in> cr_id ` set (st_commands st)"
proof (cases "\<exists>er. insert_event e st = (Inl er, st)")
  case True
  then show ?thesis using refused by blast
next
  case False
  then have "insert_event e st = (Inr (), add_event_row e st)" "te_sequence e < i64_limit"
    and fresh: "\<not> (\<exists>r \<in> set (st_events st). er_session_id r = te_session_id e \<and> er_sequence r = te_sequence e)"
    and cmd: "\<not> (case te_command_id e of None \<Rightarrow> False | Some c \<Rightarrow> \<not> (\<exists>r \<in> set (st_commands st). cr_id r = c))"
    by (auto simp: insert_event_def to_sql_u64_def split: sum.splits if_splits)
  moreover have "\<And>i. te_command_id e = Some i \<Longrightarrow> i \<in> cr_id ` set (st_commands st)" using cmd by auto
  moreover have "(te_session_id e, te_sequence e) \<notin> (\<lambda>r. (er_session_id r, er_sequence r)) ` set (st_events st)"
    using fresh by auto
  ultimately show ?thesis using inserted by blast
qed

lemma append_event_cases:
  obtains (failed) er e' where "append_event e st = (Inl er, e', st)" "e' = e \<or> e' = e\<lparr>te_persisted := True\<rparr>"
  | (over) s r a b where "append_event e st = (r, e\<lparr>te_persisted := False\<rparr>, marked_as a b e st)"
      "s \<in> set (st_sessions st)" "sr_id s = te_session_id e" "over_limit st (sr_recorded_bytes s) e"
      "healthy st \<Longrightarrow> r = Inr () \<and> a \<and> b"
  | (stored) s r a b where "append_event e st = (r, e\<lparr>te_persisted := True\<rparr>, stored_as a b e st)"
      "s \<in> set (st_sessions st)" "sr_id s = te_session_id e"
      "\<not> over_limit st (sr_recorded_bytes s) e" "te_sequence e < i64_limit"
      "(te_session_id e, te_sequence e) \<notin> (\<lambda>r. (er_session_id r, er_sequence r)) ` set (st_events st)"
      "\<And>i. te_command_id e = Some i \<Longrightarrow> i \<in> cr_id ` set (st_commands st)"
      "healthy st \<Longrightarrow> r = Inr () \<and> a \<and> b"
proof (cases "conn SqlRecordedBytes st = Inr () \<and> (\<exists>s. find (\<lambda>r. sr_id r = te_session_id e) (st_sessions st) = Some s)")
  case False
  then have "\<exists>er. append_event e st = (Inl er, e, st)"
    by (auto simp: append_event_def split: sum.split option.split)
  then show ?thesis using failed by blast
next
  case True
  then obtain s where s: "conn SqlRecordedBytes st = Inr ()"
      "find (\<lambda>r. sr_id r = te_session_id e) (st_sessions st) = Some s" by blast
  then have row: "s \<in> set (st_sessions st)" "sr_id s = te_session_id e"
    by (auto simp: find_Some_iff)
  show ?thesis
  proof (cases "over_limit st (sr_recorded_bytes s) e")
    case True
    then show ?thesis
      using s row over[of _ _ _ s] by (cases rule: mark_truncated_cases[of e st]) (simp add: append_event_def)
  next
    case not_over: False
    show ?thesis
    proof (cases rule: insert_event_cases[of e st])
      case (refused er)
      then show ?thesis using failed s not_over by (simp add: append_event_def then_sql_def)
    next
      case inserted
      then show ?thesis
        using stored[of _ _ _ s] row not_over s
        by (cases rule: count_event_cases[of e st]) (simp add: append_event_def then_sql_def)
    qed
  qed
qed

lemma st_inv_marked: "st_inv st \<Longrightarrow> st_inv (marked_as a b e st)" "st_exact st \<Longrightarrow> st_exact (marked_as a b e st)"
proof -
  have "st_inv (mark_session e st) = st_inv st" "st_exact (mark_session e st) = st_exact st"
    "st_inv (mark_command e st) = st_inv st" "st_exact (mark_command e st) = st_exact st" for st
    unfolding mark_session_def mark_command_def by (rule st_inv_map_sessions st_inv_map_commands; simp)+
  then show "st_inv st \<Longrightarrow> st_inv (marked_as a b e st)" "st_exact st \<Longrightarrow> st_exact (marked_as a b e st)"
    by (simp_all add: marked_as_def)
qed

lemma stored_as_ids:
  "map sr_id (st_sessions (stored_as a b e st)) = map sr_id (st_sessions st)"
  "map (\<lambda>c. (cr_id c, cr_session_id c)) (st_commands (stored_as a b e st))
     = map (\<lambda>c. (cr_id c, cr_session_id c)) (st_commands st)"
  "map cr_id (st_commands (stored_as a b e st)) = map cr_id (st_commands st)"
  by (simp_all add: partial_defs)

lemma st_inv_stored:
  assumes inv: "st_inv st" and ok: "event_command_ok e st"
    and s: "s \<in> set (st_sessions st)" "sr_id s = te_session_id e"
    and fits: "\<not> over_limit st (sr_recorded_bytes s) e"
    and seq: "te_sequence e < i64_limit"
      "(te_session_id e, te_sequence e) \<notin> (\<lambda>r. (er_session_id r, er_sequence r)) ` set (st_events st)"
    and cmd: "\<And>i. te_command_id e = Some i \<Longrightarrow> i \<in> cr_id ` set (st_commands st)"
  shows "st_inv (stored_as a b e st)" "st_exact st \<Longrightarrow> a \<Longrightarrow> b \<Longrightarrow> st_exact (stored_as a b e st)"
proof -
  let ?st = "stored_as a b e st"
  have sets: "sr_id ` set (st_sessions ?st) = sr_id ` set (st_sessions st)"
    "(\<lambda>c. (cr_id c, cr_session_id c)) ` set (st_commands ?st)
      = (\<lambda>c. (cr_id c, cr_session_id c)) ` set (st_commands st)"
    using arg_cong[OF stored_as_ids(1), of set a b e st] arg_cong[OF stored_as_ids(2), of set a b e st]
    by (simp_all only: set_map)
  have "st_keys ?st"
    using inv seq unfolding st_keys_def stored_as_ids by (auto simp: partial_defs st_inv_def st_keys_def)
  moreover have "st_refs ?st"
  proof -
    have "(i, te_session_id e) \<in> (\<lambda>c. (cr_id c, cr_session_id c)) ` set (st_commands st)"
      if "te_command_id e = Some i" for i
      using cmd[OF that] ok that by (auto simp: event_command_ok_def image_iff)
    moreover have "te_session_id e \<in> sr_id ` set (st_sessions st)" using s by force
    ultimately show ?thesis
      using inv unfolding st_refs_def sets
      by (auto simp: partial_defs st_inv_def st_refs_def)
  qed
  moreover have "st_accounts ?st"
  proof -
    have "sr_recorded_bytes s + length (te_payload e) \<le> st_recording_limit_bytes st"
      using fits inv saturating_add_le_iff[of "st_recording_limit_bytes st"]
      unfolding over_limit_def st_inv_def st_accounts_def not_less by blast
    then have room: "sr_recorded_bytes r + length (te_payload e) \<le> st_recording_limit_bytes st"
      if "r \<in> set (st_sessions st)" "sr_id r = te_session_id e" for r
      using session_row_unique[OF inv that(1) s(1)] that s by simp
    let ?f = "\<lambda>r. if b \<and> sr_id r = te_session_id e
        then r\<lparr>sr_recorded_bytes := sr_recorded_bytes r + length (te_payload e)\<rparr> else r"
    let ?g = "\<lambda>r. if a \<and> te_command_id e = Some (cr_id r)
        then r\<lparr>cr_recorded_bytes := cr_recorded_bytes r + length (te_payload e), cr_last_sequence := te_sequence e\<rparr>
        else r"
    have rows: "st_sessions ?st = map ?f (st_sessions st)" "st_commands ?st = map ?g (st_commands st)"
      by (simp_all add: partial_defs)
    have bytes: "session_bytes i (st_events ?st) = session_bytes i (st_events st)
          + (if te_session_id e = i then length (te_payload e) else 0)"
        "command_bytes i (st_events ?st) = command_bytes i (st_events st)
          + (if te_command_id e = Some i then length (te_payload e) else 0)" for i
      by (simp_all add: partial_defs)
    have old: "r \<in> set (st_sessions st) \<Longrightarrow> sr_recorded_bytes r \<le> session_bytes (sr_id r) (st_events st)
        \<and> sr_recorded_bytes r \<le> st_recording_limit_bytes st"
      "c \<in> set (st_commands st) \<Longrightarrow> cr_recorded_bytes c \<le> command_bytes (cr_id c) (st_events st)" for r c
      using inv by (simp_all add: st_inv_def st_accounts_def)
    have "sr_recorded_bytes (?f r) \<le> session_bytes (sr_id (?f r)) (st_events ?st)
        \<and> sr_recorded_bytes (?f r) \<le> st_recording_limit_bytes st" if "r \<in> set (st_sessions st)" for r
      using old(1)[OF that] room[OF that] by (auto simp: bytes trans_le_add1)
    then have "\<forall>r \<in> set (st_sessions ?st). sr_recorded_bytes r \<le> session_bytes (sr_id r) (st_events ?st)
        \<and> sr_recorded_bytes r \<le> st_recording_limit_bytes st"
      unfolding rows(1) set_map by blast
    moreover have "cr_recorded_bytes (?g c) \<le> command_bytes (cr_id (?g c)) (st_events ?st)"
      if "c \<in> set (st_commands st)" for c
      using old(2)[OF that] by (simp add: bytes trans_le_add1)
    then have "\<forall>c \<in> set (st_commands ?st). cr_recorded_bytes c \<le> command_bytes (cr_id c) (st_events ?st)"
      unfolding rows(2) set_map by blast
    moreover have "st_recording_limit_bytes ?st = st_recording_limit_bytes st"
      by (simp add: partial_defs)
    ultimately show ?thesis
      using inv unfolding st_inv_def st_accounts_def by metis
  qed
  ultimately show "st_inv ?st" by (simp add: st_inv_def)
  show "st_exact st \<Longrightarrow> a \<Longrightarrow> b \<Longrightarrow> st_exact ?st"
    by (auto simp: partial_defs st_exact_def)
qed

lemma st_inv_append_event:
  assumes "st_inv st" and "event_command_ok e st"
  shows "st_inv (snd (snd (append_event e st)))"
    "healthy st \<Longrightarrow> st_exact st \<Longrightarrow> st_exact (snd (snd (append_event e st)))"
  by (cases rule: append_event_cases[of e st]; use assms in \<open>auto simp: st_inv_marked st_inv_stored\<close>)+

text \<open>No method changes what the engine refuses.\<close>

lemma same_fault [simp]:
  "st_fault (snd (interrupt_unfinished now st)) = st_fault st"
  "st_fault (snd (upsert_session s st)) = st_fault st"
  "st_fault (snd (insert_command c st)) = st_fault st"
  "st_fault (snd (update_command c st)) = st_fault st"
  "st_fault (snd (snd (append_event e st))) = st_fault st"
  "st_fault (snd (cleanup now days st)) = st_fault st"
proof -
  show "st_fault (snd (insert_command c st)) = st_fault st" by (cases rule: insert_command_cases[of c st]) simp_all
  show "st_fault (snd (snd (append_event e st))) = st_fault st" by (cases rule: append_event_cases[of e st]) simp_all
qed (simp_all add: interrupt_unfinished_def upsert_session_def update_command_def cleanup_def Let_def split: sum.split)

lemma same_health [simp]:
  "healthy (snd (interrupt_unfinished now st)) = healthy st"
  "healthy (snd (upsert_session s st)) = healthy st"
  "healthy (snd (insert_command c st)) = healthy st"
  "healthy (snd (update_command c st)) = healthy st"
  "healthy (snd (snd (append_event e st))) = healthy st"
  "healthy (snd (cleanup now days st)) = healthy st"
  by (simp_all add: healthy_def)

section \<open>Pages of events\<close>

lemma page_loop_prefix:
  assumes "page_loop m res sz rows = (out, held)" "length res \<le> PAGE_EVENTS"
  shows "\<exists>es rest. out = res @ es \<and> rows = es @ rest \<and> (held \<longleftrightarrow> rest \<noteq> [])
    \<and> length out \<le> PAGE_EVENTS"
  using assms
proof (induction m res sz rows rule: page_loop.induct)
  case (2 m res sz e rows)
  show ?case
  proof (cases "length res = PAGE_EVENTS \<or> (res \<noteq> [] \<and> sz + length (te_payload e) > m)")
    case True
    then show ?thesis using "2.prems" by (intro exI[of _ "[]"] exI[of _ "e # rows"]) auto
  next
    case False
    then have "page_loop m (res @ [e]) (sz + length (te_payload e)) rows = (out, held)"
      and "length (res @ [e]) \<le> PAGE_EVENTS"
      using "2.prems" by auto
    from "2.IH"[OF False this] obtain es rest where
      "out = (res @ [e]) @ es \<and> rows = es @ rest \<and> (held \<longleftrightarrow> rest \<noteq> []) \<and> length out \<le> PAGE_EVENTS"
      by blast
    then have "out = res @ (e # es) \<and> e # rows = (e # es) @ rest \<and> (held \<longleftrightarrow> rest \<noteq> [])
      \<and> length out \<le> PAGE_EVENTS" by auto
    then show ?thesis by blast
  qed
qed auto

lemma page_loop_nonempty:
  assumes "rows \<noteq> []"
  shows "fst (page_loop m [] 0 rows) \<noteq> []"
proof -
  obtain e rest where rows: "rows = e # rest" using assms by (cases rows) auto
  obtain out held where loop: "page_loop m [e] (length (te_payload e)) rest = (out, held)" by fastforce
  have "page_loop m [] 0 rows = (out, held)" using loop by (simp add: rows PAGE_EVENTS_def)
  moreover have "out \<noteq> []"
    using page_loop_prefix[OF loop] by (auto simp: PAGE_EVENTS_def)
  ultimately show ?thesis by simp
qed

lemma page_loop_bytes:
  assumes "page_loop m res sz rows = (out, held)" "sz = sum_list (map (length \<circ> te_payload) res)"
    and "sz \<le> m \<or> length res \<le> 1"
  shows "sum_list (map (length \<circ> te_payload) out) \<le> m \<or> length out \<le> 1"
  using assms
proof (induction m res sz rows rule: page_loop.induct)
  case (2 m res sz e rows)
  show ?case
  proof (cases "length res = PAGE_EVENTS \<or> (res \<noteq> [] \<and> sz + length (te_payload e) > m)")
    case False
    with 2 show ?thesis by (intro "2.IH"[OF False]) auto
  qed (use 2 in auto)
qed auto

text \<open>The query's rows are the part of the stored log after the cursor.\<close>

lemma te_sequence_from_row [simp]: "te_sequence (event_from_row r) = er_sequence r"
  by (simp add: event_from_row_def)

lemma pending_rows:
  "filter (\<lambda>e. after < te_sequence e) (stored_log column i st) =
   map event_from_row (sort_key er_sequence
     (filter (\<lambda>r. column_is column i r \<and> er_sequence r > after) (st_events st)))"
  by (simp add: stored_log_def filter_map o_def filter_sort conj_commute)

lemma events_eq:
  assumes "st_fault st SqlEvents = None" "after < i64_limit"
  shows "events column i after m st = Inr (page_loop m [] 0 (take (PAGE_EVENTS + 1)
    (filter (\<lambda>e. after < te_sequence e) (stored_log column i st))))"
  using assms unfolding events_def conn_def to_sql_u64_def pending_rows by (simp add: take_map)

lemma events_page:
  assumes "st_fault st SqlEvents = None" "after < i64_limit"
    and page: "events column i after m st = Inr (es, held)"
  obtains rest where
    "filter (\<lambda>e. after < te_sequence e) (stored_log column i st) = es @ rest"
    "held \<longleftrightarrow> rest \<noteq> []" "length es \<le> PAGE_EVENTS"
    "es = [] \<Longrightarrow> rest = []"
    "sum_list (map (length \<circ> te_payload) es) \<le> m \<or> length es \<le> 1"
proof -
  let ?xs = "filter (\<lambda>e. after < te_sequence e) (stored_log column i st)"
  let ?rows = "take (PAGE_EVENTS + 1) ?xs"
  have loop: "page_loop m [] 0 ?rows = (es, held)"
    using events_eq[OF assms(1,2), of column i m] page by simp
  obtain rest where rest: "?rows = es @ rest" "held \<longleftrightarrow> rest \<noteq> []" "length es \<le> PAGE_EVENTS"
    using page_loop_prefix[OF loop] by auto
  let ?all = "rest @ drop (PAGE_EVENTS + 1) ?xs"
  have "?xs = es @ ?all" using rest(1) append_take_drop_id[of "PAGE_EVENTS + 1" ?xs] by simp
  moreover have "held \<longleftrightarrow> ?all \<noteq> []"
  proof (cases "rest = []")
    case True
    then have "length ?rows \<le> PAGE_EVENTS" using rest by simp
    then have "length ?xs \<le> PAGE_EVENTS" by simp
    then show ?thesis using rest True by simp
  qed (use rest in simp)
  moreover have "?all = []" if "es = []"
  proof -
    have "?rows = []" using page_loop_nonempty[of ?rows m] loop that by fastforce
    then show ?thesis using rest(1) by simp
  qed
  moreover have "sum_list (map (length \<circ> te_payload) es) \<le> m \<or> length es \<le> 1"
    by (rule page_loop_bytes[OF loop]) auto
  ultimately show ?thesis using that[of ?all] rest(3) by blast
qed

lemma stored_log_ascending:
  assumes inv: "st_inv st"
  shows "sorted_wrt (<) (map te_sequence (stored_log column i st))"
proof -
  let ?rows = "filter (column_is column i) (st_events st)"
  have same: "er_session_id r = er_session_id q" if "r \<in> set ?rows" "q \<in> set ?rows" for r q
  proof (cases column)
    case CommandColumn
    then show ?thesis
      using that event_command_exists[OF inv, of r i] event_command_row[OF inv, of q]
      by auto
  qed (use that in simp)
  have "inj_on (\<lambda>r. (er_session_id r, er_sequence r)) (set ?rows)" "distinct ?rows"
    using inv by (auto simp: st_inv_def st_keys_def distinct_map intro: inj_on_subset)
  then have "distinct (map er_sequence ?rows)"
    using same unfolding distinct_map inj_on_def by (metis (no_types, lifting))
  then have "sorted_wrt (<) (map er_sequence (sort_key er_sequence ?rows))"
    unfolding strict_sorted_iff by (simp add: distinct_map)
  then show ?thesis by (simp add: stored_log_def o_def)
qed

text \<open>
  The store as a page reader: its state is the database with the column, the identifier and
  the byte bound of the query.
\<close>

type_synonym event_query = "storage \<times> event_column \<times> str \<times> nat"

definition query_log :: "event_query \<Rightarrow> terminal_event list" where
  "query_log q = (case q of (st, column, i, m) \<Rightarrow> stored_log column i st)"

definition query_page :: "event_query \<Rightarrow> nat \<Rightarrow> terminal_event list \<times> bool" where
  "query_page q after = (case q of (st, column, i, m) \<Rightarrow>
     (case events column i after m st of Inl _ \<Rightarrow> ([], False) | Inr p \<Rightarrow> p))"

lemma query_page_prefix:
  assumes "st_fault st SqlEvents = None" "after < i64_limit"
    and "query_page (st, column, i, m) after = (es, held)"
  shows "\<exists>rest. filter (\<lambda>e. after < te_sequence e) (query_log (st, column, i, m)) = es @ rest
    \<and> (held \<longleftrightarrow> rest \<noteq> []) \<and> (es = [] \<longrightarrow> rest = [])"
proof -
  have "events column i after m st = Inr (es, held)"
    using assms(3) events_eq[OF assms(1,2)] by (simp add: query_page_def)
  from events_page[OF assms(1,2) this] show ?thesis by (simp add: query_log_def) metis
qed

interpretation stored: page_reader "\<lambda>(st, _). st_inv st \<and> st_fault st SqlEvents = None"
  query_log te_sequence query_page i64_limit
proof (unfold_locales, goal_cases)
  case (1 s)
  then show ?case by (auto simp: query_log_def stored_log_ascending split: prod.splits)
next
  case (2 s e)
  then show ?case
    by (auto simp: query_log_def stored_log_def st_inv_def st_keys_def split: prod.splits)
next
  case (3 s after es held)
  then show ?case by (cases s) (auto dest: query_page_prefix)
next
  case (4 s after es held)
  then show ?case by (cases s) (auto dest: query_page_prefix)
qed

section \<open>The store as a state machine\<close>

text \<open>
  One step is one call of a method that writes, as the session layer makes it: a command is
  inserted with no output yet, and an event names a command of its own session. When the
  database is \<open>sick\<close>, it may begin or cease to refuse any statements between two calls.
\<close>

inductive storage_step :: "bool \<Rightarrow> storage \<Rightarrow> storage \<Rightarrow> bool" for sick where
  step_interrupt: "storage_step sick st (snd (interrupt_unfinished now st))"
| step_upsert: "storage_step sick st (snd (upsert_session s st))"
| step_insert: "ci_output_bytes c = 0 \<Longrightarrow> storage_step sick st (snd (insert_command c st))"
| step_update: "storage_step sick st (snd (update_command c st))"
| step_append: "event_command_ok e st \<Longrightarrow> storage_step sick st (snd (snd (append_event e st)))"
| step_cleanup: "storage_step sick st (snd (cleanup now days st))"
| step_fault: "sick \<Longrightarrow> storage_step sick st (st\<lparr>st_fault := f\<rparr>)"

definition new_storage :: "storage \<Rightarrow> bool" where
  "new_storage st \<longleftrightarrow> (\<exists>mib. st = open_storage [] [] [] mib)"

definition store_ok :: "bool \<Rightarrow> storage \<Rightarrow> bool" where
  "store_ok sick st \<longleftrightarrow> st_inv st \<and> (sick \<or> healthy st \<and> st_exact st)"

interpretation store: step_invariant new_storage "storage_step sick" "store_ok sick" for sick
proof
  show "new_storage st \<Longrightarrow> store_ok sick st" for st
    by (auto simp: new_storage_def store_ok_def st_inv_open st_exact_open)
  show "storage_step sick st st' \<Longrightarrow> store_ok sick st \<Longrightarrow> store_ok sick st'" for st st'
    by (induction rule: storage_step.induct)
      (auto simp: store_ok_def st_inv_interrupt_unfinished st_inv_upsert_session st_inv_insert_command
        st_inv_update_command st_inv_append_event st_inv_cleanup)
qed

lemma storage_step_inv: "(storage_step sick)\<^sup>*\<^sup>* (open_storage [] [] [] mib) st \<Longrightarrow> st_inv st"
  using store.reachable_inv[of "open_storage [] [] [] mib"] by (auto simp: new_storage_def store_ok_def)


definition sample_session :: session_info where
  "sample_session = \<lparr>si_id = ''s'', si_target_id = ''t'', si_target_name = ''box'',
     si_purpose = ''p'', si_client_name = ''c'', si_status = S_Ready, si_current_command = None,
     si_last_exit_code = None, si_recording_truncated = False, si_host_fingerprint = None,
     si_created_at = 5, si_updated_at = 6, si_closed_at = None\<rparr>"

definition sample_event :: "nat \<Rightarrow> terminal_event" where
  "sample_event n = \<lparr>te_session_id = ''s'', te_command_id = None, te_sequence = n,
     te_timestamp = 7, te_stream = Pty, te_payload = ''hello'', te_persisted = False\<rparr>"

definition sample_storage :: storage where
  "sample_storage = snd (snd (append_event (sample_event 2) (snd (snd (append_event (sample_event 1)
     (snd (upsert_session sample_session (open_storage [] [] [] 1))))))))"

lemma sample_storage_reachable:
  "(storage_step sick)\<^sup>*\<^sup>* (open_storage [] [] [] 1) sample_storage"
proof -
  have ok: "event_command_ok (sample_event n) st" for n st
    by (simp add: event_command_ok_def sample_event_def)
  let ?st = "snd (upsert_session sample_session (open_storage [] [] [] 1))"
  have "(storage_step sick)\<^sup>*\<^sup>* (open_storage [] [] [] 1) ?st"
    using step_upsert by blast
  also have "(storage_step sick)\<^sup>*\<^sup>* ?st (snd (snd (append_event (sample_event 1) ?st)))"
    using step_append[OF ok] by blast
  also have "(storage_step sick)\<^sup>*\<^sup>* \<dots> sample_storage"
    unfolding sample_storage_def using step_append[OF ok] by blast
  finally show ?thesis .
qed

lemmas storage_eval = append_event_def upsert_session_def conn_def to_sql_u64_def over_limit_def
  run_sql_def then_sql_def mark_truncated_def mark_session_def mark_command_def insert_event_def add_event_row_def
  count_event_def count_command_def count_session_def no_faults_def open_storage_def row_of_session_def update_session_row_def
  saturating_add_def u64_mod_def i64_limit_def

lemma sample_storage_rows:
  "st_events sample_storage = [\<lparr>er_session_id = ''s'', er_command_id = None, er_sequence = 1,
      er_timestamp = 7, er_stream = ''pty'', er_payload = ''hello''\<rparr>,
     \<lparr>er_session_id = ''s'', er_command_id = None, er_sequence = 2,
      er_timestamp = 7, er_stream = ''pty'', er_payload = ''hello''\<rparr>]"
  "map sr_recorded_bytes (st_sessions sample_storage) = [10]"
  "healthy sample_storage"
  by (simp_all add: sample_storage_def sample_event_def sample_session_def storage_eval healthy_def)

lemma sample_storage_inv: "st_inv sample_storage"
  by (rule storage_step_inv[OF sample_storage_reachable])


text \<open>
  A client that reads a log page by page: it moves its cursor to the sequence number of the
  last event of a page and stops when the page says nothing was held back.
\<close>

fun read_stored :: "nat \<Rightarrow> event_column \<Rightarrow> str \<Rightarrow> nat \<Rightarrow> nat \<Rightarrow> storage
    \<Rightarrow> terminal_event list option" where
  "read_stored 0 column i m after st = None"
| "read_stored (Suc fuel) column i m after st =
     (case query_page (st, column, i, m) after of (es, held) \<Rightarrow>
        if held
        then map_option (\<lambda>rest. es @ rest) (read_stored fuel column i m (te_sequence (last es)) st)
        else Some es)"

text \<open>
  C19: Reading the stored events of a command or of a session page by page, with any byte bound
  and from any cursor, ends and returns exactly the events after the cursor, each once, in the
  order of their sequence numbers; no page holds more than 2048 events, and a page exceeds the
  byte bound only when it holds a single event.
\<close>

theorem stored_pages_complete:
  assumes "(storage_step sick)\<^sup>*\<^sup>* (open_storage [] [] [] mib) st" "st_fault st SqlEvents = None" "after < i64_limit"
  shows "read_stored (Suc (length (stored_log column i st))) column i m after st =
      Some (filter (\<lambda>e. after < te_sequence e) (stored_log column i st))
    \<and> sorted_wrt (<) (map te_sequence (stored_log column i st))
    \<and> (\<exists>es held. events column i after m st = Inr (es, held) \<and> length es \<le> PAGE_EVENTS
        \<and> (sum_list (map (length \<circ> te_payload) es) \<le> m \<or> length es \<le> 1))"
proof -
  have inv: "st_inv st" by (rule storage_step_inv[OF assms(1)])
  let ?q = "(st, column, i, m)"
  have left: "stored.pending ?q after = filter (\<lambda>e. after < te_sequence e) (stored_log column i st)"
    by (simp add: stored.pending_def query_log_def)
  have "read_stored (Suc (length (stored_log column i st))) column i m after st =
      Some (stored.pending ?q after)"
    by (rule stored.drain_all[where loop = "\<lambda>fuel after. read_stored fuel column i m after st"])
      (use inv assms in \<open>simp_all add: left le_imp_less_Suc\<close>)
  moreover obtain es held where page: "events column i after m st = Inr (es, held)"
    using events_eq[OF assms(2,3)] by (metis surj_pair)
  moreover have "length es \<le> PAGE_EVENTS"
    "sum_list (map (length \<circ> te_payload) es) \<le> m \<or> length es \<le> 1"
    using events_page[OF assms(2,3) page] by metis+
  ultimately show ?thesis using left stored_log_ascending[OF inv] by simp
qed

theorem stored_pages_complete_witness:
  "map_option (map te_sequence) (read_stored 3 SessionColumn ''s'' 1 0 sample_storage) = Some [1, 2]"
proof -
  have log: "stored_log SessionColumn ''s'' sample_storage =
      [(sample_event 1)\<lparr>te_persisted := True\<rparr>, (sample_event 2)\<lparr>te_persisted := True\<rparr>]"
    by (simp add: stored_log_def sample_storage_rows event_from_row_def sample_event_def
        parse_enum_def enum_stream_kind_def)
  have "read_stored 3 SessionColumn ''s'' 1 0 sample_storage =
      Some (filter (\<lambda>e. 0 < te_sequence e) (stored_log SessionColumn ''s'' sample_storage))"
    using stored_pages_complete[OF sample_storage_reachable, of 0 SessionColumn "''s''" 1]
    by (simp add: log sample_storage_rows i64_limit_def numeral_3_eq_3)
  then show ?thesis by (simp add: log sample_event_def)
qed

end
