(* ===== verification/Storage_Spec.thy ===== *)
theory Storage_Spec
  imports Storage
begin

text \<open>
  What each method of the store promises to its callers: reading back what was written, the
  two outcomes of recording an event, what retention removes and what it keeps, and the
  repair of sessions a previous daemon left open.
\<close>

section \<open>Reading back sessions and commands\<close>

lemma find_map_same:
  assumes "\<And>r. key (f r) = key r"
  shows "find (\<lambda>r. key r = i) (map f xs) = map_option f (find (\<lambda>r. key r = i) xs)"
  using assms by (induction xs) auto

lemma find_None_mem: "find P xs = None \<longleftrightarrow> \<not> (\<exists>x \<in> set xs. P x)"
  by (auto simp: find_None_iff)

lemma find_append_new:
  "find P (xs @ [x]) = (case find P xs of None \<Rightarrow> (if P x then Some x else None) | Some y \<Rightarrow> Some y)"
  by (induction xs) auto

definition merged_session :: "session_info \<Rightarrow> session_info \<Rightarrow> session_info" where
  "merged_session old s =
     s\<lparr>si_target_id := si_target_id old, si_target_name := si_target_name old,
       si_purpose := si_purpose old, si_client_name := si_client_name old,
       si_created_at := si_created_at old,
       si_recording_truncated := (si_recording_truncated old \<or> si_recording_truncated s)\<rparr>"

lemma session_from_row_of_session [simp]: "session_from_row (row_of_session s) = s"
  by (simp add: session_from_row_def row_of_session_def)

lemma sr_id_row_of_session [simp]: "sr_id (row_of_session s) = si_id s"
  by (simp add: row_of_session_def)

lemma session_from_updated_row:
  "sr_id r = si_id s \<Longrightarrow>
    session_from_row (update_session_row s r) = merged_session (session_from_row r) s"
  by (simp add: session_from_row_def update_session_row_def merged_session_def)

text \<open>
  After \<open>upsert_session\<close> a lookup by the session's identifier returns the session as
  written if it was new; if it was known, the columns fixed at creation keep their first values
  and a recording once marked truncated stays so. No other session's lookup changes.
\<close>

theorem upsert_session_lookup:
  assumes "healthy st"
  shows "session j (snd (upsert_session s st)) =
    (if j = si_id s
     then (case session j st of
             Inr (Some old) \<Rightarrow> Inr (Some (merged_session old s))
           | _ \<Rightarrow> Inr (Some s))
     else session j st)"
proof (cases "\<exists>r \<in> set (st_sessions st). sr_id r = si_id s")
  case True
  have same: "find (\<lambda>r. sr_id r = j)
      (map (\<lambda>r. if sr_id r = si_id s then update_session_row s r else r) (st_sessions st)) =
    map_option (\<lambda>r. if sr_id r = si_id s then update_session_row s r else r)
      (find (\<lambda>r. sr_id r = j) (st_sessions st))"
    by (rule find_map_same) (simp add: update_session_row_def)
  show ?thesis
  proof (cases "find (\<lambda>r. sr_id r = j) (st_sessions st)")
    case None
    then have "j \<noteq> si_id s" using True by (auto simp: find_None_mem)
    then show ?thesis
      using True None assms same by (simp add: session_def upsert_session_def conn_def)
  next
    case (Some r)
    then have "sr_id r = j" by (auto simp: find_Some_iff)
    then show ?thesis using True Some assms same
      by (cases "j = si_id s") (auto simp: session_def upsert_session_def conn_def session_from_updated_row)
  qed
next
  case False
  then have "find (\<lambda>r. sr_id r = si_id s) (st_sessions st) = None" by (simp add: find_None_mem)
  then show ?thesis
    using False assms
    by (auto simp: session_def upsert_session_def conn_def find_append_new
        split: option.split)
qed

theorem upsert_session_lookup_witness:
  "session ''s'' (snd (upsert_session sample_session (open_storage [] [] [] 1)))
     = Inr (Some sample_session)"
  by (subst upsert_session_lookup)
    (simp_all add: session_def sample_session_def[symmetric], simp_all add: open_storage_def sample_session_def)

text \<open>
  \<open>insert_command\<close> either fails and changes nothing, which happens exactly when the command
  is known, its session is not, or a counter exceeds SQLite's integers; or it succeeds and a
  lookup returns the command as written.
\<close>

theorem insert_command_roundtrip:
  assumes "healthy st"
  shows "if (\<exists>r \<in> set (st_commands st). cr_id r = ci_id c)
        \<or> \<not> (\<exists>r \<in> set (st_sessions st). sr_id r = ci_session_id c)
        \<or> i64_limit \<le> ci_last_sequence c \<or> i64_limit \<le> ci_output_bytes c
      then \<exists>e. insert_command c st = (Inl e, st)
      else fst (insert_command c st) = Inr ()
        \<and> command (ci_id c) (snd (insert_command c st)) = Inr (Some c)
        \<and> (\<forall>j. j = ci_id c \<or> command j (snd (insert_command c st)) = command j st)"
proof -
  consider (dup) "\<exists>r \<in> set (st_commands st). cr_id r = ci_id c"
    | (bad) "\<not> (\<exists>r \<in> set (st_commands st). cr_id r = ci_id c)"
        "\<not> (\<exists>r \<in> set (st_sessions st). sr_id r = ci_session_id c)
        \<or> i64_limit \<le> ci_last_sequence c \<or> i64_limit \<le> ci_output_bytes c"
    | (good) "\<not> (\<exists>r \<in> set (st_commands st). cr_id r = ci_id c)"
        "\<exists>r \<in> set (st_sessions st). sr_id r = ci_session_id c"
        "ci_last_sequence c < i64_limit" "ci_output_bytes c < i64_limit"
    by force
  then show ?thesis
  proof cases
    case good
    then have "find (\<lambda>r. cr_id r = ci_id c) (st_commands st) = None" by (simp add: find_None_mem)
    then show ?thesis
      using good assms
      by (auto simp: insert_command_def conn_def to_sql_u64_def command_def find_append_new
          command_from_row_def split: option.split)
  qed (use assms in \<open>auto simp: insert_command_def conn_def to_sql_u64_def not_le\<close>)
qed

definition sample_command :: command_info where
  "sample_command = \<lparr>ci_id = ''c'', ci_session_id = ''s'', ci_command = ''ls'',
     ci_status = C_Running, ci_exit_code = None, ci_started_at = 8, ci_finished_at = None,
     ci_last_sequence = 0, ci_recording_truncated = False, ci_output_bytes = 0\<rparr>"

lemma sample_storage_tables:
  "st_commands sample_storage = []" "map sr_id (st_sessions sample_storage) = [''s'']"
  by (simp_all add: sample_storage_def sample_event_def sample_session_def storage_eval)

theorem insert_command_roundtrip_witness:
  "command ''c'' (snd (insert_command sample_command sample_storage)) = Inr (Some sample_command)"
proof -
  have "\<exists>r \<in> set (st_sessions sample_storage). sr_id r = ''s''"
    using sample_storage_tables(2) by (auto simp: map_eq_Cons_conv)
  then show ?thesis
    using insert_command_roundtrip[of sample_storage sample_command]
    by (simp add: sample_storage_rows sample_storage_tables sample_command_def i64_limit_def)
qed

section \<open>Recording an event\<close>

lemma stored_log_stored_as:
  "column_is column i \<lparr>er_session_id = te_session_id e, er_command_id = te_command_id e,
     er_sequence = te_sequence e, er_timestamp = te_timestamp e,
     er_stream = stream_text (te_stream e), er_payload = te_payload e\<rparr> \<Longrightarrow>
   set (stored_log column i (stored_as a b e st)) =
     insert (e\<lparr>te_persisted := True\<rparr>) (set (stored_log column i st))"
proof -
  assume "column_is column i \<lparr>er_session_id = te_session_id e, er_command_id = te_command_id e,
     er_sequence = te_sequence e, er_timestamp = te_timestamp e,
     er_stream = stream_text (te_stream e), er_payload = te_payload e\<rparr>"
  moreover have "st_events (stored_as a b e st) = st_events (add_event_row e st)" by (simp add: partial_defs)
  ultimately show ?thesis by (auto simp: stored_log_def add_event_row_def event_from_row_def)
qed

text \<open>
  Recording an event of a known session has two outcomes. Past the recording limit nothing is
  stored, the event is handed back with \<open>persisted\<close> false, and the session row and the command
  row are marked truncated. Otherwise, with a fresh sequence number and a known command, the
  event is stored and read back as it was written, with \<open>persisted\<close> true.
\<close>

theorem append_event_outcome:
  assumes "healthy st" "find (\<lambda>r. sr_id r = te_session_id e) (st_sessions st) = Some s"
    and "te_sequence e < i64_limit"
    and "\<forall>r \<in> set (st_events st). er_session_id r \<noteq> te_session_id e \<or> er_sequence r \<noteq> te_sequence e"
    and "\<forall>c. te_command_id e \<noteq> Some c \<or> (\<exists>r \<in> set (st_commands st). cr_id r = c)"
    and "append_event e st = (result, e', st')"
  shows "result = Inr ()
    \<and> (if over_limit st (sr_recorded_bytes s) e
       then e' = e\<lparr>te_persisted := False\<rparr> \<and> st_events st' = st_events st
         \<and> (\<forall>r \<in> set (st_sessions st'). sr_id r \<noteq> te_session_id e \<or> sr_recording_truncated r)
         \<and> (\<forall>c \<in> set (st_commands st'). te_command_id e \<noteq> Some (cr_id c) \<or> cr_recording_truncated c)
       else e' = e\<lparr>te_persisted := True\<rparr>
         \<and> set (stored_log SessionColumn (te_session_id e) st') =
             insert e' (set (stored_log SessionColumn (te_session_id e) st)))"
proof -
  show ?thesis
  proof (cases "over_limit st (sr_recorded_bytes s) e")
    case True
    show ?thesis
      by (cases rule: mark_truncated_cases[of e st]; use assms(1,2,6) True in \<open>auto simp: append_event_def partial_defs\<close>)
  next
    case False
    have ins: "insert_event e st = (Inr (), add_event_row e st)"
      using assms(1,3-5) by (auto simp: insert_event_def to_sql_u64_def split: option.split)
    obtain r a b where "count_event e (add_event_row e st) = (r, stored_as a b e st)" "r = Inr ()"
      using assms(1) by (cases rule: count_event_cases[of e st]) auto
    then have "result = Inr ()" "e' = e\<lparr>te_persisted := True\<rparr>" "st' = stored_as a b e st"
      using assms(1,2,6) False ins by (simp_all add: append_event_def then_sql_def)
    with False show ?thesis by (simp add: stored_log_stored_as)
  qed
qed

theorem append_event_outcome_witness:
  "\<exists>s. find (\<lambda>r. sr_id r = ''s'') (st_sessions sample_storage) = Some s
     \<and> fst (append_event (sample_event 3) sample_storage) = Inr ()"
proof -
  obtain s where row: "st_sessions sample_storage = [s]" "sr_id s = ''s''"
    using sample_storage_tables(2) by (auto simp: map_eq_Cons_conv)
  then have found: "find (\<lambda>r. sr_id r = te_session_id (sample_event 3)) (st_sessions sample_storage) = Some s"
    by (simp add: sample_event_def)
  have "fst (append_event (sample_event 3) sample_storage) = Inr ()"
    using append_event_outcome[OF _ found, OF _ _ _ _ prod.collapse[symmetric, THEN trans,
        OF arg_cong[where f = "Pair _", OF prod.collapse[symmetric]]]]
    by (simp add: sample_storage_rows sample_event_def i64_limit_def)
  with found show ?thesis by (auto simp: sample_event_def)
qed

section \<open>Retention and restart\<close>

lemma stored_log_filter:
  assumes "\<And>r. r \<in> set (st_events st) \<Longrightarrow> column_is column i r \<Longrightarrow> P r"
  shows "stored_log column i (st\<lparr>st_sessions := ss, st_commands := cs,
    st_events := filter P (st_events st)\<rparr>) = stored_log column i st"
proof -
  have "filter (column_is column i) (filter P (st_events st)) = filter (column_is column i) (st_events st)"
    using assms by (simp add: filter_filter) (metis (mono_tags, lifting) filter_cong)
  then show ?thesis by (simp add: stored_log_def)
qed

lemma find_filter_other:
  "find (\<lambda>r. key r = i) (filter (\<lambda>r. key r \<notin> A) xs) =
    (if i \<in> A then None else find (\<lambda>r. key r = i) xs)"
  by (induction xs) auto

text \<open>
  Retention removes exactly the finished sessions created before the cut-off, with their
  commands and events, and reports how many; every other session keeps its row and its whole log.
\<close>

theorem cleanup_exact:
  assumes "(storage_step sick)\<^sup>*\<^sup>* (open_storage [] [] [] mib) st" "healthy st"
    and "find (\<lambda>r. sr_id r = i) (st_sessions st) = Some r"
    and "cleanup now days st = (result, st')"
  shows "result = Inr (length (filter (expired now days) (st_sessions st)))
    \<and> (if expired now days r
       then session i st' = Inr None \<and> stored_log SessionColumn i st' = []
         \<and> (\<forall>c \<in> set (st_commands st'). cr_session_id c \<noteq> i)
       else session i st' = session i st
         \<and> stored_log SessionColumn i st' = stored_log SessionColumn i st
         \<and> filter (\<lambda>c. cr_session_id c = i) (st_commands st')
             = filter (\<lambda>c. cr_session_id c = i) (st_commands st))"
proof -
  have inv: "st_inv st" by (rule storage_step_inv[OF assms(1)])
  have r: "r \<in> set (st_sessions st)" "sr_id r = i" using assms(3) by (auto simp: find_Some_iff)
  have gone: "i \<in> gone_ids now days st \<longleftrightarrow> expired now days r"
    using gone_ids_expired[OF inv r(1)] r(2) by simp
  have st': "st' = snd (cleanup now days st)" using assms(4) by simp
  note shape = st'[unfolded cleanup_shape[OF inv healthy_fault[OF assms(2)]]]
  have lookup: "session i st' = (if expired now days r then Inr None else session i st)"
    using assms(2) gone by (simp add: shape session_def conn_def find_filter_other)
  have log: "stored_log SessionColumn i st' =
      (if expired now days r then [] else stored_log SessionColumn i st)"
  proof (cases "expired now days r")
    case True
    then have "filter (column_is SessionColumn i) (st_events st') = []"
      using gone by (auto simp: shape filter_empty_conv)
    then show ?thesis using True by (simp add: stored_log_def)
  next
    case False
    then have "stored_log SessionColumn i st' = stored_log SessionColumn i st"
      unfolding shape using gone by (intro stored_log_filter) auto
    then show ?thesis using False by simp
  qed
  have "filter (\<lambda>c. cr_session_id c = i) (st_commands st') =
      (if expired now days r then [] else filter (\<lambda>c. cr_session_id c = i) (st_commands st))"
    using gone by (auto simp: shape filter_empty_conv intro!: filter_cong)
  moreover have "result = Inr (length (filter (expired now days) (st_sessions st)))"
    using assms(2,4) by (auto simp: cleanup_def conn_def Let_def)
  moreover have "expired now days r \<Longrightarrow> \<forall>c \<in> set (st_commands st'). cr_session_id c \<noteq> i"
    using gone by (auto simp: shape)
  ultimately show ?thesis using lookup log by auto
qed

theorem cleanup_exact_witness:
  "\<exists>r. find (\<lambda>r. sr_id r = ''s'') (st_sessions sample_storage) = Some r \<and> \<not> expired 9 1 r
     \<and> stored_log SessionColumn ''s'' (snd (cleanup 9 1 sample_storage))
         = stored_log SessionColumn ''s'' sample_storage"
proof -
  obtain r where row: "st_sessions sample_storage = [r]" "sr_id r = ''s''"
    using sample_storage_tables(2) by (auto simp: map_eq_Cons_conv)
  then have found: "find (\<lambda>r. sr_id r = ''s'') (st_sessions sample_storage) = Some r" by simp
  have "\<not> expired 9 1 r" by (simp add: expired_def nanos_per_day_def)
  then show ?thesis
    using cleanup_exact[OF sample_storage_reachable _ found surjective_pairing] found
    by (simp add: sample_storage_rows)
qed

text \<open>
  On restart every session a previous daemon left open becomes interrupted and closed at the
  time of the restart; finished sessions and every command row stay as they were, so a command
  that was running is still listed as running.
\<close>

theorem interrupt_unfinished_sessions:
  assumes "healthy st"
  shows "fst (interrupt_unfinished now st) = Inr ()
    \<and> st_commands (snd (interrupt_unfinished now st)) = st_commands st
    \<and> st_events (snd (interrupt_unfinished now st)) = st_events st
    \<and> list_all2 (\<lambda>r q.
         if List.member terminal_session_texts (sr_status r) then q = r
         else session_from_row q =
           (session_from_row r)\<lparr>si_status := S_Interrupted, si_updated_at := now,
                                si_closed_at := Some now\<rparr>)
        (st_sessions st) (st_sessions (snd (interrupt_unfinished now st)))"
  using assms
  by (auto simp: interrupt_unfinished_def conn_def list_all2_conv_all_nth session_from_row_def
      parse_enum_def enum_session_status_def)

theorem interrupt_unfinished_sessions_witness:
  "map (si_status \<circ> session_from_row) (st_sessions (snd (interrupt_unfinished 9 sample_storage)))
     = [S_Interrupted]"
proof -
  have "map sr_status (st_sessions sample_storage) = [''ready'']"
    by (simp add: sample_storage_def sample_event_def sample_session_def storage_eval)
  then obtain r where r: "st_sessions sample_storage = [r]" "sr_status r = ''ready''"
    by (auto simp: map_eq_Cons_conv)
  then obtain q where "st_sessions (snd (interrupt_unfinished 9 sample_storage)) = [q]"
    "si_status (session_from_row q) = S_Interrupted"
    using interrupt_unfinished_sessions[of sample_storage 9] sample_storage_rows(3)
    by (auto simp: list_all2_Cons1 terminal_session_texts_def)
  then show ?thesis by simp
qed

end
