(* ===== verification/Session_Log.thy ===== *)
theory Session_Log
  imports Storage_Spec
begin

text \<open>
  The output log of one session in \<open>crates/session/src/lib.rs\<close>: \<open>record\<close>, which numbers an
  event, stores it or keeps it in the bounded in-memory tail, and announces it; and the page
  readers behind \<open>command_poll\<close> and \<open>shell_read\<close>, which continue a page of stored events with
  the tail. The runtime of a session is one record; connections and PTY writers are handles.
  Locks are taken for one access each, so an operation here is one atomic step; a poisoned
  \<open>std\<close> lock, which needs a panic inside such an access, is not modelled.
\<close>

section \<open>The runtime of a session\<close>

datatype foreground = FgExec str | FgPty str

record runtime =
  rt_session_id :: str
  rt_info :: session_info
  rt_connection :: "nat option"
  rt_foreground :: "foreground option"
  rt_background :: "str list"
  rt_sequence :: nat
  rt_recording_truncated :: bool
  rt_live_tail_dropped :: bool
  rt_last_activity :: time
  rt_last_output_at :: "time option"
  rt_live_events :: "terminal_event list"
  rt_version :: nat

definition MAX_READ_BYTES :: nat where
  "MAX_READ_BYTES = 1024 * 1024"

definition LIVE_TAIL_BYTES :: nat where
  "LIVE_TAIL_BYTES = 4 * 1024 * 1024"

abbreviation event_bytes :: "terminal_event list \<Rightarrow> nat" where
  "event_bytes es \<equiv> sum_list (map (\<lambda>e. length (te_payload e)) es)"

definition send_modify :: "runtime \<Rightarrow> runtime" where
  "send_modify rt = rt\<lparr>rt_version := wrapping_add (rt_version rt) 1\<rparr>"

text \<open>The loop that pops the oldest events while the tail is too large.\<close>

fun trim_live :: "nat \<Rightarrow> terminal_event list \<Rightarrow> terminal_event list \<times> bool" where
  "trim_live bytes [] = ([], False)"
| "trim_live bytes (old # live) =
     (if bytes > LIVE_TAIL_BYTES
      then (fst (trim_live (bytes - length (te_payload old)) live), True)
      else (old # live, False))"

text \<open>The event \<open>record\<close> builds; \<open>fetch_add\<close> wraps around.\<close>

definition recorded :: "time \<Rightarrow> str option \<Rightarrow> stream_kind \<Rightarrow> bytes \<Rightarrow> runtime \<Rightarrow> terminal_event" where
  "recorded now command_id stream payload rt =
     \<lparr>te_session_id = rt_session_id rt, te_command_id = command_id,
      te_sequence = wrapping_add (rt_sequence rt) 1, te_timestamp = now,
      te_stream = stream, te_payload = payload, te_persisted = True\<rparr>"

definition record_event :: "time \<Rightarrow> str option \<Rightarrow> stream_kind \<Rightarrow> bytes \<Rightarrow> runtime \<Rightarrow> storage
    \<Rightarrow> runtime \<times> storage" where
  "record_event now command_id stream payload rt st =
     (let event = recorded now command_id stream payload rt;
          rt1 = rt\<lparr>rt_sequence := wrapping_add (rt_sequence rt) 1, rt_last_activity := now\<rparr>;
          (_, event1, st1) = append_event event st;
          rt2 = (if te_persisted event1 then rt1
                 else let live = rt_live_events rt1 @ [event1];
                          (kept, dropped) = trim_live (event_bytes live) live
                      in rt1\<lparr>rt_recording_truncated := True, rt_live_events := kept,
                             rt_live_tail_dropped := (rt_live_tail_dropped rt1 \<or> dropped)\<rparr>)
      in (send_modify (rt2\<lparr>rt_last_output_at := Some now\<rparr>), st1))"

section \<open>Pages\<close>

fun live_loop :: "nat \<Rightarrow> terminal_event list \<Rightarrow> nat \<Rightarrow> terminal_event list
    \<Rightarrow> terminal_event list \<times> bool" where
  "live_loop limit es sz [] = (es, False)"
| "live_loop limit es sz (e # live) =
     (if es \<noteq> [] \<and> sz + length (te_payload e) > limit then (es, True)
      else live_loop limit (es @ [e]) (sz + length (te_payload e)) live)"

definition append_live :: "terminal_event list \<Rightarrow> bool \<Rightarrow> terminal_event list \<Rightarrow> nat \<Rightarrow> nat
    \<Rightarrow> str option \<Rightarrow> terminal_event list \<times> bool" where
  "append_live es held live after limit command_id =
     (if held then (es, held)
      else
        (let (es', held') = live_loop limit es (event_bytes es)
               (filter (\<lambda>e. te_sequence e > after
                  \<and> (case command_id of None \<Rightarrow> True | Some i \<Rightarrow> te_command_id e = Some i)) live)
         in (sort_key te_sequence es', held')))"

definition internal :: "storage_error \<Rightarrow> error_payload" where
  "internal e = new_error ''INTERNAL'' (storage_error_text e)"

definition session_not_found :: "(str \<Rightarrow> str) \<Rightarrow> str \<Rightarrow> error_payload" where
  "session_not_found debug_fmt i =
     new_error ''SESSION_NOT_FOUND'' (''session '' @ debug_fmt i @ '' does not exist'')"

definition load_command :: "(str \<Rightarrow> str) \<Rightarrow> str \<Rightarrow> storage \<Rightarrow> command_info api_result" where
  "load_command debug_fmt i st =
     (case command i st of
        Inl e \<Rightarrow> Inl (internal e)
      | Inr None \<Rightarrow>
          Inl (new_error ''COMMAND_NOT_FOUND'' (''command '' @ debug_fmt i @ '' does not exist''))
      | Inr (Some c) \<Rightarrow> Inr c)"

record command_page =
  cp_command :: command_info
  cp_events :: "terminal_event list"
  cp_more :: bool
  cp_runtime :: "runtime option"

definition quiet :: "command_page \<Rightarrow> bool" where
  "quiet p \<longleftrightarrow> cp_events p = [] \<and> \<not> cp_more p \<and> ci_status (cp_command p) = C_Running"

text \<open>\<open>lookup\<close> is the session table.\<close>

definition read_command_page :: "(str \<Rightarrow> str) \<Rightarrow> (str \<Rightarrow> runtime option) \<Rightarrow> str \<Rightarrow> nat \<Rightarrow> nat
    \<Rightarrow> storage \<Rightarrow> command_page api_result" where
  "read_command_page debug_fmt lookup command_id after limit st =
     (case load_command debug_fmt command_id st of
        Inl e \<Rightarrow> Inl e
      | Inr c \<Rightarrow>
        (case events_for_command command_id after limit st of
           Inl e \<Rightarrow> Inl (internal e)
         | Inr (es, held) \<Rightarrow>
             (let found = lookup (ci_session_id c);
                  (es', held') = (case found of
                     None \<Rightarrow> (es, held)
                   | Some rt \<Rightarrow> append_live es held (rt_live_events rt) after limit (Some command_id))
              in Inr \<lparr>cp_command = c, cp_events = es', cp_more = held', cp_runtime = found\<rparr>)))"

text \<open>The commands of a shell page, by identifier; the first failing lookup fails the page.\<close>

fun load_all :: "str list \<Rightarrow> storage \<Rightarrow> storage_error + command_info list" where
  "load_all [] st = Inr []"
| "load_all (i # is) st =
     (case command i st of
        Inl e \<Rightarrow> Inl e
      | Inr found \<Rightarrow>
          (case load_all is st of
             Inl e \<Rightarrow> Inl e
           | Inr cs \<Rightarrow> Inr (case found of None \<Rightarrow> cs | Some c \<Rightarrow> c # cs)))"

fun id_before :: "str \<Rightarrow> str \<Rightarrow> bool" where
  "id_before [] _ = True"
| "id_before (x # xs) [] = False"
| "id_before (x # xs) (y # ys) = (bval x < bval y \<or> (bval x = bval y \<and> id_before xs ys))"

fun insert_id :: "str \<Rightarrow> str list \<Rightarrow> str list" where
  "insert_id i [] = [i]"
| "insert_id i (j # js) =
     (if i = j then j # js else if id_before i j then i # j # js else j # insert_id i js)"

definition id_set :: "str list \<Rightarrow> str list" where
  "id_set is = foldr insert_id is []"

definition read_shell_page :: "(str \<Rightarrow> runtime option) \<Rightarrow> str \<Rightarrow> nat \<Rightarrow> nat \<Rightarrow> storage
    \<Rightarrow> (command_info list \<times> terminal_event list \<times> bool \<times> runtime option) api_result" where
  "read_shell_page lookup session_id after limit st =
     (case events_for_session session_id after limit st of
        Inl e \<Rightarrow> Inl (internal e)
      | Inr (es, held) \<Rightarrow>
          (let found = lookup session_id;
               (es', held') = (case found of
                  None \<Rightarrow> (es, held)
                | Some rt \<Rightarrow> append_live es held (rt_live_events rt) after limit None)
           in case latest_command_for_session session_id st of
                Inl e \<Rightarrow> Inl (internal e)
              | Inr latest \<Rightarrow>
                  (let ids = id_set (List.map_filter te_command_id es'
                         @ (case latest of None \<Rightarrow> [] | Some c \<Rightarrow> [ci_id c]))
                   in case load_all ids st of
                        Inl e \<Rightarrow> Inl (internal e)
                      | Inr cs \<Rightarrow> Inr (cs, es', held', found))))"

section \<open>Progress and warnings\<close>

definition seconds_since_output :: "time \<Rightarrow> runtime option \<Rightarrow> nat option" where
  "seconds_since_output now found =
     (case found of None \<Rightarrow> None
      | Some rt \<Rightarrow> map_option (\<lambda>t. seconds_between now t) (rt_last_output_at rt))"

definition live_dropped :: "runtime option \<Rightarrow> bool" where
  "live_dropped found = (case found of None \<Rightarrow> False | Some rt \<Rightarrow> rt_live_tail_dropped rt)"

definition progress_for :: "time \<Rightarrow> command_info \<Rightarrow> runtime option \<Rightarrow> bool \<Rightarrow> nat \<Rightarrow> event_progress" where
  "progress_for now c found timed_out waited =
     \<lparr>ep_seconds_since_last_output =
        (if ci_status c = C_Running then seconds_since_output now found else None),
      ep_live_tail_dropped = live_dropped found, ep_timed_out = timed_out,
      ep_waited_seconds = waited\<rparr>"

definition shell_progress :: "time \<Rightarrow> bool \<Rightarrow> time \<Rightarrow> runtime option \<Rightarrow> event_progress" where
  "shell_progress now timed_out started found =
     \<lparr>ep_seconds_since_last_output = seconds_since_output now found,
      ep_live_tail_dropped = live_dropped found, ep_timed_out = timed_out,
      ep_waited_seconds = seconds_between now started\<rparr>"

definition warn_truncated :: str where
  "warn_truncated = ''the session recording limit dropped earlier output; it is no longer available from storage''"

definition warn_dropped :: str where
  "warn_dropped = ''the in-memory overflow buffer dropped its oldest output; some output is unrecoverable''"

definition warn_started :: str where
  "warn_started = ''the SSH transport dropped before an exit status arrived; this command did produce output, so the remote process started and may still be running''"

definition warn_unknown :: str where
  "warn_unknown = ''the SSH transport dropped before an exit status arrived and no output was received; whether the remote process started is unknown''"

definition warn_no_output :: str where
  "warn_no_output = ''command finished without producing stdout or stderr events''"

record poll_page =
  pp_command :: command_info
  pp_events :: "terminal_event list"
  pp_more :: bool
  pp_warnings :: "str list"
  pp_progress :: event_progress

definition finish_poll :: "time \<Rightarrow> command_page \<Rightarrow> nat \<Rightarrow> bool \<Rightarrow> time \<Rightarrow> poll_page" where
  "finish_poll now p after timed_out started =
     (let c = cp_command p in
      \<lparr>pp_command = c, pp_events = cp_events p, pp_more = cp_more p,
       pp_warnings =
         (if ci_recording_truncated c then [warn_truncated] else [])
         @ (if live_dropped (cp_runtime p) then [warn_dropped] else [])
         @ (if ci_status c = C_Interrupted
            then [if ci_output_bytes c > 0 then warn_started else warn_unknown] else [])
         @ (if after = 0 \<and> cp_events p = [] \<and> ci_status c \<noteq> C_Running then [warn_no_output] else []),
       pp_progress = progress_for now c (cp_runtime p) timed_out (seconds_between now started)\<rparr>)"

text \<open>
  One round of a blocking poll: the session table, the store and the clock when the page is
  read, the clock when the remaining budget is computed, and whether the wait that follows ends
  with a change of the version (\<open>changed\<close>) before the deadline.
\<close>

record poll_round =
  pr_lookup :: "str \<Rightarrow> runtime option"
  pr_storage :: storage
  pr_now :: time
  pr_changed :: bool

definition poll_budget :: "nat \<Rightarrow> nat" where
  "poll_budget wait_seconds = min wait_seconds MAX_WAIT_SECONDS * 1000000000"

text \<open>
  \<open>command_poll\<close> over the rounds that happen; it is \<open>None\<close> while it is still waiting. \<open>subscribed\<close>
  says whether the session had a runtime when the call began.
\<close>

fun command_poll :: "(str \<Rightarrow> str) \<Rightarrow> bool \<Rightarrow> time \<Rightarrow> nat \<Rightarrow> str \<Rightarrow> nat \<Rightarrow> nat \<Rightarrow> poll_round list
    \<Rightarrow> poll_page api_result option" where
  "command_poll dbg subscribed started budget command_id after limit [] = None"
| "command_poll dbg subscribed started budget command_id after limit (r # rs) =
     (case read_command_page dbg (pr_lookup r) command_id after limit (pr_storage r) of
        Inl e \<Rightarrow> Some (Inl e)
      | Inr p \<Rightarrow>
          if \<not> quiet p \<or> budget = 0 then Some (Inr (finish_poll (pr_now r) p after False started))
          else if \<not> subscribed then Some (Inr (finish_poll (pr_now r) p after True started))
          else if pr_now r < started + budget \<and> pr_changed r
          then command_poll dbg subscribed started budget command_id after limit rs
          else (case rs of
                  [] \<Rightarrow> None
                | q # _ \<Rightarrow>
                    (case read_command_page dbg (pr_lookup q) command_id after limit (pr_storage q) of
                       Inl e \<Rightarrow> Some (Inl e)
                     | Inr p' \<Rightarrow> Some (Inr (finish_poll (pr_now q) p' after True started)))))"

definition events_response :: "command_info option \<Rightarrow> command_info list \<Rightarrow> terminal_event list \<Rightarrow> nat
    \<Rightarrow> bool \<Rightarrow> str list \<Rightarrow> event_progress \<Rightarrow> response_data" where
  "events_response c cs es after held warnings progress =
     R_Events \<lparr>ev_command = c, ev_commands = cs, ev_events = es,
       ev_next_sequence = (if es = [] then after else te_sequence (last es)),
       ev_has_more = held,
       ev_delivery_complete = (case c of None \<Rightarrow> False | Some v \<Rightarrow> ci_status v \<noteq> C_Running \<and> \<not> held),
       ev_warnings = warnings, ev_progress = progress\<rparr>"

text \<open>
  \<open>shell_read\<close> over the rounds that happen; the first argument round is the state when the call
  begins, where an unknown session is refused.
\<close>

record shell_page =
  sp_commands :: "command_info list"
  sp_events :: "terminal_event list"
  sp_more :: bool
  sp_progress :: event_progress

definition shell_page_of :: "time \<Rightarrow> time \<Rightarrow> bool
    \<Rightarrow> command_info list \<times> terminal_event list \<times> bool \<times> runtime option \<Rightarrow> shell_page" where
  "shell_page_of now started timed_out p =
     (case p of (cs, es, held, found) \<Rightarrow>
        \<lparr>sp_commands = cs, sp_events = es, sp_more = held,
         sp_progress = shell_progress now timed_out started found\<rparr>)"

fun shell_loop :: "bool \<Rightarrow> time \<Rightarrow> nat \<Rightarrow> str \<Rightarrow> nat \<Rightarrow> nat \<Rightarrow> poll_round list \<Rightarrow> shell_page api_result option" where
  "shell_loop subscribed started budget session_id after limit [] = None"
| "shell_loop subscribed started budget session_id after limit (r # rs) =
     (case read_shell_page (pr_lookup r) session_id after limit (pr_storage r) of
        Inl e \<Rightarrow> Some (Inl e)
      | Inr p \<Rightarrow>
          if \<not> (fst (snd p) = [] \<and> \<not> fst (snd (snd p))) \<or> budget = 0
          then Some (Inr (shell_page_of (pr_now r) started False p))
          else if \<not> subscribed then Some (Inr (shell_page_of (pr_now r) started True p))
          else if pr_now r < started + budget \<and> pr_changed r
          then shell_loop subscribed started budget session_id after limit rs
          else (case rs of
                  [] \<Rightarrow> None
                | q # _ \<Rightarrow>
                    (case read_shell_page (pr_lookup q) session_id after limit (pr_storage q) of
                       Inl e \<Rightarrow> Some (Inl e)
                     | Inr p' \<Rightarrow> Some (Inr (shell_page_of (pr_now q) started True p')))))"

definition shell_read :: "(str \<Rightarrow> str) \<Rightarrow> poll_round \<Rightarrow> str \<Rightarrow> nat \<Rightarrow> nat \<Rightarrow> nat \<Rightarrow> poll_round list
    \<Rightarrow> shell_page api_result option" where
  "shell_read dbg r0 session_id after max_bytes wait_seconds rounds =
     (case (pr_lookup r0 session_id, session session_id (pr_storage r0)) of
        (None, Inl e) \<Rightarrow> Some (Inl (internal e))
      | (None, Inr None) \<Rightarrow> Some (Inl (session_not_found dbg session_id))
      | (found, _) \<Rightarrow>
          shell_loop (found \<noteq> None) (pr_now r0) (poll_budget wait_seconds) session_id after
            (clamp max_bytes 1 MAX_READ_BYTES) rounds)"

section \<open>The live tail\<close>

lemma trim_live_split:
  assumes "trim_live (event_bytes live) live = (kept, dropped)"
  shows "\<exists>lost. live = lost @ kept \<and> event_bytes kept \<le> LIVE_TAIL_BYTES \<and> (dropped \<longleftrightarrow> lost \<noteq> [])
    \<and> (lost = [] \<or> event_bytes (last lost # kept) > LIVE_TAIL_BYTES)"
  using assms
proof (induction live arbitrary: kept dropped)
  case (Cons old live)
  show ?case
  proof (cases "event_bytes (old # live) > LIVE_TAIL_BYTES")
    case True
    obtain kept' d where rest: "trim_live (event_bytes live) live = (kept', d)" by fastforce
    then have eq: "kept = kept'" "dropped" using Cons.prems True by auto
    from Cons.IH[OF rest] obtain lost where
      "live = lost @ kept'" "event_bytes kept' \<le> LIVE_TAIL_BYTES"
      "lost = [] \<or> event_bytes (last lost # kept') > LIVE_TAIL_BYTES" by blast
    then show ?thesis
      using eq True by (intro exI[of _ "old # lost"]) auto
  next
    case False
    then show ?thesis using Cons.prems by (intro exI[of _ "[]"]) auto
  qed
qed simp

lemma recorded_simps [simp]:
  "te_session_id (recorded now c k p rt) = rt_session_id rt"
  "te_command_id (recorded now c k p rt) = c"
  "te_sequence (recorded now c k p rt) = wrapping_add (rt_sequence rt) 1"
  "te_payload (recorded now c k p rt) = p"
  "te_persisted (recorded now c k p rt) = True"
  by (simp_all add: recorded_def)

text \<open>The two shapes of a recording: the tail unchanged, or the event appended and the tail cut.\<close>

lemma record_event_cases:
  assumes run: "record_event now c k p rt st = (rt', st')"
    and app: "append_event (recorded now c k p rt) st = (res, e, st1)"
  obtains (stored) "te_persisted e" "st' = st1"
      "rt' = rt\<lparr>rt_sequence := wrapping_add (rt_sequence rt) 1, rt_last_activity := now,
                rt_last_output_at := Some now, rt_version := wrapping_add (rt_version rt) 1\<rparr>"
  | (live) kept lost where "\<not> te_persisted e" "st' = st1"
      "rt' = rt\<lparr>rt_sequence := wrapping_add (rt_sequence rt) 1, rt_last_activity := now,
                rt_recording_truncated := True, rt_live_events := kept,
                rt_live_tail_dropped := (rt_live_tail_dropped rt \<or> lost \<noteq> []),
                rt_last_output_at := Some now, rt_version := wrapping_add (rt_version rt) 1\<rparr>"
      "rt_live_events rt @ [e] = lost @ kept" "event_bytes kept \<le> LIVE_TAIL_BYTES"
      "lost = [] \<or> event_bytes (last lost # kept) > LIVE_TAIL_BYTES"
proof (cases "te_persisted e")
  case True
  then show ?thesis
    using run app stored by (simp add: record_event_def Let_def send_modify_def)
next
  case False
  obtain kept d where trim: "trim_live (event_bytes (rt_live_events rt @ [e])) (rt_live_events rt @ [e]) = (kept, d)"
    by fastforce
  from trim_live_split[OF trim] obtain lost where
    lost: "rt_live_events rt @ [e] = lost @ kept" "event_bytes kept \<le> LIVE_TAIL_BYTES"
    "d \<longleftrightarrow> lost \<noteq> []" "lost = [] \<or> event_bytes (last lost # kept) > LIVE_TAIL_BYTES" by blast
  show ?thesis
    by (rule live[OF False _ _ lost(1,2,4)])
      (use run app trim False lost(3) in \<open>simp_all add: record_event_def Let_def send_modify_def\<close>)
qed

section \<open>The invariant of a session's log\<close>

definition stored_below :: "str \<Rightarrow> nat \<Rightarrow> storage \<Rightarrow> bool" where
  "stored_below i n st \<longleftrightarrow> (\<forall>r \<in> set (st_events st). er_session_id r = i \<longrightarrow> er_sequence r \<le> n)"

definition live_ok :: "runtime \<Rightarrow> bool" where
  "live_ok rt \<longleftrightarrow>
     sorted_wrt (<) (map te_sequence (rt_live_events rt))
   \<and> (\<forall>e \<in> set (rt_live_events rt). te_sequence e \<le> rt_sequence rt
        \<and> te_session_id e = rt_session_id rt \<and> \<not> te_persisted e)
   \<and> event_bytes (rt_live_events rt) \<le> LIVE_TAIL_BYTES
   \<and> (rt_live_events rt \<noteq> [] \<or> rt_live_tail_dropped rt \<longrightarrow> rt_recording_truncated rt)"

definition log_inv :: "runtime \<Rightarrow> storage \<Rightarrow> bool" where
  "log_inv rt st \<longleftrightarrow> st_inv st \<and> live_ok rt \<and> stored_below (rt_session_id rt) (rt_sequence rt) st
     \<and> rt_sequence rt < i64_limit
     \<and> (\<forall>e \<in> set (rt_live_events rt). \<forall>r \<in> set (st_events st).
          er_session_id r \<noteq> rt_session_id rt \<or> er_sequence r \<noteq> te_sequence e)"

lemma append_event_events:
  assumes "append_event e st = (res, e', st')"
  shows "((st_events st' = st_events st \<and> \<not> (te_persisted e' \<and> res = Inr ()))
      \<or> (st_events st' = st_events st @ [\<lparr>er_session_id = te_session_id e, er_command_id = te_command_id e,
            er_sequence = te_sequence e, er_timestamp = te_timestamp e,
            er_stream = stream_text (te_stream e), er_payload = te_payload e\<rparr>]
         \<and> te_persisted e'))
    \<and> (e' = e \<or> e' = e\<lparr>te_persisted := True\<rparr> \<or> (e' = e\<lparr>te_persisted := False\<rparr> \<and> st_events st' = st_events st))"
  by (cases rule: append_event_cases[of e st]; use assms in \<open>auto simp: partial_defs\<close>)

lemma sorted_snoc:
  "sorted_wrt (<) (map f xs) \<Longrightarrow> (\<And>x. x \<in> set xs \<Longrightarrow> f x < f y) \<Longrightarrow> sorted_wrt (<) (map f (xs @ [y]))"
  by (auto simp: sorted_wrt_append)

lemma event_bytes_suffix: "xs = ys @ zs \<Longrightarrow> event_bytes zs \<le> event_bytes xs"
  by simp

lemma log_inv_record:
  assumes inv: "log_inv rt st" and room: "Suc (rt_sequence rt) < i64_limit"
    and ok: "event_command_ok (recorded now c k p rt) st"
    and run: "record_event now c k p rt st = (rt', st')"
  shows "log_inv rt' st'"
proof -
  obtain res e st1 where app: "append_event (recorded now c k p rt) st = (res, e, st1)"
    by (cases "append_event (recorded now c k p rt) st") auto
  have seq: "wrapping_add (rt_sequence rt) 1 = Suc (rt_sequence rt)"
    using wrapping_add_i64[OF room] .
  have st1: "st_inv st1" using st_inv_append_event[OF _ ok] inv app by (auto simp: log_inv_def)
  note out = append_event_events[OF app]
  have below: "stored_below (rt_session_id rt) (Suc (rt_sequence rt)) st1"
    using out inv seq by (fastforce simp: stored_below_def log_inv_def)
  have old: "er_sequence r \<noteq> te_sequence x"
    if "x \<in> set (rt_live_events rt)" "r \<in> set (st_events st1)" "er_session_id r = rt_session_id rt" for x r
    using out that inv seq by (fastforce simp: log_inv_def live_ok_def)
  from run app show ?thesis
  proof (cases rule: record_event_cases)
    case stored
    have "live_ok rt'" using inv stored seq by (auto simp: log_inv_def live_ok_def intro: le_SucI)
    then show ?thesis
      using stored seq st1 below old room by (auto simp: log_inv_def)
  next
    case (live kept lost)
    then have e: "e = (recorded now c k p rt)\<lparr>te_persisted := False\<rparr>" "st_events st1 = st_events st"
      using out by auto
    have sorted: "sorted_wrt (<) (map te_sequence (rt_live_events rt @ [e]))"
      by (rule sorted_snoc) (use inv seq e in \<open>auto simp: log_inv_def live_ok_def\<close>)
    have kept: "set kept \<subseteq> set (rt_live_events rt @ [e])"
      using live(4) by auto
    have "sorted_wrt (<) (map te_sequence kept)"
      using sorted unfolding live(4) by (simp add: sorted_wrt_append)
    moreover have "te_sequence x \<le> Suc (rt_sequence rt) \<and> te_session_id x = rt_session_id rt \<and> \<not> te_persisted x"
      if "x \<in> set kept" for x
      using subsetD[OF kept that] inv e seq by (auto simp: log_inv_def live_ok_def intro: le_SucI)
    ultimately have "live_ok rt'"
      using live(3,5) seq by (simp add: live_ok_def)
    moreover have "er_session_id r \<noteq> rt_session_id rt \<or> er_sequence r \<noteq> te_sequence x"
      if "x \<in> set kept" "r \<in> set (st_events st1)" for x r
    proof (cases "x = e")
      case True
      then show ?thesis using that e inv seq by (fastforce simp: log_inv_def stored_below_def)
    qed (use subsetD[OF kept that(1)] old that in auto)
    ultimately show ?thesis
      using live(2,3) seq st1 below room by (simp add: log_inv_def)
  qed
qed

section \<open>What recording guarantees\<close>

text \<open>
  Recording keeps the log well formed and loses output only in the open. From a well-formed
  log, the next event gets the next sequence number; it is stored, or it is the newest entry of
  the in-memory tail, which keeps a suffix of what it held, never more than 4 MiB, and sets the
  dropped flag exactly when something fell off its front; or storing it failed with an error.
\<close>

theorem record_event_keeps:
  assumes inv: "log_inv rt st" and room: "Suc (rt_sequence rt) < i64_limit"
    and ok: "event_command_ok (recorded now c k p rt) st"
    and run: "record_event now c k p rt st = (rt', st')"
  shows "log_inv rt' st' \<and> rt_sequence rt' = Suc (rt_sequence rt)
    \<and> rt_version rt' = wrapping_add (rt_version rt) 1
    \<and> event_bytes (rt_live_events rt') \<le> LIVE_TAIL_BYTES
    \<and> (isl (fst (append_event (recorded now c k p rt) st))
       \<or> recorded now c k p rt \<in> set (stored_log SessionColumn (rt_session_id rt) st')
         \<and> rt_live_events rt' = rt_live_events rt
       \<or> (\<exists>lost kept. rt_live_events rt @ [(recorded now c k p rt)\<lparr>te_persisted := False\<rparr>] = lost @ kept
            \<and> rt_live_events rt' = kept \<and> rt_recording_truncated rt'
            \<and> (rt_live_tail_dropped rt' \<longleftrightarrow> rt_live_tail_dropped rt \<or> lost \<noteq> [])))"
proof -
  obtain res e st1 where app: "append_event (recorded now c k p rt) st = (res, e, st1)"
    by (cases "append_event (recorded now c k p rt) st") auto
  note out = append_event_events[OF app]
  have log: "recorded now c k p rt \<in> set (stored_log SessionColumn (rt_session_id rt) st1)"
    if "st_events st1 = st_events st @ [\<lparr>er_session_id = te_session_id (recorded now c k p rt),
            er_command_id = te_command_id (recorded now c k p rt),
            er_sequence = te_sequence (recorded now c k p rt),
            er_timestamp = te_timestamp (recorded now c k p rt),
            er_stream = stream_text (te_stream (recorded now c k p rt)),
            er_payload = te_payload (recorded now c k p rt)\<rparr>]"
    unfolding stored_log_def that by (simp add: event_from_row_def recorded_def)
  have new: "log_inv rt' st'" by (rule log_inv_record[OF assms])
  then have small: "event_bytes (rt_live_events rt') \<le> LIVE_TAIL_BYTES"
    by (simp add: log_inv_def live_ok_def)
  from run app show ?thesis
  proof (cases rule: record_event_cases)
    case stored
    then have "isl res \<or> recorded now c k p rt \<in> set (stored_log SessionColumn (rt_session_id rt) st1)"
      using out log by (cases res) auto
    then show ?thesis
      using stored app new small wrapping_add_i64[OF room] by auto
  next
    case (live kept lost)
    then have "e = (recorded now c k p rt)\<lparr>te_persisted := False\<rparr>" using out by auto
    then have "\<exists>lost kept. rt_live_events rt @ [(recorded now c k p rt)\<lparr>te_persisted := False\<rparr>] = lost @ kept
        \<and> rt_live_events rt' = kept \<and> rt_recording_truncated rt'
        \<and> (rt_live_tail_dropped rt' \<longleftrightarrow> rt_live_tail_dropped rt \<or> lost \<noteq> [])"
      using live by (intro exI[of _ lost] exI[of _ kept]) simp
    then show ?thesis
      using live(3) new small wrapping_add_i64[OF room] by simp
  qed
qed

definition sample_runtime :: runtime where
  "sample_runtime =
     \<lparr>rt_session_id = ''s'', rt_info = sample_session, rt_connection = Some 0,
      rt_foreground = None, rt_background = [], rt_sequence = 2, rt_recording_truncated = False,
      rt_live_tail_dropped = False, rt_last_activity = 0, rt_last_output_at = None,
      rt_live_events = [], rt_version = 0\<rparr>"

lemma sample_log_inv: "log_inv sample_runtime sample_storage"
  using sample_storage_inv
  by (auto simp: log_inv_def live_ok_def stored_below_def sample_runtime_def sample_storage_rows
      i64_limit_def LIVE_TAIL_BYTES_def)

theorem record_event_keeps_witness:
  "log_inv (fst (record_event 9 None Pty ''x'' sample_runtime sample_storage))
     (snd (record_event 9 None Pty ''x'' sample_runtime sample_storage))
   \<and> rt_sequence (fst (record_event 9 None Pty ''x'' sample_runtime sample_storage)) = 3"
proof -
  have "Suc (rt_sequence sample_runtime) < i64_limit" by (simp add: sample_runtime_def i64_limit_def)
  moreover have "event_command_ok (recorded 9 None Pty ''x'' sample_runtime) sample_storage"
    by (simp add: event_command_ok_def)
  ultimately show ?thesis
    using record_event_keeps[OF sample_log_inv _ _ surjective_pairing, of 9 None Pty "''x''"]
    by (auto simp: sample_runtime_def)
qed

text \<open>
  C40: Output is lost without a trace when the database refuses its row: \<open>record\<close> ignores the
  error, and because the event is marked as stored before the row is written it does not enter
  the in-memory tail either. The sequence number is spent, and neither the flag for truncated
  recording nor the one for a dropped tail is set, so no page and no warning shows the loss.
\<close>

theorem refused_output_lost:
  assumes "isl (conn SqlRecordedBytes st) \<or> isl (conn SqlInsertEvent st)
    \<and> (\<forall>s \<in> set (st_sessions st). sr_id s = rt_session_id rt \<longrightarrow>
          saturating_add (sr_recorded_bytes s) (length d) \<le> st_recording_limit_bytes st)"
  shows "record_event now c k d rt st =
    (rt\<lparr>rt_sequence := wrapping_add (rt_sequence rt) 1, rt_last_activity := now,
        rt_last_output_at := Some now, rt_version := wrapping_add (rt_version rt) 1\<rparr>, st)"
proof -
  let ?e = "recorded now c k d rt"
  have e: "te_persisted ?e" "te_session_id ?e = rt_session_id rt" "te_payload ?e = d" by (simp_all add: recorded_def)
  have "\<exists>er. append_event ?e st = (Inl er, ?e, st)"
  proof (cases "isl (conn SqlRecordedBytes st) \<or> find (\<lambda>r. sr_id r = te_session_id ?e) (st_sessions st) = None")
    case True
    then show ?thesis by (auto simp: append_event_def split: sum.split option.split)
  next
    case False
    then obtain s where s: "conn SqlRecordedBytes st = Inr ()" "find (\<lambda>r. sr_id r = te_session_id ?e) (st_sessions st) = Some s"
      by (cases "conn SqlRecordedBytes st") auto
    then have "\<not> over_limit st (sr_recorded_bytes s) ?e" and refused: "isl (conn SqlInsertEvent st)"
      using assms e by (auto simp: over_limit_def find_Some_iff not_less)
    moreover obtain er where "conn SqlInsertEvent st = Inl er" using refused by (cases "conn SqlInsertEvent st") auto
    moreover have "?e\<lparr>te_persisted := True\<rparr> = ?e" by (simp add: recorded_def)
    ultimately show ?thesis using s by (simp add: append_event_def insert_event_def then_sql_def)
  qed
  with e(1) obtain er e' where "append_event ?e st = (Inl er, e', st)" "te_persisted e'" by blast
  then show ?thesis by (simp add: record_event_def Let_def send_modify_def)
qed

theorem refused_output_lost_witness:
  "rt_live_events (fst (record_event 9 None Pty ''x'' sample_runtime (sample_storage\<lparr>st_fault := \<lambda>_. Some Lock\<rparr>))) = []"
  using refused_output_lost[of "sample_storage\<lparr>st_fault := \<lambda>_. Some Lock\<rparr>" sample_runtime "''x''" 9 None Pty]
  by (simp add: conn_def sample_runtime_def)

section \<open>Reading the log page by page\<close>

lemma live_loop_prefix:
  assumes "live_loop limit es sz live = (out, held)"
  shows "\<exists>a b. live = a @ b \<and> out = es @ a \<and> (held \<longleftrightarrow> b \<noteq> []) \<and> (es = [] \<and> live \<noteq> [] \<longrightarrow> a \<noteq> [])"
  using assms
proof (induction limit es sz live rule: live_loop.induct)
  case (2 limit es sz e live)
  show ?case
  proof (cases "es \<noteq> [] \<and> sz + length (te_payload e) > limit")
    case True
    then show ?thesis using "2.prems" by (intro exI[of _ "[]"] exI[of _ "e # live"]) auto
  next
    case False
    then have "live_loop limit (es @ [e]) (sz + length (te_payload e)) live = (out, held)"
      using "2.prems" by (simp split: if_splits)
    from "2.IH"[OF False this] obtain a b where
      "live = a @ b" "out = (es @ [e]) @ a" "held \<longleftrightarrow> b \<noteq> []" by blast
    then show ?thesis by (intro exI[of _ "e # a"] exI[of _ b]) simp
  qed
qed simp

definition live_matches :: "event_column \<Rightarrow> str \<Rightarrow> terminal_event \<Rightarrow> bool" where
  "live_matches column i e = (case column of CommandColumn \<Rightarrow> te_command_id e = Some i | SessionColumn \<Rightarrow> True)"

text \<open>
  A merged page: a stored page continued with the tail, for a command or for the session. The
  order the page code relies on is that every stored event comes before every event of the tail.
\<close>

type_synonym merged_query = "storage \<times> terminal_event list \<times> event_column \<times> str \<times> nat"

definition merged_log :: "merged_query \<Rightarrow> terminal_event list" where
  "merged_log q = (case q of (st, live, column, i, limit) \<Rightarrow>
     stored_log column i st @ filter (live_matches column i) live)"

definition merged_page :: "merged_query \<Rightarrow> nat \<Rightarrow> terminal_event list \<times> bool" where
  "merged_page q after = (case q of (st, live, column, i, limit) \<Rightarrow>
     (case query_page (st, column, i, limit) after of (es, held) \<Rightarrow>
        append_live es held live after limit
          (case column of CommandColumn \<Rightarrow> Some i | SessionColumn \<Rightarrow> None)))"

definition stored_first :: "merged_query \<Rightarrow> bool" where
  "stored_first q = (case q of (st, live, column, i, limit) \<Rightarrow>
     st_inv st \<and> st_fault st SqlEvents = None \<and> sorted_wrt (<) (map te_sequence live)
   \<and> (\<forall>e \<in> set live. te_sequence e < i64_limit)
   \<and> (\<forall>s \<in> set (stored_log column i st). \<forall>e \<in> set live. te_sequence s < te_sequence e))"

lemma merged_ascending:
  assumes "stored_first q"
  shows "sorted_wrt (<) (map te_sequence (merged_log q))"
proof -
  obtain st live column i limit where q: "q = (st, live, column, i, limit)" by (cases q) auto
  show ?thesis
    using assms stored_log_ascending[of st column i] strict_sorted_key_filter[of te_sequence live]
    by (auto simp: q merged_log_def stored_first_def sorted_wrt_append)
qed

lemma merged_page_prefix:
  assumes first: "stored_first q" and after: "after < i64_limit" and page: "merged_page q after = (es, held)"
  shows "\<exists>rest. filter (\<lambda>e. after < te_sequence e) (merged_log q) = es @ rest
    \<and> (held \<longleftrightarrow> rest \<noteq> []) \<and> (es = [] \<longrightarrow> rest = [])"
proof -
  obtain st live column i limit where q: "q = (st, live, column, i, limit)" by (cases q) auto
  let ?live = "filter (\<lambda>e. after < te_sequence e \<and> live_matches column i e) live"
  have pending: "filter (\<lambda>e. after < te_sequence e) (merged_log q) =
      filter (\<lambda>e. after < te_sequence e) (stored_log column i st) @ ?live"
    by (simp add: merged_log_def q conj_commute)
  obtain es0 held0 where page0: "query_page (st, column, i, limit) after = (es0, held0)" by fastforce
  obtain rest0 where rest0: "filter (\<lambda>e. after < te_sequence e) (stored_log column i st) = es0 @ rest0"
    "held0 \<longleftrightarrow> rest0 \<noteq> []" "es0 = [] \<longrightarrow> rest0 = []"
    using query_page_prefix[OF _ after page0] first by (auto simp: q stored_first_def query_log_def)
  show ?thesis
  proof (cases held0)
    case True
    then have "es = es0" "held" using page page0 by (auto simp: merged_page_def q append_live_def)
    then show ?thesis using pending rest0 True by (intro exI[of _ "rest0 @ ?live"]) auto
  next
    case False
    have filters: "filter (\<lambda>e. te_sequence e > after \<and> (case (case column of CommandColumn \<Rightarrow> Some i
        | SessionColumn \<Rightarrow> None) of None \<Rightarrow> True | Some j \<Rightarrow> te_command_id e = Some j)) live = ?live"
      by (rule filter_cong) (auto simp: live_matches_def split: event_column.split)
    obtain out held' where loop: "live_loop limit es0 (event_bytes es0) ?live = (out, held')" by fastforce
    obtain a b where ab: "?live = a @ b" "out = es0 @ a" "held' \<longleftrightarrow> b \<noteq> []" "es0 = [] \<and> ?live \<noteq> [] \<longrightarrow> a \<noteq> []"
      using live_loop_prefix[OF loop] by blast
    have all: "filter (\<lambda>e. after < te_sequence e) (merged_log q) = out @ b"
      using pending rest0 False ab by simp
    then have "sorted_wrt (<) (map te_sequence (out @ b))"
      using strict_sorted_key_filter[OF merged_ascending[OF first]] by metis
    then have "sort_key te_sequence out = out"
      by (intro sorted_strict_sort_key) (simp add: sorted_wrt_append)
    then have "es = out" "held = held'"
      using page page0 False loop unfolding merged_page_def q append_live_def by (simp_all add: filters)
    then show ?thesis using all ab by (intro exI[of _ b]) auto
  qed
qed

interpretation merged: page_reader stored_first merged_log te_sequence merged_page i64_limit
proof (unfold_locales, goal_cases)
  case (1 q)
  then show ?case by (rule merged_ascending)
next
  case (2 q e)
  then show ?case
    by (auto simp: merged_log_def stored_first_def stored_log_def st_inv_def st_keys_def split: prod.splits)
next
  case (3 q after es held)
  then show ?case using merged_page_prefix[OF 3] by blast
next
  case (4 q after es held)
  then show ?case using merged_page_prefix[OF 4(1-3)] by auto
qed

text \<open>A client that follows a command's output with the cursor of each page.\<close>

fun drain_command :: "nat \<Rightarrow> (str \<Rightarrow> str) \<Rightarrow> (str \<Rightarrow> runtime option) \<Rightarrow> str \<Rightarrow> nat \<Rightarrow> nat \<Rightarrow> storage
    \<Rightarrow> terminal_event list option" where
  "drain_command 0 dbg lookup i after limit st = None"
| "drain_command (Suc fuel) dbg lookup i after limit st =
     (case read_command_page dbg lookup i after limit st of
        Inl e \<Rightarrow> None
      | Inr p \<Rightarrow>
          if cp_more p
          then map_option (\<lambda>rest. cp_events p @ rest)
                 (drain_command fuel dbg lookup i (te_sequence (last (cp_events p))) limit st)
          else Some (cp_events p))"

lemma read_command_page_merged:
  assumes "st_fault st SqlEvents = None" "command i st = Inr (Some c)" "lookup (ci_session_id c) = Some rt" "after < i64_limit"
  shows "read_command_page dbg lookup i after limit st =
    (case merged_page (st, rt_live_events rt, CommandColumn, i, limit) after of (es, held) \<Rightarrow>
       Inr \<lparr>cp_command = c, cp_events = es, cp_more = held, cp_runtime = Some rt\<rparr>)"
  using assms events_eq[OF assms(1,4), of CommandColumn i limit]
  by (simp add: read_command_page_def load_command_def events_for_command_def merged_page_def
      query_page_def split: prod.splits)

text \<open>
  C4: Following a command's output by the cursor of each page loses and repeats nothing, as long
  as every stored event of the command precedes the tail: with any page size, from any cursor,
  the reading ends and yields exactly the stored events after the cursor followed by those of the
  tail, each once, in order.
\<close>

theorem command_output_complete:
  assumes "log_inv rt st" "st_fault st SqlEvents = None" "command i st = Inr (Some c)"
    and "lookup (ci_session_id c) = Some rt"
    and "\<forall>s \<in> set (stored_log CommandColumn i st). \<forall>e \<in> set (rt_live_events rt). te_sequence s < te_sequence e"
    and "after < i64_limit"
  shows "drain_command (Suc (length (stored_log CommandColumn i st) + length (rt_live_events rt)))
      dbg lookup i after limit st =
    Some (filter (\<lambda>e. after < te_sequence e)
      (stored_log CommandColumn i st @ filter (\<lambda>e. te_command_id e = Some i) (rt_live_events rt)))"
proof -
  let ?q = "(st, rt_live_events rt, CommandColumn, i, limit)"
  have first: "stored_first ?q"
    using assms(1,2,5) by (auto simp: stored_first_def log_inv_def live_ok_def)
  have pending: "merged.pending ?q a = filter (\<lambda>e. a < te_sequence e)
      (stored_log CommandColumn i st @ filter (\<lambda>e. te_command_id e = Some i) (rt_live_events rt))" for a
    by (simp add: merged.pending_def merged_log_def live_matches_def)
  have len: "length (merged.pending ?q after)
      < Suc (length (stored_log CommandColumn i st) + length (rt_live_events rt))"
    using length_filter_le[of "\<lambda>e. after < te_sequence e" "stored_log CommandColumn i st"]
      length_filter_le[of "\<lambda>e. after < te_sequence e" "filter (\<lambda>e. te_command_id e = Some i) (rt_live_events rt)"]
      length_filter_le[of "\<lambda>e. te_command_id e = Some i" "rt_live_events rt"]
    unfolding pending filter_append length_append by linarith
  have "drain_command (Suc (length (stored_log CommandColumn i st) + length (rt_live_events rt)))
      dbg lookup i after limit st = Some (merged.pending ?q after)"
    by (rule merged.drain_all[where loop = "\<lambda>fuel a. drain_command fuel dbg lookup i a limit st",
          OF _ first assms(6) len])
      (simp add: read_command_page_merged[where lookup = lookup, OF assms(2,3,4)] split: prod.split)
  then show ?thesis unfolding pending .
qed

definition sample_log :: "runtime \<times> storage" where
  "sample_log = record_event 9 (Some ''c'') Stdout ''hi'' sample_runtime
     (snd (insert_command sample_command sample_storage))"

lemmas log_eval = storage_eval record_event_def recorded_def sample_runtime_def sample_session_def
  sample_event_def sample_command_def insert_command_def send_modify_def wrapping_add_def Let_def

lemma sample_log_rows:
  "st_events (snd sample_log) = st_events sample_storage @ [\<lparr>er_session_id = ''s'', er_command_id = Some ''c'',
      er_sequence = 3, er_timestamp = 9, er_stream = ''stdout'', er_payload = ''hi''\<rparr>]"
  "healthy (snd sample_log)" "rt_live_events (fst sample_log) = []"
  "map (\<lambda>r. (cr_id r, cr_status r)) (st_commands (snd sample_log)) = [(''c'', ''running'')]"
  by (simp_all add: sample_log_def sample_storage_def log_eval healthy_def)

lemma sample_log_sound: "log_inv (fst sample_log) (snd sample_log)"
proof -
  let ?st = "snd (insert_command sample_command sample_storage)"
  have inv: "st_inv ?st" using st_inv_insert_command[OF sample_storage_inv] by (simp add: sample_command_def)
  have evs: "st_events ?st = st_events sample_storage"
    by (cases rule: insert_command_cases[of sample_command sample_storage]) auto
  have log: "log_inv sample_runtime ?st"
    using sample_log_inv inv evs by (auto simp: log_inv_def stored_below_def)
  have ok: "event_command_ok (recorded 9 (Some ''c'') Stdout ''hi'' sample_runtime) ?st"
    by (cases rule: insert_command_cases[of sample_command sample_storage])
      (auto simp: event_command_ok_def sample_storage_tables sample_command_def sample_runtime_def)
  have "Suc (rt_sequence sample_runtime) < i64_limit" by (simp add: sample_runtime_def i64_limit_def)
  from log_inv_record[OF log this ok] show ?thesis by (simp add: sample_log_def)
qed

lemma sample_stored_log:
  "stored_log CommandColumn ''c'' (snd sample_log) =
    [\<lparr>te_session_id = ''s'', te_command_id = Some ''c'', te_sequence = 3, te_timestamp = 9,
      te_stream = Stdout, te_payload = ''hi'', te_persisted = True\<rparr>]"
  by (simp add: stored_log_def sample_log_rows sample_storage_rows event_from_row_def
      parse_enum_def enum_stream_kind_def)

theorem command_output_complete_witness:
  "map_option (map te_payload) (drain_command 2 id (\<lambda>_. Some (fst sample_log)) ''c'' 0 1 (snd sample_log))
     = Some [''hi'']"
proof -
  obtain r where r: "st_commands (snd sample_log) = [r]" "cr_id r = ''c''"
    using sample_log_rows(4) by (auto simp: map_eq_Cons_conv)
  then have c: "command ''c'' (snd sample_log) = Inr (Some (command_from_row r))"
    using sample_log_rows(2) by (simp add: command_def conn_def)
  note log = sample_stored_log
  have "drain_command (Suc (Suc 0)) id (\<lambda>_. Some (fst sample_log)) ''c'' 0 1 (snd sample_log) =
      Some (stored_log CommandColumn ''c'' (snd sample_log))"
    using command_output_complete[OF sample_log_sound _ c refl _ _, of 0 id 1]
    by (simp add: sample_log_rows log i64_limit_def)
  then show ?thesis by (simp add: log numeral_2_eq_2)
qed

text \<open>
  A session whose recording is nearly full: an event that no longer fits goes to the tail, and a
  smaller later one is still stored behind it.
\<close>

definition full_log :: "runtime \<times> storage" where
  "full_log =
     (case record_event 1 None Pty (replicate 1048575 (CHR ''a'')) (sample_runtime\<lparr>rt_sequence := 0\<rparr>)
             (snd (upsert_session sample_session (open_storage [] [] [] 1))) of
        (rt1, st1) \<Rightarrow> (case record_event 2 None Pty ''hello'' rt1 st1 of
        (rt2, st2) \<Rightarrow> record_event 3 None Pty ''x'' rt2 st2))"

lemma full_log_rows:
  "st_events (snd full_log) =
     [\<lparr>er_session_id = ''s'', er_command_id = None, er_sequence = 1, er_timestamp = 1,
       er_stream = ''pty'', er_payload = replicate 1048575 (CHR ''a'')\<rparr>,
      \<lparr>er_session_id = ''s'', er_command_id = None, er_sequence = 3, er_timestamp = 3,
       er_stream = ''pty'', er_payload = ''x''\<rparr>]"
  "healthy (snd full_log)" "st_commands (snd full_log) = []"
  "rt_live_events (fst full_log) = [\<lparr>te_session_id = ''s'', te_command_id = None, te_sequence = 2,
     te_timestamp = 2, te_stream = Pty, te_payload = ''hello'', te_persisted = False\<rparr>]"
  by (simp_all add: full_log_def log_eval LIVE_TAIL_BYTES_def healthy_def)

text \<open>
  C32: A client that follows the cursor can miss output that is still available. The comment of
  \<open>append_live\<close> says that stored events are always the earlier part of the sequence; after an
  event that exceeded the recording limit a smaller one is stored behind it, the page stops
  before the earlier event of the tail for lack of room, and the cursor it returns is past it.
\<close>

theorem cursor_skips_live_event:
  "map (\<lambda>e. (te_sequence e, te_payload e)) (rt_live_events (fst full_log)) = [(2, ''hello'')]
   \<and> map_sum id (\<lambda>(cs, es, held, rt). (map te_sequence es, held))
       (read_shell_page (\<lambda>_. Some (fst full_log)) ''s'' 1 4 (snd full_log)) = Inr ([3], True)
   \<and> map_sum id (\<lambda>(cs, es, held, rt). (map te_sequence es, held))
       (read_shell_page (\<lambda>_. Some (fst full_log)) ''s'' 3 4 (snd full_log)) = Inr ([], False)"
proof (intro conjI)
  note eval = read_shell_page_def events_for_session_def events_def conn_def to_sql_u64_def i64_limit_def
    PAGE_EVENTS_def full_log_rows latest_command_for_session_def order_desc_def append_live_def
    event_from_row_def id_set_def map_filter_def
  show "map (\<lambda>e. (te_sequence e, te_payload e)) (rt_live_events (fst full_log)) = [(2, ''hello'')]"
    by (simp add: full_log_rows)
  show "map_sum id (\<lambda>(cs, es, held, rt). (map te_sequence es, held))
      (read_shell_page (\<lambda>_. Some (fst full_log)) ''s'' 1 4 (snd full_log)) = Inr ([3], True)"
    by (simp add: eval)
  show "map_sum id (\<lambda>(cs, es, held, rt). (map te_sequence es, held))
      (read_shell_page (\<lambda>_. Some (fst full_log)) ''s'' 3 4 (snd full_log)) = Inr ([], False)"
    by (simp add: eval)
qed

section \<open>Polling\<close>

lemma page_loop_set: "set (fst (page_loop m res sz rows)) \<subseteq> set res \<union> set rows"
  by (induction m res sz rows rule: page_loop.induct) auto

lemma live_loop_set: "set (fst (live_loop limit es sz live)) \<subseteq> set es \<union> set live"
  by (induction limit es sz live rule: live_loop.induct) auto

lemma events_after:
  assumes "events column i after m st = Inr (es, held)" "e \<in> set es"
  shows "after < te_sequence e"
proof -
  let ?rows = "map event_from_row (take (PAGE_EVENTS + 1) (sort_key er_sequence
      (filter (\<lambda>r. column_is column i r \<and> er_sequence r > after) (st_events st))))"
  have "es = fst (page_loop m [] 0 ?rows)"
    using assms(1) by (auto simp: events_def to_sql_u64_def split: sum.splits if_splits)
  then have "e \<in> set ?rows" using assms(2) page_loop_set[of m "[]" 0 ?rows] by auto
  then show ?thesis by (auto dest: in_set_takeD)
qed

lemma append_live_after:
  assumes "append_live es held live after limit c = (es', held')" "\<And>e. e \<in> set es \<Longrightarrow> after < te_sequence e"
    and "e \<in> set es'"
  shows "after < te_sequence e"
proof (cases held)
  case False
  let ?live = "filter (\<lambda>e. te_sequence e > after
      \<and> (case c of None \<Rightarrow> True | Some i \<Rightarrow> te_command_id e = Some i)) live"
  have "set es' = set (fst (live_loop limit es (event_bytes es) ?live))"
    using assms(1) False by (auto simp: append_live_def split: prod.splits)
  then show ?thesis using live_loop_set[of limit es "event_bytes es" ?live] assms(2,3) by auto
qed (use assms in \<open>simp add: append_live_def\<close>)

text \<open>
  A page never goes backwards. Every event of a page comes after the cursor it was asked for,
  the cursor in the response is the last of them, so it is larger exactly when the page has
  events, and the response calls the delivery complete only for a finished command with nothing
  held back.
\<close>

theorem poll_cursor_advances:
  assumes "read_command_page dbg lookup i after limit st = Inr p"
    and "events_response (Some (cp_command p)) [] (cp_events p) after (cp_more p) ws pr = R_Events page"
  shows "list_all (\<lambda>e. after < te_sequence e) (cp_events p)
    \<and> after \<le> ev_next_sequence page \<and> (after < ev_next_sequence page \<longleftrightarrow> cp_events p \<noteq> [])
    \<and> (ev_delivery_complete page \<longleftrightarrow> ci_status (cp_command p) \<noteq> C_Running \<and> \<not> ev_has_more page)"
proof -
  obtain c es held where parts: "load_command dbg i st = Inr c"
    "events_for_command i after limit st = Inr (es, held)"
    using assms(1) by (auto simp: read_command_page_def split: sum.splits)
  have stored: "\<And>e. e \<in> set es \<Longrightarrow> after < te_sequence e"
    using events_after parts(2) unfolding events_for_command_def by blast
  have all: "after < te_sequence e" if "e \<in> set (cp_events p)" for e
  proof (cases "lookup (ci_session_id c)")
    case None
    then show ?thesis using assms(1) parts stored that by (auto simp: read_command_page_def)
  next
    case (Some rt)
    obtain es' held' where live: "append_live es held (rt_live_events rt) after limit (Some i) = (es', held')"
      by fastforce
    then have "cp_events p = es'" using assms(1) parts Some by (auto simp: read_command_page_def)
    then show ?thesis using append_live_after[OF live stored] that by blast
  qed
  have page: "ev_next_sequence page = (if cp_events p = [] then after else te_sequence (last (cp_events p)))"
    "ev_has_more page = cp_more p"
    "ev_delivery_complete page \<longleftrightarrow> ci_status (cp_command p) \<noteq> C_Running \<and> \<not> cp_more p"
    using assms(2) by (auto simp: events_response_def)
  show ?thesis
    using all page by (auto simp: list_all_iff less_imp_le)
qed

text \<open>
  A poll that returns has something to say: its page carries events, or says that more are
  waiting, or the command is no longer running, or the caller did not want to wait, or the answer
  is marked as timed out.
\<close>

theorem command_poll_not_idle:
  assumes "command_poll dbg sub started budget i after limit rounds = Some (Inr page)"
  shows "pp_events page \<noteq> [] \<or> pp_more page \<or> ci_status (pp_command page) \<noteq> C_Running
    \<or> budget = 0 \<or> ep_timed_out (pp_progress page)"
  using assms
  by (induction dbg sub started budget i after limit rounds rule: command_poll.induct)
    (auto simp: finish_poll_def progress_for_def quiet_def Let_def split: sum.splits if_splits list.splits)

text \<open>
  C31: A poll ends. As soon as one page is read after the budget has passed, or a wait ends without
  a new version, the next page read answers the caller, whatever happened before.
\<close>

theorem command_poll_ends:
  assumes "k < length rounds" "started + budget \<le> pr_now (rounds ! k) \<or> \<not> pr_changed (rounds ! k)"
  shows "command_poll dbg sub started budget i after limit (rounds @ [r]) \<noteq> None"
  using assms
proof (induction rounds arbitrary: k)
  case (Cons q rounds)
  show ?case
  proof (cases k)
    case 0
    then show ?thesis using Cons.prems by (cases rounds) (auto split: sum.split)
  next
    case (Suc j)
    then have "command_poll dbg sub started budget i after limit (rounds @ [r]) \<noteq> None"
      using Cons by simp
    then show ?thesis by (cases rounds) (auto split: sum.split)
  qed
qed simp

lemma sample_page:
  obtains p where "read_command_page id (\<lambda>_. None) ''c'' 0 1 (snd sample_log) = Inr p"
    "map te_sequence (cp_events p) = [3]" "ci_status (cp_command p) = C_Running" "\<not> quiet p"
proof -
  obtain r where r: "st_commands (snd sample_log) = [r]" "cr_id r = ''c''" "cr_status r = ''running''"
    using sample_log_rows(4) by (auto simp: map_eq_Cons_conv)
  then have c: "command ''c'' (snd sample_log) = Inr (Some (command_from_row r))"
    "ci_status (command_from_row r) = C_Running"
    using sample_log_rows(2)
    by (simp_all add: command_def conn_def command_from_row_def parse_enum_def enum_command_status_def)
  have "events CommandColumn ''c'' 0 1 (snd sample_log) = Inr (stored_log CommandColumn ''c'' (snd sample_log), False)"
    by (subst events_eq) (simp_all add: sample_log_rows(2) i64_limit_def sample_stored_log PAGE_EVENTS_def)
  then show ?thesis
    using c that by (simp add: read_command_page_def load_command_def events_for_command_def
        sample_stored_log quiet_def)
qed

theorem poll_cursor_advances_witness:
  "\<exists>(p :: command_page) (page :: events_page). events_response (Some (cp_command p)) [] (cp_events p) 0 (cp_more p) [] event_progress_default
       = R_Events page \<and> 0 < ev_next_sequence page"
proof -
  obtain p where p: "read_command_page id (\<lambda>_. None) ''c'' 0 1 (snd sample_log) = Inr p"
    "map te_sequence (cp_events p) = [3]" "ci_status (cp_command p) = C_Running" "\<not> quiet p"
    by (rule sample_page)
  obtain page where page: "events_response (Some (cp_command p)) [] (cp_events p) 0 (cp_more p) []
      event_progress_default = R_Events page" by (simp add: events_response_def)
  have "cp_events p \<noteq> []" using p(2) by auto
  then have "0 < ev_next_sequence page" using poll_cursor_advances[OF p(1) page] by blast
  then show ?thesis using page by blast
qed

definition sample_round :: poll_round where
  "sample_round = \<lparr>pr_lookup = (\<lambda>_. None), pr_storage = snd sample_log, pr_now = 5, pr_changed = False\<rparr>"

theorem command_poll_not_idle_witness:
  "\<exists>page. command_poll id True 0 9 ''c'' 0 1 [sample_round] = Some (Inr page) \<and> pp_events page \<noteq> []"
proof -
  obtain p where p: "read_command_page id (\<lambda>_. None) ''c'' 0 1 (snd sample_log) = Inr p"
    "map te_sequence (cp_events p) = [3]" "ci_status (cp_command p) = C_Running" "\<not> quiet p"
    by (rule sample_page)
  then have run: "command_poll id True 0 9 ''c'' 0 1 [sample_round] = Some (Inr (finish_poll 5 p 0 False 0))"
    by (simp add: sample_round_def)
  show ?thesis
    using command_poll_not_idle[OF run] run p(2) by (auto simp: finish_poll_def Let_def)
qed

theorem command_poll_ends_witness:
  "command_poll id True 0 9 ''c'' 0 1 ([sample_round] @ [sample_round]) \<noteq> None"
  by (rule command_poll_ends[of 0]) (simp_all add: sample_round_def)

end
