(* ===== verification/Config.thy ===== *)
theory Config
  imports Rust_Str
begin

text \<open>
  The configuration of \<open>crates/config/src/lib.rs\<close> and the owner-only modes of
  \<open>permissions.rs\<close> (Unix). Files are a map from paths to nodes with a mode; the record also
  holds, as arguments of the model, the faults the operating system may raise at each call, how
  many bytes of a failing write reach the file, the resolution of symbolic links and the mode
  the umask gives to a new node. The TOML reader and writer are arguments too.
\<close>

section \<open>Files\<close>

datatype node = Dir (node_mode: nat) | Reg (node_mode: nat) (node_data: bytes)

datatype fs_call = CreateDir | SetMode | Meta | ReadText | OpenTemp | WriteAll | SyncAll | Rename

record fsys =
  fx_nodes :: "str \<Rightarrow> node option"
  fx_fault :: "fs_call \<Rightarrow> str \<Rightarrow> str option"
  fx_short :: nat
  fx_canonicalize :: "str \<Rightarrow> str + str"
  fx_new_mode :: nat

definition join_path :: "str \<Rightarrow> str \<Rightarrow> str" where
  "join_path a b =
     (if starts_with b ''/'' then b
      else if a = [] \<or> ends_with a ''/'' then a @ b
      else a @ ''/'' @ b)"

text \<open>\<open>Path::starts_with\<close>: whole components.\<close>

definition path_starts_with :: "str \<Rightarrow> str \<Rightarrow> bool" where
  "path_starts_with p base \<longleftrightarrow> p = base \<or> starts_with p (base @ ''/'')"

definition with_mode :: "nat \<Rightarrow> node \<Rightarrow> node" where
  "with_mode m n = (case n of Dir _ \<Rightarrow> Dir m | Reg _ d \<Rightarrow> Reg m d)"

definition put_node :: "str \<Rightarrow> node \<Rightarrow> fsys \<Rightarrow> fsys" where
  "put_node p n fs = fs\<lparr>fx_nodes := (fx_nodes fs)(p := Some n)\<rparr>"

definition create_dir_all :: "str \<Rightarrow> fsys \<Rightarrow> (str + unit) \<times> fsys" where
  "create_dir_all p fs =
     (case fx_fault fs CreateDir p of
        Some e \<Rightarrow> (Inl e, fs)
      | None \<Rightarrow>
        (case fx_nodes fs p of
           None \<Rightarrow> (Inr (), put_node p (Dir (fx_new_mode fs)) fs)
         | Some (Dir _) \<Rightarrow> (Inr (), fs)
         | Some (Reg _ _) \<Rightarrow> (Inl ''File exists (os error 17)'', fs)))"

definition restrict :: "str \<Rightarrow> nat \<Rightarrow> fsys \<Rightarrow> (str + unit) \<times> fsys" where
  "restrict p m fs =
     (case fx_fault fs SetMode p of
        Some e \<Rightarrow> (Inl e, fs)
      | None \<Rightarrow>
        (case fx_nodes fs p of
           None \<Rightarrow> (Inl ''No such file or directory (os error 2)'', fs)
         | Some n \<Rightarrow> (Inr (), put_node p (with_mode m n) fs)))"

definition check_mode :: "str \<Rightarrow> nat \<Rightarrow> fsys \<Rightarrow> str + unit" where
  "check_mode p m fs =
     (case fx_fault fs Meta p of
        Some e \<Rightarrow> Inl e
      | None \<Rightarrow>
        (case fx_nodes fs p of
           None \<Rightarrow> Inl ''No such file or directory (os error 2)''
         | Some n \<Rightarrow>
             (let actual = node_mode n mod 512 in
              if actual = m then Inr ()
              else Inl (''expected mode '' @ show_base 8 m @ '', found '' @ show_base 8 actual))))"

definition read_to_string :: "str \<Rightarrow> fsys \<Rightarrow> str + str" where
  "read_to_string p fs =
     (case fx_fault fs ReadText p of
        Some e \<Rightarrow> Inl e
      | None \<Rightarrow>
        (case fx_nodes fs p of
           None \<Rightarrow> Inl ''No such file or directory (os error 2)''
         | Some (Dir _) \<Rightarrow> Inl ''Is a directory (os error 21)''
         | Some (Reg _ d) \<Rightarrow>
             if valid_utf8 d then Inr d else Inl ''stream did not contain valid UTF-8''))"

definition open_truncate :: "str \<Rightarrow> fsys \<Rightarrow> (str + unit) \<times> fsys" where
  "open_truncate p fs =
     (case fx_fault fs OpenTemp p of
        Some e \<Rightarrow> (Inl e, fs)
      | None \<Rightarrow>
        (case fx_nodes fs p of
           None \<Rightarrow> (Inr (), put_node p (Reg (fx_new_mode fs) []) fs)
         | Some (Dir _) \<Rightarrow> (Inl ''Is a directory (os error 21)'', fs)
         | Some (Reg m _) \<Rightarrow> (Inr (), put_node p (Reg m []) fs)))"

text \<open>A write that fails may have written a part of the data.\<close>

definition write_all :: "str \<Rightarrow> bytes \<Rightarrow> fsys \<Rightarrow> (str + unit) \<times> fsys" where
  "write_all p d fs =
     (case fx_nodes fs p of
        Some (Reg m old) \<Rightarrow>
          (case fx_fault fs WriteAll p of
             Some e \<Rightarrow> (Inl e, put_node p (Reg m (old @ take (fx_short fs) d)) fs)
           | None \<Rightarrow> (Inr (), put_node p (Reg m (old @ d)) fs))
      | _ \<Rightarrow> (Inl ''Bad file descriptor (os error 9)'', fs))"

definition sync_all :: "str \<Rightarrow> fsys \<Rightarrow> str + unit" where
  "sync_all p fs = (case fx_fault fs SyncAll p of Some e \<Rightarrow> Inl e | None \<Rightarrow> Inr ())"

definition rename_file :: "str \<Rightarrow> str \<Rightarrow> fsys \<Rightarrow> (str + unit) \<times> fsys" where
  "rename_file from to fs =
     (case fx_fault fs Rename from of
        Some e \<Rightarrow> (Inl e, fs)
      | None \<Rightarrow>
        (case fx_nodes fs from of
           None \<Rightarrow> (Inl ''No such file or directory (os error 2)'', fs)
         | Some n \<Rightarrow>
           (case fx_nodes fs to of
              Some (Dir _) \<Rightarrow> (Inl ''Is a directory (os error 21)'', fs)
            | _ \<Rightarrow> (Inr (), fs\<lparr>fx_nodes := (fx_nodes fs)(from := None, to := Some n)\<rparr>))))"

section \<open>Paths and settings\<close>

datatype config_error =
    NoHome | InsecurePermissions str str | KeyOutsideDirectory str | IoError str
  | ParseError str | SerializeError str | UnsupportedVersion nat | InvalidTarget str
  | InvalidSetting str

record paths =
  pa_root :: str
  pa_config :: str
  pa_keys :: str
  pa_data :: str
  pa_run :: str
  pa_bin :: str
  pa_socket :: str
  pa_database :: str

definition under :: "str \<Rightarrow> paths" where
  "under root =
     (let data = join_path root ''data''; run = join_path root ''run'' in
      \<lparr>pa_root = root, pa_config = join_path root ''config.toml'', pa_keys = join_path root ''keys'',
       pa_data = data, pa_run = run, pa_bin = join_path root ''bin'',
       pa_socket = join_path run ''aisshd.sock'', pa_database = join_path data ''aissh.db''\<rparr>)"

definition home_directory :: "str option \<Rightarrow> config_error + str" where
  "home_directory home = (case home of None \<Rightarrow> Inl NoHome | Some h \<Rightarrow> Inr h)"

definition discover :: "str option \<Rightarrow> str option \<Rightarrow> config_error + paths" where
  "discover aissh_root home =
     (case aissh_root of
        Some root \<Rightarrow>
          if root \<noteq> [] then Inr (under root)
          else (case home_directory home of Inl e \<Rightarrow> Inl e | Inr h \<Rightarrow> Inr (under (join_path h ''.aissh'')))
      | None \<Rightarrow>
          (case home_directory home of Inl e \<Rightarrow> Inl e | Inr h \<Rightarrow> Inr (under (join_path h ''.aissh''))))"

definition endpoint :: "paths \<Rightarrow> str" where
  "endpoint p = pa_socket p"

definition mode_700 :: nat where
  "mode_700 = 448"

definition mode_600 :: nat where
  "mode_600 = 384"

fun ensure_dirs :: "str list \<Rightarrow> fsys \<Rightarrow> (config_error + unit) \<times> fsys" where
  "ensure_dirs [] fs = (Inr (), fs)"
| "ensure_dirs (p # ps) fs =
     (case create_dir_all p fs of
        (Inl e, fs1) \<Rightarrow> (Inl (IoError e), fs1)
      | (Inr _, fs1) \<Rightarrow>
        (case restrict p mode_700 fs1 of
           (Inl e, fs2) \<Rightarrow> (Inl (IoError e), fs2)
         | (Inr _, fs2) \<Rightarrow> ensure_dirs ps fs2))"

definition ensure :: "paths \<Rightarrow> fsys \<Rightarrow> (config_error + unit) \<times> fsys" where
  "ensure p fs = ensure_dirs [pa_root p, pa_keys p, pa_data p, pa_run p, pa_bin p] fs"

datatype auth = Password str | PrivateKey str "str option"

record target =
  tg_id :: str
  tg_name :: str
  tg_host :: str
  tg_port :: nat
  tg_username :: str
  tg_auth :: auth

record config =
  cf_version :: nat
  cf_retention_days :: nat
  cf_idle_timeout_seconds :: nat
  cf_connect_timeout_seconds :: nat
  cf_keepalive_seconds :: nat
  cf_recording_limit_mib :: nat
  cf_reconnect_attempts :: nat
  cf_reconnect_backoff_seconds :: nat
  cf_quit_daemon_on_app_exit :: bool
  cf_launch_at_login :: bool
  cf_targets :: "target list"

text \<open>The values that stand for a missing setting.\<close>

definition default_retention :: nat where
  [simp]: "default_retention = 30"

definition default_idle :: nat where
  [simp]: "default_idle = 1800"

definition default_connect :: nat where
  [simp]: "default_connect = 15"

definition default_keepalive :: nat where
  [simp]: "default_keepalive = 30"

definition default_recording :: nat where
  [simp]: "default_recording = 500"

definition default_reconnect_attempts :: nat where
  [simp]: "default_reconnect_attempts = 1"

definition default_reconnect_backoff :: nat where
  [simp]: "default_reconnect_backoff = 2"

definition default_config :: config where
  "default_config =
     \<lparr>cf_version = 1, cf_retention_days = default_retention, cf_idle_timeout_seconds = default_idle,
      cf_connect_timeout_seconds = default_connect, cf_keepalive_seconds = default_keepalive,
      cf_recording_limit_mib = default_recording, cf_reconnect_attempts = default_reconnect_attempts,
      cf_reconnect_backoff_seconds = default_reconnect_backoff,
      cf_quit_daemon_on_app_exit = False, cf_launch_at_login = False, cf_targets = []\<rparr>"

section \<open>Validation\<close>

definition require_owner_only :: "str \<Rightarrow> nat \<Rightarrow> fsys \<Rightarrow> config_error + unit" where
  "require_owner_only p m fs = map_err (InsecurePermissions p) (check_mode p m fs)"

definition validate_key :: "paths \<Rightarrow> fsys \<Rightarrow> str \<Rightarrow> config_error + unit" where
  "validate_key ps fs path =
     (let key = (if starts_with path ''/'' then path else join_path (pa_keys ps) path) in
      case fx_canonicalize fs key of
        Inl e \<Rightarrow> Inl (IoError e)
      | Inr canonical \<Rightarrow>
        (case fx_canonicalize fs (pa_keys ps) of
           Inl e \<Rightarrow> Inl (IoError e)
         | Inr keys \<Rightarrow>
             if \<not> path_starts_with canonical keys then Inl (KeyOutsideDirectory keys)
             else require_owner_only canonical mode_600 fs))"

fun validate_targets :: "paths \<Rightarrow> fsys \<Rightarrow> str list \<Rightarrow> target list \<Rightarrow> config_error + unit" where
  "validate_targets ps fs ids [] = Inr ()"
| "validate_targets ps fs ids (t # ts) =
     (if tg_id t = [] \<or> tg_name t = [] \<or> tg_host t = [] \<or> tg_username t = [] \<or> tg_port t = 0
         \<or> List.member ids (tg_id t)
      then Inl (InvalidTarget (tg_id t))
      else (case tg_auth t of
              Password _ \<Rightarrow> validate_targets ps fs (tg_id t # ids) ts
            | PrivateKey path _ \<Rightarrow>
                (case validate_key ps fs path of
                   Inl e \<Rightarrow> Inl e
                 | Inr _ \<Rightarrow> validate_targets ps fs (tg_id t # ids) ts)))"

definition validate :: "config \<Rightarrow> paths \<Rightarrow> fsys \<Rightarrow> config_error + unit" where
  "validate c ps fs =
     (if cf_version c \<noteq> 1 then Inl (UnsupportedVersion (cf_version c))
      else if \<not> (1 \<le> cf_retention_days c \<and> cf_retention_days c \<le> 3650)
        then Inl (InvalidSetting ''retention_days'')
      else if cf_idle_timeout_seconds c = 0 then Inl (InvalidSetting ''idle_timeout_seconds'')
      else if cf_connect_timeout_seconds c = 0 then Inl (InvalidSetting ''connect_timeout_seconds'')
      else if cf_keepalive_seconds c = 0 then Inl (InvalidSetting ''keepalive_seconds'')
      else if cf_recording_limit_mib c = 0 then Inl (InvalidSetting ''recording_limit_mib'')
      else if \<not> (1 \<le> cf_reconnect_attempts c \<and> cf_reconnect_attempts c \<le> 10)
        then Inl (InvalidSetting ''reconnect_attempts'')
      else if cf_reconnect_backoff_seconds c > 60
        then Inl (InvalidSetting ''reconnect_backoff_seconds'')
      else validate_targets ps fs [] (cf_targets c))"

section \<open>Loading and saving\<close>

record toml =
  tm_from_str :: "str \<Rightarrow> str + config"
  tm_to_string :: "config \<Rightarrow> str + str"

definition load :: "toml \<Rightarrow> paths \<Rightarrow> fsys \<Rightarrow> config_error + config" where
  "load tm ps fs =
     (case require_owner_only (pa_config ps) mode_600 fs of
        Inl e \<Rightarrow> Inl e
      | Inr _ \<Rightarrow>
        (case read_to_string (pa_config ps) fs of
           Inl e \<Rightarrow> Inl (IoError e)
         | Inr text \<Rightarrow>
           (case tm_from_str tm text of
              Inl e \<Rightarrow> Inl (ParseError e)
            | Inr c \<Rightarrow>
              (case validate c ps fs of Inl e \<Rightarrow> Inl e | Inr _ \<Rightarrow> Inr c))))"

definition temp_path :: "paths \<Rightarrow> str" where
  "temp_path ps = join_path (pa_root ps) ''config.toml.tmp''"

text \<open>The part of \<open>save_atomic\<close> after the validation.\<close>

definition replace_config :: "toml \<Rightarrow> config \<Rightarrow> paths \<Rightarrow> fsys \<Rightarrow> (config_error + unit) \<times> fsys" where
  "replace_config tm c ps fs =
     (let temp = temp_path ps in
      case open_truncate temp fs of
        (Inl e, fs1) \<Rightarrow> (Inl (IoError e), fs1)
      | (Inr _, fs1) \<Rightarrow>
        (case restrict temp mode_600 fs1 of
           (Inl e, fs2) \<Rightarrow> (Inl (IoError e), fs2)
         | (Inr _, fs2) \<Rightarrow>
           (case tm_to_string tm c of
              Inl e \<Rightarrow> (Inl (SerializeError e), fs2)
            | Inr text \<Rightarrow>
              (case write_all temp text fs2 of
                 (Inl e, fs3) \<Rightarrow> (Inl (IoError e), fs3)
               | (Inr _, fs3) \<Rightarrow>
                 (case sync_all temp fs3 of
                    Inl e \<Rightarrow> (Inl (IoError e), fs3)
                  | Inr _ \<Rightarrow>
                    (case rename_file temp (pa_config ps) fs3 of
                       (Inl e, fs4) \<Rightarrow> (Inl (IoError e), fs4)
                     | (Inr _, fs4) \<Rightarrow> (Inr (), fs4)))))))"

definition save_atomic :: "toml \<Rightarrow> config \<Rightarrow> paths \<Rightarrow> fsys \<Rightarrow> (config_error + unit) \<times> fsys" where
  "save_atomic tm c ps fs =
     (case ensure ps fs of
        (Inl e, fs1) \<Rightarrow> (Inl e, fs1)
      | (Inr _, fs1) \<Rightarrow>
        (case validate c ps fs1 of
           Inl e \<Rightarrow> (Inl e, fs1)
         | Inr _ \<Rightarrow> replace_config tm c ps fs1))"

definition ensure_exists :: "toml \<Rightarrow> paths \<Rightarrow> fsys \<Rightarrow> (config_error + bool) \<times> fsys" where
  "ensure_exists tm ps fs =
     (case ensure ps fs of
        (Inl e, fs1) \<Rightarrow> (Inl e, fs1)
      | (Inr _, fs1) \<Rightarrow>
          if fx_nodes fs1 (pa_config ps) \<noteq> None then (Inr False, fs1)
          else (case save_atomic tm default_config ps fs1 of
                  (Inl e, fs2) \<Rightarrow> (Inl e, fs2)
                | (Inr _, fs2) \<Rightarrow> (Inr True, fs2)))"

section \<open>What validation accepts\<close>

definition key_accepted :: "paths \<Rightarrow> fsys \<Rightarrow> str \<Rightarrow> bool" where
  "key_accepted ps fs path \<longleftrightarrow>
     (\<exists>canonical keys n. fx_canonicalize fs (if starts_with path ''/'' then path else join_path (pa_keys ps) path)
        = Inr canonical
      \<and> fx_canonicalize fs (pa_keys ps) = Inr keys \<and> path_starts_with canonical keys
      \<and> fx_fault fs Meta canonical = None \<and> fx_nodes fs canonical = Some n
      \<and> node_mode n mod 512 = mode_600)"

definition target_accepted :: "paths \<Rightarrow> fsys \<Rightarrow> target \<Rightarrow> bool" where
  "target_accepted ps fs t \<longleftrightarrow>
     tg_id t \<noteq> [] \<and> tg_name t \<noteq> [] \<and> tg_host t \<noteq> [] \<and> tg_username t \<noteq> [] \<and> tg_port t \<noteq> 0
   \<and> (case tg_auth t of Password _ \<Rightarrow> True | PrivateKey path _ \<Rightarrow> key_accepted ps fs path)"

lemma check_mode_ok:
  "check_mode p m fs = Inr () \<longleftrightarrow>
    fx_fault fs Meta p = None \<and> (\<exists>n. fx_nodes fs p = Some n \<and> node_mode n mod 512 = m)"
  by (auto simp: check_mode_def Let_def split: option.splits)

lemma validate_key_ok: "validate_key ps fs path = Inr () \<longleftrightarrow> key_accepted ps fs path"
  by (auto simp: validate_key_def key_accepted_def require_owner_only_def check_mode_ok Let_def
      split: sum.splits)

lemma unit_sum: "(case r of Inl e \<Rightarrow> Inl e | Inr (_ :: unit) \<Rightarrow> s) = Inr () \<longleftrightarrow> r = Inr () \<and> s = Inr ()"
  by (cases r) auto

lemma validate_targets_ok:
  "validate_targets ps fs ids ts = Inr () \<longleftrightarrow>
    list_all (target_accepted ps fs) ts \<and> distinct (map tg_id ts)
    \<and> set ids \<inter> tg_id ` set ts = {}"
proof (induction ts arbitrary: ids)
  case (Cons t ts)
  show ?case
  proof (cases "tg_auth t")
    case (PrivateKey path pp)
    then show ?thesis
      by (auto simp: Cons target_accepted_def unit_sum validate_key_ok simp del: validate_targets.simps(1))
  qed (auto simp: Cons target_accepted_def)
qed simp

lemma validate_ok:
  "validate c ps fs = Inr () \<longleftrightarrow>
     cf_version c = 1 \<and> 1 \<le> cf_retention_days c \<and> cf_retention_days c \<le> 3650
   \<and> 0 < cf_idle_timeout_seconds c \<and> 0 < cf_connect_timeout_seconds c
   \<and> 0 < cf_keepalive_seconds c \<and> 0 < cf_recording_limit_mib c
   \<and> 1 \<le> cf_reconnect_attempts c \<and> cf_reconnect_attempts c \<le> 10
   \<and> cf_reconnect_backoff_seconds c \<le> 60
   \<and> distinct (map tg_id (cf_targets c)) \<and> list_all (target_accepted ps fs) (cf_targets c)"
  unfolding validate_def by (auto simp: validate_targets_ok)

text \<open>
  C25: Validation accepts exactly the configurations of version 1 whose numbers are in range and
  whose targets have distinct identifiers, no empty field and, when they name a private key, a
  key that resolves inside the key directory and is readable by its owner only.
\<close>

theorem validate_exact:
  "validate c ps fs = Inr () \<longleftrightarrow>
     cf_version c = 1 \<and> 1 \<le> cf_retention_days c \<and> cf_retention_days c \<le> 3650
   \<and> 0 < cf_idle_timeout_seconds c \<and> 0 < cf_connect_timeout_seconds c
   \<and> 0 < cf_keepalive_seconds c \<and> 0 < cf_recording_limit_mib c
   \<and> 1 \<le> cf_reconnect_attempts c \<and> cf_reconnect_attempts c \<le> 10
   \<and> cf_reconnect_backoff_seconds c \<le> 60
   \<and> distinct (map tg_id (cf_targets c)) \<and> list_all (target_accepted ps fs) (cf_targets c)"
  by (rule validate_ok)

section \<open>What saving guarantees\<close>

lemma put_node_simps [simp]:
  "fx_nodes (put_node p n fs) = (fx_nodes fs)(p := Some n)"
  "fx_fault (put_node p n fs) = fx_fault fs" "fx_short (put_node p n fs) = fx_short fs"
  "fx_canonicalize (put_node p n fs) = fx_canonicalize fs"
  "fx_new_mode (put_node p n fs) = fx_new_mode fs"
  by (simp_all add: put_node_def)

definition same_system :: "fsys \<Rightarrow> fsys \<Rightarrow> bool" where
  "same_system fs fs' \<longleftrightarrow> fx_fault fs' = fx_fault fs \<and> fx_short fs' = fx_short fs
     \<and> fx_canonicalize fs' = fx_canonicalize fs \<and> fx_new_mode fs' = fx_new_mode fs"

lemma create_dir_all_frame:
  "create_dir_all d fs = (r, fs') \<Longrightarrow> same_system fs fs' \<and> (p \<noteq> d \<longrightarrow> fx_nodes fs' p = fx_nodes fs p)"
  by (auto simp: create_dir_all_def same_system_def split: option.splits node.splits)

lemma restrict_frame:
  "restrict d m fs = (r, fs') \<Longrightarrow> same_system fs fs' \<and> (p \<noteq> d \<longrightarrow> fx_nodes fs' p = fx_nodes fs p)"
  by (auto simp: restrict_def same_system_def split: option.splits)

lemma same_system_trans: "same_system a b \<Longrightarrow> same_system b c \<Longrightarrow> same_system a c"
  by (simp add: same_system_def)

lemma ensure_dirs_frame:
  "ensure_dirs ds fs = (r, fs') \<Longrightarrow> same_system fs fs' \<and> (p \<notin> set ds \<longrightarrow> fx_nodes fs' p = fx_nodes fs p)"
proof (induction ds arbitrary: fs)
  case (Cons d ds)
  obtain r1 fs1 where 1: "create_dir_all d fs = (r1, fs1)" by fastforce
  obtain r2 fs2 where 2: "restrict d mode_700 fs1 = (r2, fs2)" by fastforce
  note frames = create_dir_all_frame[OF 1, of p] restrict_frame[OF 2, of p]
  consider "fs' = fs1" | "fs' = fs2" | "ensure_dirs ds fs2 = (r, fs')"
    using Cons.prems 1 2 by (auto split: sum.splits)
  then show ?case
    using frames Cons.IH[of fs2] by cases (auto intro: same_system_trans)
qed (auto simp: same_system_def)

lemma join_path_distinct:
  "\<not> starts_with a ''/'' \<Longrightarrow> \<not> starts_with b ''/'' \<Longrightarrow> join_path r a = join_path r b \<longleftrightarrow> a = b"
  by (auto simp: join_path_def)

lemma join_path_longer: "\<not> starts_with a ''/'' \<Longrightarrow> a \<noteq> [] \<Longrightarrow> join_path r a \<noteq> r"
  by (auto simp: join_path_def)

lemma config_paths_apart:
  assumes "ps = under root"
  shows "temp_path ps \<noteq> pa_config ps"
    "pa_config ps \<notin> {pa_root ps, pa_keys ps, pa_data ps, pa_run ps, pa_bin ps}"
    "temp_path ps \<notin> {pa_root ps, pa_keys ps, pa_data ps, pa_run ps, pa_bin ps}"
  using assms join_path_longer[of "''config.toml''" root] join_path_longer[of "''config.toml.tmp''" root]
  by (auto simp: under_def temp_path_def Let_def join_path_distinct starts_with_def)

text \<open>The outcomes of each call on the temporary file.\<close>

lemma open_truncate_cases:
  "open_truncate p fs = (r, fs') \<Longrightarrow>
    (\<exists>e. r = Inl e \<and> fs' = fs) \<or> (r = Inr () \<and> (\<exists>m. fs' = put_node p (Reg m []) fs))"
  by (auto simp: open_truncate_def split: option.splits node.splits)

lemma restrict_cases:
  "restrict p m (put_node p (Reg m' d) fs) = (r, fs') \<Longrightarrow>
    (\<exists>e. r = Inl e \<and> fs' = put_node p (Reg m' d) fs) \<or> (r = Inr () \<and> fs' = put_node p (Reg m d) fs)"
  by (auto simp: restrict_def with_mode_def put_node_def split: option.splits)

lemma write_all_cases:
  "write_all p d (put_node p (Reg m []) fs) = (r, fs') \<Longrightarrow>
    (\<exists>e k. r = Inl e \<and> fs' = put_node p (Reg m (take k d)) fs) \<or> (r = Inr () \<and> fs' = put_node p (Reg m d) fs)"
  by (auto simp: write_all_def put_node_def split: option.splits)

lemma rename_file_cases:
  "rename_file p q (put_node p n fs) = (r, fs') \<Longrightarrow>
    (\<exists>e. r = Inl e \<and> fs' = put_node p n fs)
    \<or> (r = Inr () \<and> fs' = fs\<lparr>fx_nodes := (fx_nodes fs)(p := None, q := Some n)\<rparr>)"
  by (auto simp: rename_file_def put_node_def split: option.splits node.splits)

lemma replace_config_cases:
  assumes "replace_config tm c ps fs = (r, fs')"
  shows "(\<exists>e. r = Inl e \<and> (fs' = fs \<or> (\<exists>m d. fs' = put_node (temp_path ps) (Reg m d) fs
            \<and> (d = [] \<or> m = mode_600))))
    \<or> (r = Inr () \<and> (\<exists>text. tm_to_string tm c = Inr text
        \<and> fs' = fs\<lparr>fx_nodes := (fx_nodes fs)(temp_path ps := None,
                    pa_config ps := Some (Reg mode_600 text))\<rparr>))"
proof -
  let ?t = "temp_path ps"
  obtain r1 fs1 where 1: "open_truncate ?t fs = (r1, fs1)" by fastforce
  show ?thesis
  proof (cases r1)
    case (Inl e)
    then show ?thesis using assms open_truncate_cases[OF 1] 1 by (auto simp: replace_config_def Let_def)
  next
    case (Inr u)
    then obtain m where m: "fs1 = put_node ?t (Reg m []) fs" using open_truncate_cases[OF 1] by auto
    obtain r2 fs2 where 2: "restrict ?t mode_600 fs1 = (r2, fs2)" by fastforce
    note cases2 = restrict_cases[OF 2[unfolded m]]
    obtain doc where "(\<exists>e. r2 = Inl e) \<or> (\<exists>e. tm_to_string tm c = Inl e) \<or> tm_to_string tm c = Inr doc"
      by (cases "tm_to_string tm c") auto
    then consider (modes) "\<exists>e. r2 = Inl e" | (texts) "r2 = Inr ()" "\<exists>e. tm_to_string tm c = Inl e"
      | (ready) "r2 = Inr ()" "tm_to_string tm c = Inr doc" by (cases r2) auto
    then show ?thesis
    proof cases
      case modes
      then have "\<exists>e. r = Inl e" "fs' = put_node ?t (Reg m []) fs"
        using assms 1 Inr 2 cases2 by (auto simp: replace_config_def Let_def)
      then show ?thesis by blast
    next
      case texts
      then have "\<exists>e. r = Inl e" "fs' = put_node ?t (Reg mode_600 []) fs"
        using assms 1 Inr 2 cases2 by (auto simp: replace_config_def Let_def)
      then show ?thesis by blast
    next
      case ready
      then have fs2: "fs2 = put_node ?t (Reg mode_600 []) fs" using cases2 by auto
      obtain r3 fs3 where w: "write_all ?t doc fs2 = (r3, fs3)" by fastforce
      obtain r4 fs4 where mv: "rename_file ?t (pa_config ps) fs3 = (r4, fs4)" by fastforce
      note cases3 = write_all_cases[OF w[unfolded fs2]]
      show ?thesis
      proof (cases r3)
        case (Inl e)
        then have "\<exists>e. r = Inl e" "\<exists>k. fs' = put_node ?t (Reg mode_600 (take k doc)) fs"
          using assms 1 \<open>r1 = Inr u\<close> 2 ready w cases3 by (auto simp: replace_config_def Let_def)
        then show ?thesis by blast
      next
        case (Inr v)
        then have fs3: "fs3 = put_node ?t (Reg mode_600 doc) fs" using cases3 by auto
        have "((\<exists>e. r = Inl e) \<and> fs' = fs3) \<or> (r = Inr () \<and> fs' = fs4 \<and> r4 = Inr ())"
          using assms 1 \<open>r1 = Inr u\<close> 2 ready w Inr mv rename_file_cases[OF mv[unfolded fs3]] fs3
          by (auto simp: replace_config_def Let_def split: sum.splits)
        then show ?thesis
          using rename_file_cases[OF mv[unfolded fs3]] fs3 ready(2) by blast
      qed
    qed
  qed
qed

lemma replace_config_outcome:
  assumes "replace_config tm c ps fs = (r, fs')" "temp_path ps \<noteq> pa_config ps"
  shows "same_system fs fs' \<and> (\<forall>p. p = temp_path ps \<or> p = pa_config ps \<or> fx_nodes fs' p = fx_nodes fs p)
    \<and> (case r of
         Inl e \<Rightarrow> fx_nodes fs' (pa_config ps) = fx_nodes fs (pa_config ps)
           \<and> (fx_nodes fs' (temp_path ps) = fx_nodes fs (temp_path ps)
              \<or> (\<exists>m d. fx_nodes fs' (temp_path ps) = Some (Reg m d) \<and> (d = [] \<or> m = mode_600)))
       | Inr _ \<Rightarrow> \<exists>text. tm_to_string tm c = Inr text
           \<and> fx_nodes fs' (pa_config ps) = Some (Reg mode_600 text)
           \<and> fx_nodes fs' (temp_path ps) = None)"
  using replace_config_cases[OF assms(1)] assms(2) by (auto simp: same_system_def split: if_splits)

lemma save_atomic_outcome:
  assumes "save_atomic tm c (under root) fs = (r, fs')"
  shows "case r of
      Inl e \<Rightarrow> fx_nodes fs' (pa_config (under root)) = fx_nodes fs (pa_config (under root))
        \<and> (fx_nodes fs' (temp_path (under root)) = fx_nodes fs (temp_path (under root))
           \<or> (\<exists>m d. fx_nodes fs' (temp_path (under root)) = Some (Reg m d) \<and> (d = [] \<or> m = mode_600)))
    | Inr _ \<Rightarrow> \<exists>text. tm_to_string tm c = Inr text
        \<and> fx_nodes fs' (pa_config (under root)) = Some (Reg mode_600 text)
        \<and> fx_nodes fs' (temp_path (under root)) = None"
proof -
  let ?ps = "under root"
  note apart = config_paths_apart[OF refl, of root]
  obtain r1 fs1 where ens: "ensure ?ps fs = (r1, fs1)" by fastforce
  have frame: "fx_nodes fs1 (pa_config ?ps) = fx_nodes fs (pa_config ?ps)"
    "fx_nodes fs1 (temp_path ?ps) = fx_nodes fs (temp_path ?ps)"
    using ensure_dirs_frame[OF ens[unfolded ensure_def]] apart(2,3) by auto
  show ?thesis
  proof (cases "r1 = Inr () \<and> validate c ?ps fs1 = Inr ()")
    case True
    then have "replace_config tm c ?ps fs1 = (r, fs')" using assms ens by (simp add: save_atomic_def)
    from replace_config_outcome[OF this apart(1)] show ?thesis using frame by (auto split: sum.splits)
  next
    case False
    then obtain e where "fs' = fs1" "r = Inl e"
      using assms ens by (cases r1; cases "validate c ?ps fs1") (auto simp: save_atomic_def dest: sym)
    then show ?thesis using frame by simp
  qed
qed

text \<open>
  C24: Saving is all or nothing, whatever call fails and however much of a failing write reached
  the disk: on an error the configuration file is what it was before, and on success it holds
  the whole text with mode 0600. A temporary file left behind by an error is empty or has mode
  0600, so the credentials are never in a file another account could open.
\<close>

theorem save_atomic_all_or_nothing:
  assumes "save_atomic tm c (under root) fs = (r, fs')"
  shows "case r of
      Inl e \<Rightarrow> fx_nodes fs' (pa_config (under root)) = fx_nodes fs (pa_config (under root))
        \<and> (fx_nodes fs' (temp_path (under root)) = fx_nodes fs (temp_path (under root))
           \<or> (\<exists>m d. fx_nodes fs' (temp_path (under root)) = Some (Reg m d) \<and> (d = [] \<or> m = mode_600)))
    | Inr _ \<Rightarrow> \<exists>text. tm_to_string tm c = Inr text
        \<and> fx_nodes fs' (pa_config (under root)) = Some (Reg mode_600 text)
        \<and> fx_nodes fs' (temp_path (under root)) = None"
  using save_atomic_outcome[OF assms] .

text \<open>The keys a configuration names are not the files a save replaces.\<close>

definition keys_apart :: "config \<Rightarrow> paths \<Rightarrow> fsys \<Rightarrow> bool" where
  "keys_apart c ps fs \<longleftrightarrow>
     list_all (\<lambda>t. case tg_auth t of Password _ \<Rightarrow> True | PrivateKey path _ \<Rightarrow>
       fx_canonicalize fs (if starts_with path ''/'' then path else join_path (pa_keys ps) path)
         \<notin> {Inr (temp_path ps), Inr (pa_config ps)}) (cf_targets c)"

lemma validate_frame:
  assumes "validate c ps fs = Inr ()" "keys_apart c ps fs" "same_system fs fs'"
    and "\<forall>p. p = temp_path ps \<or> p = pa_config ps \<or> fx_nodes fs' p = fx_nodes fs p"
  shows "validate c ps fs' = Inr ()"
proof -
  have key: "key_accepted ps fs' path"
    if "key_accepted ps fs path"
      "fx_canonicalize fs (if starts_with path ''/'' then path else join_path (pa_keys ps) path)
        \<notin> {Inr (temp_path ps), Inr (pa_config ps)}" for path
  proof -
    from that obtain canonical keys n where *:
      "fx_canonicalize fs (if starts_with path ''/'' then path else join_path (pa_keys ps) path) = Inr canonical"
      "fx_canonicalize fs (pa_keys ps) = Inr keys" "path_starts_with canonical keys"
      "fx_fault fs Meta canonical = None" "fx_nodes fs canonical = Some n" "node_mode n mod 512 = mode_600"
      unfolding key_accepted_def by blast
    then have "canonical \<noteq> temp_path ps" "canonical \<noteq> pa_config ps" using that(2) by auto
    then have "fx_nodes fs' canonical = Some n" using assms(4) * by metis
    then show ?thesis using * assms(3) unfolding key_accepted_def same_system_def by metis
  qed
  have "list_all (target_accepted ps fs') (cf_targets c)"
    using assms(1,2) key unfolding validate_ok keys_apart_def list_all_iff target_accepted_def
    by (fastforce split: auth.splits)
  then show ?thesis using assms(1) unfolding validate_ok by blast
qed

text \<open>
  C26: What was saved is what is loaded: after a successful save, loading returns the same
  configuration, provided the TOML writer and reader are inverse on it, its text is UTF-8, the
  file can be read, and no configured private key resolves to a file the save replaces.
\<close>

theorem save_then_load:
  assumes "save_atomic tm c (under root) fs = (Inr (), fs')"
    and "\<And>text. tm_to_string tm c = Inr text \<Longrightarrow> tm_from_str tm text = Inr c \<and> valid_utf8 text"
    and "fx_fault fs Meta (pa_config (under root)) = None"
    and "fx_fault fs ReadText (pa_config (under root)) = None"
    and "keys_apart c (under root) fs"
  shows "load tm (under root) fs' = Inr c"
proof -
  let ?ps = "under root"
  note apart = config_paths_apart[OF refl, of root]
  obtain r1 fs1 where ens: "ensure ?ps fs = (r1, fs1)" by fastforce
  then have ok: "validate c ?ps fs1 = Inr ()" "replace_config tm c ?ps fs1 = (Inr (), fs')"
    using assms(1) by (auto simp: save_atomic_def split: sum.splits)
  note out = replace_config_outcome[OF ok(2) apart(1)]
  have same: "same_system fs fs1" using ensure_dirs_frame[OF ens[unfolded ensure_def]] by blast
  obtain doc where doc: "tm_to_string tm c = Inr doc"
    "fx_nodes fs' (pa_config ?ps) = Some (Reg mode_600 doc)" using out by auto
  have "keys_apart c ?ps fs1" using assms(5) same unfolding keys_apart_def same_system_def by metis
  then have "validate c ?ps fs' = Inr ()" using validate_frame[OF ok(1)] out by blast
  moreover have "fx_fault fs' = fx_fault fs" using same out by (simp add: same_system_def)
  moreover have "mode_600 mod 512 = mode_600" by (simp add: mode_600_def)
  ultimately show ?thesis
    using doc assms(2-4)
    by (simp add: load_def require_owner_only_def check_mode_def read_to_string_def)
qed

definition sample_fs :: fsys where
  "sample_fs = \<lparr>fx_nodes = (\<lambda>_. None), fx_fault = (\<lambda>_ _. None), fx_short = 0,
     fx_canonicalize = (\<lambda>p. Inr p), fx_new_mode = 493\<rparr>"

definition sample_toml :: toml where
  "sample_toml = \<lparr>tm_from_str = (\<lambda>s. if s = ''default'' then Inr default_config else Inl ''bad''),
     tm_to_string = (\<lambda>c. if c = default_config then Inr ''default'' else Inl ''bad'')\<rparr>"

lemma sample_save:
  "fst (save_atomic sample_toml default_config (under ''/r'') sample_fs) = Inr ()"
proof -
  have "temp_path (under ''/r'') \<noteq> pa_config (under ''/r'')" by (rule config_paths_apart) simp
  then show ?thesis
    by (simp add: save_atomic_def ensure_def create_dir_all_def restrict_def sample_fs_def
        sample_toml_def replace_config_def open_truncate_def write_all_def sync_all_def rename_file_def
        validate_def default_config_def with_mode_def under_def temp_path_def join_path_def
        starts_with_def ends_with_def Let_def)
qed

lemma sample_text: "valid_utf8 ''default''"
  by (simp add: valid_utf8_def from_utf8_def from_utf8_at.simps bval_def)

theorem save_then_load_witness:
  "load sample_toml (under ''/r'')
     (snd (save_atomic sample_toml default_config (under ''/r'') sample_fs)) = Inr default_config"
  by (rule save_then_load[OF prod_eqI[of _ "(Inr (), _)"]])
    (auto simp: sample_save sample_text, auto simp: sample_toml_def sample_fs_def keys_apart_def
      default_config_def sample_text split: if_splits)

theorem save_atomic_all_or_nothing_witness:
  "\<exists>text. tm_to_string sample_toml default_config = Inr text
     \<and> fx_nodes (snd (save_atomic sample_toml default_config (under ''/r'') sample_fs))
         (pa_config (under ''/r'')) = Some (Reg mode_600 text)"
  using save_atomic_all_or_nothing[OF surjective_pairing, of sample_toml default_config "''/r''" sample_fs]
  by (auto simp: sample_save)

end
