(* ===== verification/Shell_Command.thy ===== *)
theory Shell_Command
  imports Config
begin

text \<open>
  The command line and channel layer of \<open>crates/ssh/src/lib.rs\<close>: quoting for the remote shell,
  the assembly of a command with its directory and environment, the choice of a UTF-8 locale,
  and the readers that turn the messages of an SSH channel into events. The messages of a
  channel are the list of what the transport still delivers; \<open>wait\<close> takes the next one and
  answers \<open>None\<close> at its end. Opening a connection takes the transport's answers as arguments.
  A small lexer of the POSIX shell language states what quoting means.
\<close>

section \<open>Channels\<close>

datatype channel_msg =
    MsgData bytes | MsgExtendedData nat bytes | MsgExitStatus nat | MsgEof | MsgClose | MsgOther

datatype channel_event =
    ChData bytes | ChExtendedData bytes | ChExitStatus nat | ChEof | ChClose

fun exec_next :: "channel_msg list \<Rightarrow> channel_event option \<times> channel_msg list" where
  "exec_next [] = (None, [])"
| "exec_next (MsgData d # ms) = (Some (ChData d), ms)"
| "exec_next (MsgExtendedData k d # ms) = (Some (ChExtendedData d), ms)"
| "exec_next (MsgExitStatus n # ms) = (Some (ChExitStatus n), ms)"
| "exec_next (MsgEof # ms) = (Some ChEof, ms)"
| "exec_next (MsgClose # ms) = (Some ChClose, ms)"
| "exec_next (MsgOther # ms) = exec_next ms"

record collected =
  co_stdout :: bytes
  co_stderr :: bytes
  co_exit :: "nat option"
  co_truncated :: bool

definition collect_event :: "nat \<Rightarrow> channel_event \<Rightarrow> collected \<Rightarrow> collected" where
  "collect_event limit ev s =
     (case ev of
        ChData d \<Rightarrow> (if length (co_stdout s) + length d > limit then s\<lparr>co_truncated := True\<rparr>
                     else s\<lparr>co_stdout := co_stdout s @ d\<rparr>)
      | ChExtendedData d \<Rightarrow> (if length (co_stderr s) + length d > limit then s\<lparr>co_truncated := True\<rparr>
                     else s\<lparr>co_stderr := co_stderr s @ d\<rparr>)
      | ChExitStatus code \<Rightarrow> s\<lparr>co_exit := Some code\<rparr>
      | ChEof \<Rightarrow> s
      | ChClose \<Rightarrow> s)"

lemma exec_next_shorter: "exec_next ms = (Some e, ms') \<Longrightarrow> length ms' < length ms"
  by (induction ms rule: exec_next.induct) auto

function collect_loop :: "nat \<Rightarrow> collected \<Rightarrow> channel_msg list \<Rightarrow> collected" where
  "collect_loop limit s ms =
     (case exec_next ms of
        (None, _) \<Rightarrow> s
      | (Some ev, ms') \<Rightarrow> if ev = ChClose then s
                          else collect_loop limit (collect_event limit ev s) ms')"
  by pat_completeness auto
termination
  by (relation "measure (\<lambda>(limit, s, ms). length ms)") (auto dest: exec_next_shorter[OF sym])

declare collect_loop.simps [simp del]

definition collect :: "nat \<Rightarrow> channel_msg list \<Rightarrow> collected" where
  "collect limit ms =
     collect_loop limit \<lparr>co_stdout = [], co_stderr = [], co_exit = None, co_truncated = False\<rparr> ms"

fun pty_next :: "channel_msg list \<Rightarrow> bytes option \<times> channel_msg list" where
  "pty_next [] = (None, [])"
| "pty_next (MsgData d # ms) = (Some d, ms)"
| "pty_next (MsgExtendedData k d # ms) = (Some d, ms)"
| "pty_next (MsgEof # ms) = (None, ms)"
| "pty_next (MsgClose # ms) = (None, ms)"
| "pty_next (MsgExitStatus n # ms) = pty_next ms"
| "pty_next (MsgOther # ms) = pty_next ms"

section \<open>Command lines\<close>

text \<open>\<open>str::replace\<close> of one character, \<open>slice::join\<close> and \<open>str::lines\<close>.\<close>

definition replace_char :: "char \<Rightarrow> str \<Rightarrow> str \<Rightarrow> str" where
  "replace_char c w s = concat (map (\<lambda>x. if x = c then w else [x]) s)"

fun join :: "str \<Rightarrow> str list \<Rightarrow> str" where
  "join sep [] = []"
| "join sep [x] = x"
| "join sep (x # y # ys) = x @ sep @ join sep (y # ys)"

fun split_lines :: "str \<Rightarrow> str \<Rightarrow> str list" where
  "split_lines acc [] = (if acc = [] then [] else [acc])"
| "split_lines acc (c # cs) =
     (if c = CHR 0x0A then
        (if acc \<noteq> [] \<and> last acc = CHR 0x0D then butlast acc else acc) # split_lines [] cs
      else split_lines (acc @ [c]) cs)"

definition quote_char :: char where
  "quote_char = CHR 0x27"

definition shell_quote :: "str \<Rightarrow> str" where
  "shell_quote v =
     [quote_char] @ replace_char quote_char [quote_char, CHR 0x5C, quote_char, quote_char] v
       @ [quote_char]"

text \<open>\<open>UTF8_LOCALE_PRELUDE\<close>; the double quotes and single quotes are the source's.\<close>

definition UTF8_LOCALE_PRELUDE :: str where
  "UTF8_LOCALE_PRELUDE =
     ''if command -v locale >/dev/null 2>&1; then _aissh_locale=$(locale -a 2>/dev/null | sed -n ''
     @ [quote_char] @ ''/[Uu][Tt][Ff][-_.]*8$/p'' @ [quote_char] @ '' | sed -n ''
     @ [quote_char] @ ''1p'' @ [quote_char] @ ''); if [ -n '' @ [CHR 0x22] @ ''$_aissh_locale''
     @ [CHR 0x22] @ '' ]; then export LANG='' @ [CHR 0x22] @ ''$_aissh_locale'' @ [CHR 0x22]
     @ '' LC_ALL='' @ [CHR 0x22] @ ''$_aissh_locale'' @ [CHR 0x22]
     @ ''; fi; unset _aissh_locale; fi''"

definition valid_env_name :: "str \<Rightarrow> bool" where
  "valid_env_name name \<longleftrightarrow>
     name \<noteq> [] \<and>
     list_all (\<lambda>(i, b). b = CHR ''_'' \<or> is_ascii_alphabetic b \<or> (i > 0 \<and> is_ascii_digit b))
       (enumerate 0 name)"

text \<open>
  The environment is a \<open>BTreeMap\<close>: its entries in the order of their keys. The \<open>Debug\<close>
  rendering of the offending name is an argument.
\<close>

definition build_command ::
    "(str \<Rightarrow> str) \<Rightarrow> str \<Rightarrow> str option \<Rightarrow> (str \<times> str) list \<Rightarrow> str + str" where
  "build_command debug_fmt command cwd env =
     (case find (\<lambda>(name, _). \<not> valid_env_name name) env of
        Some (name, _) \<Rightarrow>
          Inl (''INVALID_ARGUMENT: invalid environment variable name '' @ debug_fmt name)
      | None \<Rightarrow>
          Inr (join '' && ''
            ((case cwd of None \<Rightarrow> [] | Some d \<Rightarrow> [''cd '' @ shell_quote d])
             @ (if env = [] then []
                else [join '' '' (map (\<lambda>(key, v). ''export '' @ key @ ''='' @ shell_quote v) env)])
             @ (if ''LANG'' \<notin> fst ` set env \<and> ''LC_ALL'' \<notin> fst ` set env
                then [UTF8_LOCALE_PRELUDE] else [])
             @ [''exec /bin/sh -c '' @ shell_quote command])))"

definition is_utf8_locale :: "str \<Rightarrow> bool" where
  "is_utf8_locale s =
     (let v = to_ascii_lowercase (trim s) in
      ends_with v ''utf-8'' \<or> ends_with v ''utf8'' \<or> ends_with v ''utf_8'')"

fun locale_output :: "channel_msg list \<Rightarrow> bytes" where
  "locale_output [] = []"
| "locale_output (MsgData d # ms) = d @ locale_output ms"
| "locale_output (MsgEof # ms) = []"
| "locale_output (MsgClose # ms) = []"
| "locale_output (_ # ms) = locale_output ms"

text \<open>The probe's channel is \<open>None\<close> when it could not be opened.\<close>

definition remote_utf8_locale :: "channel_msg list option \<Rightarrow> str option" where
  "remote_utf8_locale channel =
     (case channel of
        None \<Rightarrow> None
      | Some ms \<Rightarrow>
          (if valid_utf8 (locale_output ms)
           then find is_utf8_locale (map trim (split_lines [] (locale_output ms)))
           else None))"

definition resolve_key_path :: "str \<Rightarrow> paths \<Rightarrow> str" where
  "resolve_key_path path ps =
     (if starts_with path ''/'' then path else join_path (pa_keys ps) path)"

section \<open>Connecting\<close>

text \<open>
  What the transport answers: the connection attempt (\<open>None\<close> when the timeout passes first),
  the fingerprint the host key callback stored, the authentications, and the key loader.
\<close>

record transport =
  tr_connect :: "str \<Rightarrow> nat \<Rightarrow> (str + unit) option"
  tr_fingerprint :: "str \<Rightarrow> nat \<Rightarrow> str option"
  tr_password :: "str \<Rightarrow> str \<Rightarrow> str + bool"
  tr_load_key :: "str \<Rightarrow> str option \<Rightarrow> str + str"
  tr_rsa_hash :: "str + str option"
  tr_publickey :: "str \<Rightarrow> str \<Rightarrow> str option \<Rightarrow> str + bool"

definition authenticate :: "transport \<Rightarrow> paths \<Rightarrow> target \<Rightarrow> str + bool" where
  "authenticate tr ps t =
     (case tg_auth t of
        Password p \<Rightarrow> tr_password tr (tg_username t) p
      | PrivateKey path passphrase \<Rightarrow>
          (let key_path = resolve_key_path path ps in
           case tr_load_key tr key_path passphrase of
             Inl _ \<Rightarrow> Inl (''cannot load private key '' @ key_path)
           | Inr key \<Rightarrow>
             (case tr_rsa_hash tr of
                Inl e \<Rightarrow> Inl e
              | Inr hash \<Rightarrow> tr_publickey tr (tg_username t) key hash)))"

definition ssh_connect :: "transport \<Rightarrow> paths \<Rightarrow> target \<Rightarrow> str + str" where
  "ssh_connect tr ps t =
     (case tr_connect tr (tg_host t) (tg_port t) of
        None \<Rightarrow> Inl ''SSH connection timed out''
      | Some (Inl _) \<Rightarrow> Inl ''SSH connection failed''
      | Some (Inr _) \<Rightarrow>
          (case authenticate tr ps t of
             Inl e \<Rightarrow> Inl e
           | Inr False \<Rightarrow> Inl ''AUTH_FAILED: SSH authentication was rejected''
           | Inr True \<Rightarrow>
               Inr (case tr_fingerprint tr (tg_host t) (tg_port t) of
                      Some v \<Rightarrow> v | None \<Rightarrow> ''SHA256:unknown'')))"

section \<open>What the shell reads\<close>

text \<open>
  The part of the POSIX shell's token recognition that the generated lines use: blanks separate
  words, a single-quoted segment is taken literally, a backslash quotes the next character,
  \<open>&&\<close> is an operator. Every other character with a meaning to the shell is outside the
  fragment, and so is an unterminated quotation.
\<close>

datatype sh_token = ShWord str | ShAnd

definition plain :: "char \<Rightarrow> bool" where
  "plain c \<longleftrightarrow> is_ascii_alphabetic c \<or> is_ascii_digit c \<or> c \<in> {CHR ''_'', CHR ''-'', CHR ''.'', CHR ''/'', CHR ''=''}"

definition flush :: "str option \<Rightarrow> sh_token list" where
  "flush acc = (case acc of None \<Rightarrow> [] | Some w \<Rightarrow> [ShWord w])"

definition so_far :: "str option \<Rightarrow> str" where
  "so_far acc = (case acc of None \<Rightarrow> [] | Some w \<Rightarrow> w)"

fun sh_lex :: "str option \<Rightarrow> bool \<Rightarrow> str \<Rightarrow> sh_token list option" where
  "sh_lex acc quoted [] = (if quoted then None else Some (flush acc))"
| "sh_lex acc quoted (c # s) =
     (if quoted then
        (if c = quote_char then sh_lex acc False s else sh_lex (Some (so_far acc @ [c])) True s)
      else if c = quote_char then sh_lex (Some (so_far acc)) True s
      else if c = CHR '' '' then map_option (\<lambda>ts. flush acc @ ts) (sh_lex None False s)
      else if c = CHR 0x5C then
        (case s of [] \<Rightarrow> None
         | d # s' \<Rightarrow> if d = CHR 0x0A then None else sh_lex (Some (so_far acc @ [d])) False s')
      else if c = CHR 0x26 then
        (case s of [] \<Rightarrow> None
         | d # s' \<Rightarrow> if d = CHR 0x26 then map_option (\<lambda>ts. flush acc @ ShAnd # ts) (sh_lex None False s')
                     else None)
      else if plain c then sh_lex (Some (so_far acc @ [c])) False s
      else None)"

lemmas sh_lex_simps = quote_char_def so_far_def flush_def plain_def is_ascii_alphabetic_def
  is_ascii_digit_def bval_def

lemma sh_lex_plain:
  "list_all plain w \<Longrightarrow> w \<noteq> [] \<Longrightarrow>
    sh_lex acc False (w @ rest) = sh_lex (Some (so_far acc @ w)) False rest"
proof (induction w arbitrary: acc)
  case (Cons c w)
  then have step: "sh_lex acc False ((c # w) @ rest) = sh_lex (Some (so_far acc @ [c])) False (w @ rest)"
    by (auto simp: sh_lex_simps)
  show ?case
  proof (cases "w = []")
    case False
    then show ?thesis using Cons step by (simp add: so_far_def)
  qed (use step in simp)
qed simp

lemma sh_lex_space: "sh_lex acc False (CHR '' '' # rest) = map_option (\<lambda>ts. flush acc @ ts) (sh_lex None False rest)"
  by (simp add: quote_char_def)

lemma sh_lex_and:
  "sh_lex acc False (CHR ''&'' # CHR ''&'' # CHR '' '' # rest) = map_option (\<lambda>ts. flush acc @ ShAnd # ts) (sh_lex None False rest)"
  by (simp add: quote_char_def flush_def option.map_comp o_def)

lemma sh_lex_word:
  assumes "list_all plain w" "w \<noteq> []"
  shows "sh_lex None False (w @ CHR '' '' # rest) = map_option ((#) (ShWord w)) (sh_lex None False rest)"
  unfolding sh_lex_plain[OF assms] sh_lex_space by (cases "sh_lex None False rest") (simp_all add: so_far_def flush_def)

lemma sh_lex_quoted_body:
  "sh_lex (Some a) True (replace_char quote_char [quote_char, CHR 0x5C, quote_char, quote_char] v
      @ quote_char # rest) = sh_lex (Some (a @ v)) False rest"
  by (induction v arbitrary: a) (auto simp: replace_char_def so_far_def quote_char_def)

lemma sh_lex_shell_quote:
  "sh_lex acc False (shell_quote v @ rest) = sh_lex (Some (so_far acc @ v)) False rest"
  using sh_lex_quoted_body[of "so_far acc" v rest] by (simp add: shell_quote_def)

lemma sh_lex_end [simp]: "sh_lex acc False [] = Some (flush acc)"
  by simp

declare sh_lex.simps [simp del]

text \<open>
  Whatever bytes a value holds, the quoted value is read back by the shell as that value and
  nothing else: a quoted value ends no quotation early, starts no other word, and joins the text
  around it into the word it stands in.
\<close>

theorem shell_quote_exact:
  "sh_lex None False (shell_quote v) = Some [ShWord v]
   \<and> sh_lex acc False (shell_quote v @ rest) = sh_lex (Some (so_far acc @ v)) False rest"
  using sh_lex_shell_quote[of None v "[]"] sh_lex_shell_quote[of acc v rest]
  by (simp add: flush_def so_far_def)

section \<open>The words of a command line\<close>

lemma enumerate_all:
  "list_all (\<lambda>(i, b). P b \<or> (i > 0 \<and> Q b)) (enumerate n xs) \<Longrightarrow> list_all (\<lambda>b. P b \<or> Q b) xs"
  by (induction xs arbitrary: n) auto

lemma valid_env_name_plain: "valid_env_name k \<Longrightarrow> list_all plain k \<and> k \<noteq> []"
proof -
  assume "valid_env_name k"
  then have "list_all (\<lambda>(i, b). (b = CHR ''_'' \<or> is_ascii_alphabetic b) \<or> (i > 0 \<and> is_ascii_digit b))
      (enumerate 0 k)" and "k \<noteq> []"
    by (simp_all add: valid_env_name_def disj_assoc)
  from enumerate_all[OF this(1)] this(2) show ?thesis
    by (auto simp: list_all_iff plain_def)
qed

definition export_words :: "(str \<times> str) list \<Rightarrow> sh_token list" where
  "export_words env = concat (map (\<lambda>(k, v). [ShWord ''export'', ShWord (k @ ''='' @ v)]) env)"

definition export_line :: "(str \<times> str) list \<Rightarrow> str" where
  "export_line env = join '' '' (map (\<lambda>(key, v). ''export '' @ key @ ''='' @ shell_quote v) env)"

lemma sh_lex_export:
  assumes "valid_env_name k"
  shows "sh_lex None False (''export'' @ CHR '' '' # k @ ''='' @ shell_quote v @ rest) =
    map_option ((#) (ShWord ''export'')) (sh_lex (Some (k @ ''='' @ v)) False rest)"
proof -
  have "list_all plain ''export''" "list_all plain ''=''" by (simp_all add: sh_lex_simps)
  note words = sh_lex_word[OF this(1)] sh_lex_plain[OF this(2)]
  have "list_all plain k" "k \<noteq> []" using valid_env_name_plain[OF assms] by auto
  note name = sh_lex_plain[OF this]
  show ?thesis
    unfolding words(1)[OF list.distinct(2)] name words(2)[OF list.distinct(2)] sh_lex_shell_quote
    by (simp add: so_far_def)
qed

lemmas sh_lex_norm = sh_lex_export[simplified] sh_lex_and sh_lex_space sh_lex_shell_quote

lemma sh_lex_export_line:
  assumes "env \<noteq> []" "list_all (\<lambda>(k, _). valid_env_name k) env"
  shows "sh_lex None False (export_line env @ '' && '' @ rest) =
    map_option (\<lambda>ts. export_words env @ ShAnd # ts) (sh_lex None False rest)"
  using assms
proof (induction env rule: list_nonempty_induct)
  case (single kv)
  then show ?case
    by (cases kv) (simp add: export_line_def export_words_def sh_lex_norm
        flush_def option.map_comp o_def)
next
  case (cons kv env)
  obtain k v where kv: "kv = (k, v)" by fastforce
  have line: "export_line (kv # env) = ''export '' @ k @ ''='' @ shell_quote v @ CHR '' '' # export_line env"
    using cons by (cases env) (auto simp: export_line_def kv)
  have words: "export_words (kv # env) = ShWord ''export'' # ShWord (k @ ''='' @ v) # export_words env"
    by (simp add: export_words_def kv)
  show ?case
    unfolding line words
    using cons by (simp add: sh_lex_norm kv flush_def option.map_comp o_def)
qed

lemma sh_lex_cd:
  "sh_lex None False (''cd '' @ shell_quote d @ '' && '' @ rest) =
    map_option (\<lambda>ts. ShWord ''cd'' # ShWord d # ShAnd # ts) (sh_lex None False rest)"
proof -
  have "list_all plain ''cd''" by (simp add: sh_lex_simps)
  note word = sh_lex_word[OF this list.distinct(2), simplified]
  show ?thesis by (simp add: word sh_lex_norm so_far_def flush_def option.map_comp o_def)
qed

lemma sh_lex_exec:
  "sh_lex None False (''exec /bin/sh -c '' @ shell_quote c) =
    Some [ShWord ''exec'', ShWord ''/bin/sh'', ShWord ''-c'', ShWord c]"
proof -
  have "list_all plain ''exec''" "list_all plain ''/bin/sh''" "list_all plain ''-c''"
    by (simp_all add: sh_lex_simps)
  note word = this[THEN sh_lex_word[OF _ list.distinct(2)], simplified]
  show ?thesis
    using sh_lex_shell_quote[of None c "[]"] by (simp add: word so_far_def flush_def)
qed

text \<open>
  C8: A command line is refused exactly when an environment name is not a shell identifier.
  Otherwise, when the caller fixes the locale, the remote shell reads exactly these words: the
  change to the directory, one export per variable with the value as given, and the replacement
  of the process by a shell that runs the command text, each step conditional on the one before;
  no byte of a value or of the command is read as shell syntax.
\<close>

theorem build_command_words:
  "case build_command debug_fmt command cwd env of
     Inl e \<Rightarrow> \<exists>k v. (k, v) \<in> set env \<and> \<not> valid_env_name k
   | Inr line \<Rightarrow> list_all (\<lambda>(k, _). valid_env_name k) env
       \<and> (if ''LANG'' \<in> fst ` set env \<or> ''LC_ALL'' \<in> fst ` set env
          then sh_lex None False line = Some
            ((case cwd of None \<Rightarrow> [] | Some d \<Rightarrow> [ShWord ''cd'', ShWord d, ShAnd])
             @ export_words env @ [ShAnd, ShWord ''exec'', ShWord ''/bin/sh'', ShWord ''-c'', ShWord command])
          else \<exists>pre post. line = pre @ UTF8_LOCALE_PRELUDE @ '' && '' @ post
            \<and> sh_lex None False pre = Some
               ((case cwd of None \<Rightarrow> [] | Some d \<Rightarrow> [ShWord ''cd'', ShWord d, ShAnd])
                @ (if env = [] then [] else export_words env @ [ShAnd]))
            \<and> sh_lex None False post = Some
               [ShWord ''exec'', ShWord ''/bin/sh'', ShWord ''-c'', ShWord command])"
proof (cases "find (\<lambda>(name, _). \<not> valid_env_name name) env")
  case (Some kv)
  then have "kv \<in> set env \<and> \<not> valid_env_name (fst kv)" by (auto simp: find_Some_iff) (metis nth_mem)
  then show ?thesis using Some by (cases kv) (auto simp: build_command_def)
next
  case None
  then have names: "list_all (\<lambda>(k, _). valid_env_name k) env"
    by (auto simp: find_None_iff list_all_iff)
  let ?cd = "case cwd of None \<Rightarrow> [] | Some d \<Rightarrow> ''cd '' @ shell_quote d @ '' && ''"
  let ?cdw = "case cwd of None \<Rightarrow> [] | Some d \<Rightarrow> [ShWord ''cd'', ShWord d, ShAnd]"
  let ?ex = "''exec /bin/sh -c '' @ shell_quote command"
  have cd: "sh_lex None False (?cd @ rest) = map_option (\<lambda>ts. ?cdw @ ts) (sh_lex None False rest)" for rest
    by (cases cwd) (use sh_lex_cd in \<open>auto simp: option.map_ident_strong\<close>)
  have exports: "sh_lex None False (export_line env @ '' && '' @ rest) =
      map_option (\<lambda>ts. export_words env @ ShAnd # ts) (sh_lex None False rest)" if "env \<noteq> []" for rest
    using sh_lex_export_line[OF that names] .
  show ?thesis
  proof (cases "''LANG'' \<in> fst ` set env \<or> ''LC_ALL'' \<in> fst ` set env")
    case True
    then have "env \<noteq> []" by auto
    have "build_command debug_fmt command cwd env = Inr (?cd @ export_line env @ '' && '' @ ?ex)"
      using None True \<open>env \<noteq> []\<close> by (cases cwd) (auto simp: build_command_def export_line_def)
    moreover have "sh_lex None False (?cd @ export_line env @ '' && '' @ ?ex) = Some (?cdw @ export_words env
        @ [ShAnd, ShWord ''exec'', ShWord ''/bin/sh'', ShWord ''-c'', ShWord command])"
      unfolding cd exports[OF \<open>env \<noteq> []\<close>] sh_lex_exec by simp
    ultimately show ?thesis using True names by simp
  next
    case False
    let ?env = "if env = [] then [] else export_line env @ '' && ''"
    have "build_command debug_fmt command cwd env =
        Inr ((?cd @ ?env) @ UTF8_LOCALE_PRELUDE @ '' && '' @ ?ex)"
      using None False by (cases cwd) (auto simp: build_command_def export_line_def)
    moreover have "sh_lex None False ?env =
        Some (if env = [] then [] else export_words env @ [ShAnd])"
      using exports[of "[]"] by (simp add: flush_def)
    then have "sh_lex None False (?cd @ ?env) =
        Some (?cdw @ (if env = [] then [] else export_words env @ [ShAnd]))"
      unfolding cd by simp
    ultimately show ?thesis using False names sh_lex_exec by fastforce
  qed
qed

section \<open>Collecting the output of a command\<close>

text \<open>What a channel delivers on each stream before it closes, and the last exit status.\<close>

fun stdout_of :: "channel_msg list \<Rightarrow> bytes" where
  "stdout_of [] = []"
| "stdout_of (MsgClose # ms) = []"
| "stdout_of (MsgData d # ms) = d @ stdout_of ms"
| "stdout_of (_ # ms) = stdout_of ms"

fun stderr_of :: "channel_msg list \<Rightarrow> bytes" where
  "stderr_of [] = []"
| "stderr_of (MsgClose # ms) = []"
| "stderr_of (MsgExtendedData k d # ms) = d @ stderr_of ms"
| "stderr_of (_ # ms) = stderr_of ms"

fun exit_of :: "nat option \<Rightarrow> channel_msg list \<Rightarrow> nat option" where
  "exit_of e [] = e"
| "exit_of e (MsgClose # ms) = e"
| "exit_of e (MsgExitStatus n # ms) = exit_of (Some n) ms"
| "exit_of e (_ # ms) = exit_of e ms"

lemma collect_loop_msg:
  "collect_loop l s [] = s"
  "collect_loop l s (MsgClose # ms) = s"
  "collect_loop l s (MsgOther # ms) = collect_loop l s ms"
  "collect_loop l s (MsgEof # ms) = collect_loop l s ms"
  "collect_loop l s (MsgData d # ms) = collect_loop l (collect_event l (ChData d) s) ms"
  "collect_loop l s (MsgExtendedData k d # ms) = collect_loop l (collect_event l (ChExtendedData d) s) ms"
  "collect_loop l s (MsgExitStatus n # ms) = collect_loop l (s\<lparr>co_exit := Some n\<rparr>) ms"
  by (simp_all add: collect_loop.simps[of l s "_ # _"] collect_loop.simps[of l s "[]"]
      collect_event_def) (simp add: collect_loop.simps[of l s ms])

lemma collect_loop_bounds:
  "length (co_stdout s) \<le> l \<Longrightarrow> length (co_stderr s) \<le> l \<Longrightarrow>
    length (co_stdout (collect_loop l s ms)) \<le> l \<and> length (co_stderr (collect_loop l s ms)) \<le> l
    \<and> co_exit (collect_loop l s ms) = exit_of (co_exit s) ms
    \<and> (co_truncated s \<longrightarrow> co_truncated (collect_loop l s ms))"
proof (induction ms arbitrary: s)
  case (Cons m ms)
  then show ?case by (cases m) (auto simp: collect_loop_msg collect_event_def)
qed (simp add: collect_loop_msg)

lemma collect_loop_complete:
  assumes "length (co_stdout s) \<le> l" "length (co_stderr s) \<le> l" "\<not> co_truncated s"
  shows "if length (co_stdout s @ stdout_of ms) \<le> l \<and> length (co_stderr s @ stderr_of ms) \<le> l
    then co_stdout (collect_loop l s ms) = co_stdout s @ stdout_of ms
      \<and> co_stderr (collect_loop l s ms) = co_stderr s @ stderr_of ms
      \<and> \<not> co_truncated (collect_loop l s ms)
    else co_truncated (collect_loop l s ms)"
  using assms
proof (induction ms arbitrary: s)
  case (Cons m ms)
  show ?case
  proof (cases m)
    case (MsgData d)
    then show ?thesis
      using Cons.prems Cons.IH[of "s\<lparr>co_stdout := co_stdout s @ d\<rparr>"]
        collect_loop_bounds[of "s\<lparr>co_truncated := True\<rparr>" l ms]
      by (cases "length (co_stdout s) + length d > l")
        (auto simp: collect_loop_msg collect_event_def)
  next
    case (MsgExtendedData k d)
    then show ?thesis
      using Cons.prems Cons.IH[of "s\<lparr>co_stderr := co_stderr s @ d\<rparr>"]
        collect_loop_bounds[of "s\<lparr>co_truncated := True\<rparr>" l ms]
      by (cases "length (co_stderr s) + length d > l")
        (auto simp: collect_loop_msg collect_event_def)
  next
    case (MsgExitStatus n)
    then show ?thesis using Cons.prems Cons.IH[of "s\<lparr>co_exit := Some n\<rparr>"]
      by (auto simp: collect_loop_msg)
  qed (use Cons in \<open>auto simp: collect_loop_msg\<close>)
qed (simp add: collect_loop_msg)

text \<open>
  Collecting a command's output retains at most the limit on each stream and reports the last
  exit status before the channel closed. The truncation flag is exact: it is false exactly when
  both streams fit, and then each stream is returned whole.
\<close>

theorem collect_exact:
  "length (co_stdout (collect limit ms)) \<le> limit \<and> length (co_stderr (collect limit ms)) \<le> limit
   \<and> co_exit (collect limit ms) = exit_of None ms
   \<and> (if length (stdout_of ms) \<le> limit \<and> length (stderr_of ms) \<le> limit
      then co_stdout (collect limit ms) = stdout_of ms \<and> co_stderr (collect limit ms) = stderr_of ms
        \<and> \<not> co_truncated (collect limit ms)
      else co_truncated (collect limit ms))"
  unfolding collect_def
  using collect_loop_bounds[of "\<lparr>co_stdout = [], co_stderr = [], co_exit = None, co_truncated = False\<rparr>" limit ms]
    collect_loop_complete[of "\<lparr>co_stdout = [], co_stderr = [], co_exit = None, co_truncated = False\<rparr>" limit ms]
  by auto

text \<open>
  A truncated collection is not a prefix of what the command printed: a piece that does not
  fit is dropped and a later, smaller piece is still appended.
\<close>

theorem collect_leaves_holes:
  "\<exists>limit ms. co_stdout (collect limit ms) = ''ac''
     \<and> stdout_of ms = ''abbbc'' \<and> co_truncated (collect limit ms)"
  by (intro exI[of _ 2] exI[of _ "[MsgData ''a'', MsgData ''bbb'', MsgData ''c'']"])
    (simp add: collect_def collect_loop_msg collect_event_def)

end
