(* ===== verification/Session.thy ===== *)
theory Session
  imports Session_Log Shell_Command
begin

text \<open>
  The session manager of \<open>crates/session/src/lib.rs\<close>. Its state is one record: configuration,
  store, the runtimes by session, and the cancelled tokens. What the transport and the platform
  answer during a call is a record \<open>world\<close> of arguments: clock readings in the order the call
  takes them, a fresh identifier, the outcome of connecting, of opening channels and of writing
  to a PTY. A request handler is one step. The tasks it spawns are separate steps, one per
  channel event and one for the end, so that they interleave with later requests; \<open>create\<close>,
  which publishes the session before it dials, is two steps.
\<close>

section \<open>State\<close>

record manager =
  mg_config :: config
  mg_paths :: paths
  mg_storage :: storage
  mg_sessions :: "runtime list"
  mg_cancelled :: "str list"

record world =
  w_clock :: "nat \<Rightarrow> time"
  w_uuid :: str
  w_connect :: "target \<Rightarrow> nat \<Rightarrow> str + nat \<times> str"
  w_closed :: "nat \<Rightarrow> bool"
  w_open_exec :: "nat \<Rightarrow> str \<Rightarrow> str + unit"
  w_open_pty :: "nat \<Rightarrow> nat \<Rightarrow> nat \<Rightarrow> str \<Rightarrow> str + unit"
  w_pty_write :: "str \<Rightarrow> bytes \<Rightarrow> str + unit"
  w_pty_resize :: "str \<Rightarrow> nat \<Rightarrow> nat \<Rightarrow> str + unit"
  w_pty_close :: "str \<Rightarrow> str + unit"
  w_debug :: "str \<Rightarrow> str"

text \<open>The spawned tasks that are still running.\<close>

datatype task =
    T_Create str target
  | T_Exec str command_info "nat option" bool
  | T_Pty str str
  | T_Dial str target nat

definition new_manager :: "config \<Rightarrow> paths \<Rightarrow> storage \<Rightarrow> manager" where
  "new_manager c ps st =
     \<lparr>mg_config = c, mg_paths = ps, mg_storage = st, mg_sessions = [], mg_cancelled = []\<rparr>"

definition lookup :: "manager \<Rightarrow> str \<Rightarrow> runtime option" where
  "lookup m i = find (\<lambda>rt. rt_session_id rt = i) (mg_sessions m)"

definition put_runtime :: "runtime \<Rightarrow> manager \<Rightarrow> manager" where
  "put_runtime rt m =
     m\<lparr>mg_sessions := map (\<lambda>r. if rt_session_id r = rt_session_id rt then rt else r) (mg_sessions m)\<rparr>"

definition the_runtime :: "world \<Rightarrow> manager \<Rightarrow> str \<Rightarrow> runtime api_result" where
  "the_runtime w m i =
     (case lookup m i of None \<Rightarrow> Inl (session_not_found (w_debug w) i) | Some rt \<Rightarrow> Inr rt)"

text \<open>Writing the session's information to its row; the callers differ in what an error means.\<close>

definition upsert_info :: "runtime \<Rightarrow> manager \<Rightarrow> (storage_error + unit) \<times> manager" where
  "upsert_info rt m =
     (case upsert_session (rt_info rt) (mg_storage m) of
        (r, st) \<Rightarrow> (r, (put_runtime rt m)\<lparr>mg_storage := st\<rparr>))"

section \<open>Errors and classification\<close>

definition classify_error :: "str \<Rightarrow> error_payload" where
  "classify_error message =
     (case split_once2 (CHR '':'') (CHR '' '') message of
        Some (code, detail) \<Rightarrow>
          if list_all (\<lambda>c. is_ascii_uppercase c \<or> c = CHR ''_'') code then new_error code detail
          else retryable (new_error ''SSH_ERROR'' message)
      | None \<Rightarrow> retryable (new_error ''SSH_ERROR'' message))"

definition clearly_interactive :: "str \<Rightarrow> bool" where
  "clearly_interactive c =
     (let ws = split_whitespace c in
      case ws of
        [] \<Rightarrow> False
      | first # _ \<Rightarrow>
          if first \<in> {''vi'', ''vim'', ''nano'', ''less'', ''more'', ''watch''} then True
          else if first = ''top'' then \<not> List.member ws ''-b''
          else False)"

definition command_status_from_exit :: "nat option \<Rightarrow> command_status" where
  "command_status_from_exit e = (if e = Some 0 then C_Completed else C_Failed)"

definition channel_end_status :: "nat option \<Rightarrow> command_status" where
  "channel_end_status e = (case e of Some _ \<Rightarrow> command_status_from_exit e | None \<Rightarrow> C_Interrupted)"

definition busy :: error_payload where
  "busy = retryable (new_error ''SESSION_BUSY'' ''session already has a foreground exec or PTY'')"

definition pty_not_open :: error_payload where
  "pty_not_open = new_error ''PTY_NOT_OPEN'' ''session has no open PTY''"

section \<open>Listing\<close>

definition targets :: "manager \<Rightarrow> target_summary list" where
  "targets m =
     map (\<lambda>t. \<lparr>ts_id = tg_id t, ts_name = tg_name t, ts_host = tg_host t, ts_port = tg_port t,
               ts_username = tg_username t, ts_host_verification = False\<rparr>)
       (cf_targets (mg_config m))"

definition live_info :: "runtime \<Rightarrow> session_info" where
  "live_info rt = (rt_info rt)\<lparr>si_recording_truncated := rt_recording_truncated rt\<rparr>"

definition list_sessions :: "bool \<Rightarrow> manager \<Rightarrow> session_info list api_result" where
  "list_sessions include_history m =
     (let active = map live_info (mg_sessions m) in
      if include_history
      then (case sessions (mg_storage m) of
              Inl e \<Rightarrow> Inl (internal e)
            | Inr items \<Rightarrow>
                Inr (order_desc si_created_at
                  (active @ filter (\<lambda>s. \<not> List.member (map si_id active) (si_id s)) items)))
      else Inr (order_desc si_created_at active))"

definition session_status_of :: "world \<Rightarrow> str \<Rightarrow> manager \<Rightarrow> session_info api_result" where
  "session_status_of w i m =
     (case lookup m i of
        Some rt \<Rightarrow> Inr (live_info rt)
      | None \<Rightarrow>
        (case session i (mg_storage m) of
           Inl e \<Rightarrow> Inl (internal e)
         | Inr None \<Rightarrow> Inl (session_not_found (w_debug w) i)
         | Inr (Some s) \<Rightarrow> Inr s))"

definition list_all_commands :: "world \<Rightarrow> str option \<Rightarrow> bool \<Rightarrow> nat \<Rightarrow> manager
    \<Rightarrow> command_summary list api_result" where
  "list_all_commands w session_id include_finished limit m =
     (case list_commands (w_clock w 0) session_id include_finished (clamp limit 1 500) (mg_storage m) of
        Inl e \<Rightarrow> Inl (internal e)
      | Inr cs \<Rightarrow>
          Inr (map (\<lambda>c. if cs_status c \<noteq> C_Running then c
                        else (case lookup m (cs_session_id c) of
                                None \<Rightarrow> c
                              | Some rt \<Rightarrow> c\<lparr>cs_seconds_since_last_output :=
                                  seconds_since_output (w_clock w 1) (Some rt)\<rparr>)) cs))"

section \<open>Creating a session and connecting\<close>

definition new_runtime :: "session_info \<Rightarrow> time \<Rightarrow> runtime" where
  "new_runtime info now =
     \<lparr>rt_session_id = si_id info, rt_info = info, rt_connection = None, rt_foreground = None,
      rt_background = [], rt_sequence = 0, rt_recording_truncated = False,
      rt_live_tail_dropped = False, rt_last_activity = now, rt_last_output_at = None,
      rt_live_events = [], rt_version = 0\<rparr>"

definition find_target :: "manager \<Rightarrow> str \<Rightarrow> target option" where
  "find_target m i = find (\<lambda>t. tg_id t = i) (cf_targets (mg_config m))"

definition new_info :: "world \<Rightarrow> target \<Rightarrow> str \<Rightarrow> str \<Rightarrow> session_info" where
  "new_info w t purpose client_name =
     \<lparr>si_id = w_uuid w, si_target_id = tg_id t, si_target_name = tg_name t,
      si_purpose = purpose, si_client_name = client_name,
      si_status = S_Connecting, si_current_command = None,
      si_last_exit_code = None, si_recording_truncated = False,
      si_host_fingerprint = None, si_created_at = w_clock w 0, si_updated_at = w_clock w 0,
      si_closed_at = None\<rparr>"

text \<open>The part of \<open>create\<close> before the dial: the session is in the store and in the table.\<close>

definition create_begin :: "world \<Rightarrow> str \<Rightarrow> str \<Rightarrow> str \<Rightarrow> manager
    \<Rightarrow> (session_info \<times> target) api_result \<times> manager" where
  "create_begin w target_id purpose client_name m =
     (case find_target m target_id of
        None \<Rightarrow>
          (Inl (new_error ''TARGET_NOT_FOUND''
             (''target '' @ w_debug w target_id @ '' does not exist'')), m)
      | Some t \<Rightarrow>
          (let info = new_info w t purpose client_name
           in case upsert_session info (mg_storage m) of
                (Inl e, st) \<Rightarrow> (Inl (internal e), m\<lparr>mg_storage := st\<rparr>)
              | (Inr _, st) \<Rightarrow>
                  (Inr (info, t),
                   m\<lparr>mg_storage := st,
                     mg_sessions := mg_sessions m @ [new_runtime info (w_clock w 1)]\<rparr>)))"

text \<open>The part after the dial; it does not look at the status it overwrites.\<close>

definition create_finish :: "world \<Rightarrow> str \<Rightarrow> target \<Rightarrow> manager \<Rightarrow> session_info api_result \<times> manager" where
  "create_finish w session_id t m =
     (case lookup m session_id of
        None \<Rightarrow> (Inl (session_not_found (w_debug w) session_id), m)
      | Some rt \<Rightarrow>
        (case w_connect w t 1 of
           Inr (handle, fingerprint) \<Rightarrow>
             (let rt' = rt\<lparr>rt_connection := Some handle,
                           rt_info := (rt_info rt)\<lparr>si_status := S_Ready,
                             si_host_fingerprint := Some fingerprint,
                             si_updated_at := w_clock w 0\<rparr>\<rparr>
              in case upsert_info rt' m of
                   (Inl e, m') \<Rightarrow> (Inl (internal e), m')
                 | (Inr _, m') \<Rightarrow> (Inr (rt_info rt'), m'))
         | Inl error \<Rightarrow>
             (let rt' = rt\<lparr>rt_info := (rt_info rt)\<lparr>si_status := S_Failed,
                             si_updated_at := w_clock w 0, si_closed_at := Some (w_clock w 0)\<rparr>\<rparr>
              in case upsert_info rt' m of
                   (Inl e, m') \<Rightarrow> (Inl (internal e), m')
                 | (Inr _, m') \<Rightarrow> (Inl (classify_error error), m'))))"

text \<open>The dialling loop: attempt \<open>k\<close> of \<open>n\<close>; it returns the last error when all fail.\<close>

fun dial :: "(nat \<Rightarrow> str + nat \<times> str) \<Rightarrow> nat \<Rightarrow> nat \<Rightarrow> error_payload option
    \<Rightarrow> error_payload option + nat \<times> str" where
  "dial connect k 0 last_error = Inl last_error"
| "dial connect k (Suc n) last_error =
     (case connect k of
        Inr c \<Rightarrow> Inr c
      | Inl e \<Rightarrow> dial connect (Suc k) n (Some (classify_error e)))"

definition connect_runtime :: "world \<Rightarrow> runtime \<Rightarrow> manager \<Rightarrow> nat api_result \<times> manager" where
  "connect_runtime w rt m =
     (if si_status (rt_info rt) = S_Closed
      then (Inl (new_error ''SESSION_CLOSED'' ''session is closed''), m)
      else
        (case find_target m (si_target_id (rt_info rt)) of
           None \<Rightarrow>
             (Inl (new_error ''TARGET_NOT_FOUND'' (''target '' @ w_debug w (si_target_id (rt_info rt))
                 @ '' no longer exists in the configuration'')), m)
         | Some t \<Rightarrow>
           (case dial (w_connect w t) 1 (clamp (cf_reconnect_attempts (mg_config m)) 1 10) None of
              Inr (handle, fingerprint) \<Rightarrow>
                (let info = rt_info rt;
                     info' = info\<lparr>si_status :=
                         (if si_status info \<in> {S_Connecting, S_Disconnected, S_Failed} then S_Ready
                          else si_status info),
                       si_host_fingerprint := Some fingerprint, si_updated_at := w_clock w 0\<rparr>
                 in (Inr handle, snd (upsert_info (rt\<lparr>rt_info := info'\<rparr>) m)))
            | Inl last_error \<Rightarrow>
                (let error = (case last_error of Some e \<Rightarrow> e
                              | None \<Rightarrow> new_error ''SSH_ERROR'' ''reconnect failed'');
                     info' = (rt_info rt)\<lparr>si_status := S_Disconnected, si_current_command := None,
                       si_updated_at := w_clock w 0\<rparr>
                 in (Inl error, snd (upsert_info (rt\<lparr>rt_info := info'\<rparr>) m))))))"

definition connection_for :: "world \<Rightarrow> runtime \<Rightarrow> manager \<Rightarrow> nat api_result \<times> manager" where
  "connection_for w rt m =
     (case rt_connection rt of
        Some handle \<Rightarrow>
          if \<not> w_closed w handle then (Inr handle, m)
          else (case connect_runtime w rt m of
                  (Inl e, m') \<Rightarrow> (Inl e, m')
                | (Inr h, m') \<Rightarrow>
                    (Inr h, case lookup m' (rt_session_id rt) of
                        None \<Rightarrow> m' | Some rt' \<Rightarrow> put_runtime (rt'\<lparr>rt_connection := Some h\<rparr>) m'))
      | None \<Rightarrow>
          (case connect_runtime w rt m of
             (Inl e, m') \<Rightarrow> (Inl e, m')
           | (Inr h, m') \<Rightarrow>
               (Inr h, case lookup m' (rt_session_id rt) of
                   None \<Rightarrow> m' | Some rt' \<Rightarrow> put_runtime (rt'\<lparr>rt_connection := Some h\<rparr>) m')))"

definition dial_target :: "world \<Rightarrow> runtime \<Rightarrow> manager \<Rightarrow> (nat + target \<times> nat) api_result" where
  "dial_target w rt m =
     (if si_status (rt_info rt) = S_Closed
      then Inl (new_error ''SESSION_CLOSED'' ''session is closed'')
      else
        (case find_target m (si_target_id (rt_info rt)) of
           None \<Rightarrow>
             Inl (new_error ''TARGET_NOT_FOUND'' (''target '' @ w_debug w (si_target_id (rt_info rt))
                 @ '' no longer exists in the configuration''))
         | Some t \<Rightarrow> Inr (Inr (t, clamp (cf_reconnect_attempts (mg_config m)) 1 10))))"

text \<open>
  The same with the dial as a step of its own. A handler that holds the lock of the foreground
  slot keeps \<open>close\<close> out and dials as above; the file operations dial without it, so that the
  status and the connection slot are looked at again afterwards.
\<close>

definition dial_begin :: "world \<Rightarrow> runtime \<Rightarrow> manager \<Rightarrow> (nat + target \<times> nat) api_result" where
  "dial_begin w rt m =
     (case rt_connection rt of
        Some handle \<Rightarrow> if \<not> w_closed w handle then Inr (Inl handle) else dial_target w rt m
      | None \<Rightarrow> dial_target w rt m)"

definition dial_end :: "world \<Rightarrow> str \<Rightarrow> target \<Rightarrow> nat \<Rightarrow> manager \<Rightarrow> nat api_result \<times> manager" where
  "dial_end w i t attempts m =
     (case lookup m i of
        None \<Rightarrow> (Inl (session_not_found (w_debug w) i), m)
      | Some rt \<Rightarrow>
        (let info = rt_info rt in
         case dial (w_connect w t) 1 attempts None of
           Inr (handle, fingerprint) \<Rightarrow>
             (let m1 = (if si_status info = S_Closed then m
                else snd (upsert_info (rt\<lparr>rt_info := info\<lparr>si_status :=
                         (if si_status info \<in> {S_Connecting, S_Disconnected, S_Failed} then S_Ready
                          else si_status info),
                       si_host_fingerprint := Some fingerprint, si_updated_at := w_clock w 0\<rparr>\<rparr>) m))
              in case lookup m1 i of
                   None \<Rightarrow> (Inr handle, m1)
                 | Some rt1 \<Rightarrow>
                   (case rt_connection rt1 of
                      Some existing \<Rightarrow>
                        if \<not> w_closed w existing then (Inr existing, m1)
                        else (Inr handle, put_runtime (rt1\<lparr>rt_connection := Some handle\<rparr>) m1)
                    | None \<Rightarrow> (Inr handle, put_runtime (rt1\<lparr>rt_connection := Some handle\<rparr>) m1)))
         | Inl last_error \<Rightarrow>
             (Inl (case last_error of Some e \<Rightarrow> e | None \<Rightarrow> new_error ''SSH_ERROR'' ''reconnect failed''),
              if si_status info = S_Closed then m
              else snd (upsert_info (rt\<lparr>rt_info := info\<lparr>si_status := S_Disconnected,
                     si_current_command := None, si_updated_at := w_clock w 0\<rparr>\<rparr>) m))))"

definition discard_connection :: "str \<Rightarrow> manager \<Rightarrow> manager" where
  "discard_connection i m =
     (case lookup m i of None \<Rightarrow> m | Some rt \<Rightarrow> put_runtime (rt\<lparr>rt_connection := None\<rparr>) m)"

section \<open>Closing\<close>

definition closed_runtime :: "time \<Rightarrow> runtime \<Rightarrow> runtime" where
  "closed_runtime now rt =
     rt\<lparr>rt_foreground := None, rt_background := [], rt_connection := None,
        rt_info := (rt_info rt)\<lparr>si_status := S_Closed, si_current_command := None,
          si_updated_at := now, si_closed_at := Some now\<rparr>\<rparr>"

definition close :: "world \<Rightarrow> str \<Rightarrow> manager \<Rightarrow> unit api_result \<times> manager" where
  "close w i m =
     (case the_runtime w m i of
        Inl e \<Rightarrow> (Inl e, m)
      | Inr rt \<Rightarrow>
          (let tokens = (case rt_foreground rt of Some (FgExec c) \<Rightarrow> [c] | _ \<Rightarrow> []) @ rt_background rt;
               m1 = m\<lparr>mg_cancelled := mg_cancelled m @ tokens\<rparr>
           in case upsert_info (closed_runtime (w_clock w 0) rt) m1 of
                (r, m2) \<Rightarrow> (map_err internal r, m2)))"

section \<open>Running commands\<close>

definition new_command :: "world \<Rightarrow> str \<Rightarrow> str \<Rightarrow> command_info" where
  "new_command w session_id command_text =
     \<lparr>ci_id = w_uuid w, ci_session_id = session_id, ci_command = command_text,
      ci_status = C_Running, ci_exit_code = None, ci_started_at = w_clock w 1,
      ci_finished_at = None, ci_last_sequence = 0, ci_recording_truncated = False,
      ci_output_bytes = 0\<rparr>"

text \<open>The end of \<open>start_exec\<close>: the token is registered and a foreground command is published.\<close>

definition register_exec :: "world \<Rightarrow> str \<Rightarrow> command_info \<Rightarrow> bool \<Rightarrow> nat \<Rightarrow> manager
    \<Rightarrow> (command_info \<times> nat) api_result \<times> manager" where
  "register_exec w session_id c background deadline m =
     (case lookup m session_id of
        None \<Rightarrow> (Inr (c, deadline), m)
      | Some rt \<Rightarrow>
          if background
          then (Inr (c, deadline),
                put_runtime (rt\<lparr>rt_background := rt_background rt @ [ci_id c]\<rparr>) m)
          else
            (case upsert_info (rt\<lparr>rt_foreground := Some (FgExec (ci_id c)),
                    rt_info := (rt_info rt)\<lparr>si_status := S_ExecRunning,
                      si_current_command := Some (ci_command c),
                      si_last_exit_code := None, si_updated_at := w_clock w 1\<rparr>\<rparr>) m of
               (Inl e, m3) \<Rightarrow> (Inl (internal e), m3)
             | (Inr _, m3) \<Rightarrow> (Inr (c, deadline), m3)))"

definition start_exec :: "world \<Rightarrow> str \<Rightarrow> str \<Rightarrow> str option \<Rightarrow> (str \<times> str) list \<Rightarrow> nat option \<Rightarrow> bool
    \<Rightarrow> manager \<Rightarrow> (command_info \<times> nat) api_result \<times> manager" where
  "start_exec w session_id command_text cwd env timeout_seconds background m =
     (if trim command_text = []
      then (Inl (new_error ''INVALID_ARGUMENT'' ''command must not be empty''), m)
      else if clearly_interactive command_text
      then (Inl (new_error ''INTERACTIVE_REQUIRED''
              ''this command is explicitly interactive; open a PTY for this session''), m)
      else
        (case the_runtime w m session_id of
           Inl e \<Rightarrow> (Inl e, m)
         | Inr rt \<Rightarrow>
           if \<not> background \<and> rt_foreground rt \<noteq> None then (Inl busy, m)
           else
             (case build_command (w_debug w) command_text cwd env of
                Inl e \<Rightarrow> (Inl (classify_error e), m)
              | Inr remote_command \<Rightarrow>
                (case connection_for w rt m of
                   (Inl e, m1) \<Rightarrow> (Inl e, m1)
                 | (Inr handle, m1) \<Rightarrow>
                   (case w_open_exec w handle remote_command of
                      Inl e \<Rightarrow> (Inl (classify_error e), discard_connection session_id m1)
                    | Inr _ \<Rightarrow>
                      (let c = new_command w session_id command_text
                       in case insert_command c (mg_storage m1) of
                            (Inl e, st) \<Rightarrow> (Inl (internal e), m1\<lparr>mg_storage := st\<rparr>)
                          | (Inr _, st) \<Rightarrow>
                            register_exec w session_id c background
                              (clamp (case timeout_seconds of Some s \<Rightarrow> s
                                 | None \<Rightarrow> if background then 86400 else 300) 1 86400)
                              (m1\<lparr>mg_storage := st\<rparr>)))))))"

text \<open>One event of the channel of a running command.\<close>

definition exec_event :: "world \<Rightarrow> str \<Rightarrow> command_info \<Rightarrow> nat option \<Rightarrow> channel_event \<Rightarrow> manager
    \<Rightarrow> nat option \<times> manager" where
  "exec_event w session_id c exit ev m =
     (let put = (\<lambda>k d. case lookup m session_id of
            None \<Rightarrow> m
          | Some rt \<Rightarrow> (case record_event (w_clock w 0) (Some (ci_id c)) k d rt (mg_storage m) of
                (rt', st') \<Rightarrow> (put_runtime rt' m)\<lparr>mg_storage := st'\<rparr>))
      in case ev of
           ChData d \<Rightarrow> (exit, put Stdout d)
         | ChExtendedData d \<Rightarrow> (exit, put Stderr d)
         | ChExitStatus code \<Rightarrow> (Some code, m)
         | _ \<Rightarrow> (exit, m))"

text \<open>Why the loop of \<open>run_exec\<close> ended.\<close>

datatype exec_end = EndCancelled | EndTimedOut | EndChannel

fun end_status :: "exec_end \<Rightarrow> nat option \<Rightarrow> command_status" where
  "end_status EndCancelled exit = C_Cancelled"
| "end_status EndTimedOut exit = C_TimedOut"
| "end_status EndChannel exit = channel_end_status exit"

definition finished_command :: "world \<Rightarrow> command_info \<Rightarrow> nat option \<Rightarrow> exec_end \<Rightarrow> runtime \<Rightarrow> storage
    \<Rightarrow> command_info" where
  "finished_command w c exit why rt st =
     c\<lparr>ci_status := end_status why exit, ci_exit_code := exit,
       ci_finished_at := Some (w_clock w 0), ci_last_sequence := rt_sequence rt,
       ci_output_bytes := (case command (ci_id c) st of
          Inr (Some d) \<Rightarrow> ci_output_bytes d | _ \<Rightarrow> 0)\<rparr>"

definition run_exec_end :: "world \<Rightarrow> str \<Rightarrow> command_info \<Rightarrow> nat option \<Rightarrow> bool \<Rightarrow> exec_end \<Rightarrow> manager
    \<Rightarrow> manager" where
  "run_exec_end w session_id c exit background why m =
     (case lookup m session_id of
        None \<Rightarrow> m
      | Some rt \<Rightarrow>
          (let c' = finished_command w c exit why rt (mg_storage m);
               interrupted = (ci_status c' = C_Interrupted);
               m1 = m\<lparr>mg_storage := snd (update_command c' (mg_storage m))\<rparr>;
               rt1 = rt\<lparr>rt_last_activity := w_clock w 1,
                        rt_connection := (if interrupted then None else rt_connection rt)\<rparr>
           in if background
              then put_runtime (send_modify (rt1\<lparr>rt_background := filter (\<lambda>i. i \<noteq> ci_id c) (rt_background rt1)\<rparr>)) m1
              else
                (let rt2 = rt1\<lparr>rt_foreground :=
                        (if rt_foreground rt1 = Some (FgExec (ci_id c)) then None else rt_foreground rt1)\<rparr>
                 in if si_status (rt_info rt2) \<noteq> S_Closed
                    then snd (upsert_info (send_modify (rt2\<lparr>rt_info := (rt_info rt2)
                           \<lparr>si_status := (if interrupted then S_Disconnected else S_Idle),
                            si_current_command := None, si_last_exit_code := exit,
                            si_updated_at := w_clock w 2\<rparr>\<rparr>)) m1)
                    else put_runtime (send_modify rt2) m1)))"

definition command_cancel :: "world \<Rightarrow> str \<Rightarrow> manager \<Rightarrow> unit api_result \<times> manager" where
  "command_cancel w i m =
     (if \<exists>rt \<in> set (mg_sessions m). rt_foreground rt = Some (FgExec i) \<or> List.member (rt_background rt) i
      then (Inr (), m\<lparr>mg_cancelled := mg_cancelled m @ [i]\<rparr>)
      else (Inl (new_error ''COMMAND_NOT_RUNNING''
             (''command '' @ w_debug w i @ '' is not running'')), m))"

section \<open>The interactive shell\<close>

definition shell_open :: "world \<Rightarrow> str \<Rightarrow> nat \<Rightarrow> nat \<Rightarrow> str \<Rightarrow> manager
    \<Rightarrow> session_info api_result \<times> manager" where
  "shell_open w session_id cols rows term_name m =
     (case the_runtime w m session_id of
        Inl e \<Rightarrow> (Inl e, m)
      | Inr rt \<Rightarrow>
        if rt_foreground rt \<noteq> None then (Inl busy, m)
        else
          (case connection_for w rt m of
             (Inl e, m1) \<Rightarrow> (Inl e, m1)
           | (Inr handle, m1) \<Rightarrow>
             (case w_open_pty w handle (clamp cols 20 1000) (clamp rows 5 500) term_name of
                Inl e \<Rightarrow> (Inl (classify_error e), discard_connection session_id m1)
              | Inr _ \<Rightarrow>
                (case lookup m1 session_id of
                   None \<Rightarrow> (Inl (session_not_found (w_debug w) session_id), m1)
                 | Some rt1 \<Rightarrow>
                     (let rt2 = rt1\<lparr>rt_foreground := Some (FgPty (w_uuid w)),
                            rt_info := (rt_info rt1)\<lparr>si_status := S_PtyOpen,
                              si_current_command := Some ''Interactive shell'',
                              si_updated_at := w_clock w 1\<rparr>\<rparr>
                      in case upsert_info rt2 m1 of
                           (Inl e, m2) \<Rightarrow> (Inl (internal e), m2)
                         | (Inr _, m2) \<Rightarrow> (Inr (rt_info rt2), m2))))))"

definition pty_data :: "world \<Rightarrow> str \<Rightarrow> bytes \<Rightarrow> manager \<Rightarrow> manager" where
  "pty_data w session_id d m =
     (case lookup m session_id of
        None \<Rightarrow> m
      | Some rt \<Rightarrow>
          (case record_event (w_clock w 1) None Pty d (rt\<lparr>rt_last_activity := w_clock w 0\<rparr>) (mg_storage m) of
             (rt', st') \<Rightarrow> (put_runtime rt' m)\<lparr>mg_storage := st'\<rparr>))"

definition run_pty_end :: "world \<Rightarrow> str \<Rightarrow> str \<Rightarrow> manager \<Rightarrow> manager" where
  "run_pty_end w session_id pty_id m =
     (case lookup m session_id of
        None \<Rightarrow> m
      | Some rt \<Rightarrow>
          (let intentional = (rt_foreground rt \<noteq> Some (FgPty pty_id));
               rt1 = (if intentional then rt else rt\<lparr>rt_foreground := None, rt_connection := None\<rparr>)
           in if si_status (rt_info rt1) \<noteq> S_Closed
              then snd (upsert_info (send_modify (rt1\<lparr>rt_info := (rt_info rt1)
                     \<lparr>si_status := (if intentional then S_Idle else S_Disconnected),
                      si_current_command := None, si_updated_at := w_clock w 0\<rparr>\<rparr>)) m)
              else put_runtime (send_modify rt1) m))"

definition shell_write :: "world \<Rightarrow> str \<Rightarrow> bytes \<Rightarrow> manager \<Rightarrow> unit api_result \<times> manager" where
  "shell_write w session_id d m =
     (case the_runtime w m session_id of
        Inl e \<Rightarrow> (Inl e, m)
      | Inr rt \<Rightarrow>
        (case rt_foreground rt of
           Some (FgPty writer) \<Rightarrow>
             (case w_pty_write w writer d of
                Inl e \<Rightarrow> (Inl (classify_error e), m)
              | Inr _ \<Rightarrow> (Inr (), put_runtime (rt\<lparr>rt_last_activity := w_clock w 0\<rparr>) m))
         | _ \<Rightarrow> (Inl pty_not_open, m)))"

definition shell_resize :: "world \<Rightarrow> str \<Rightarrow> nat \<Rightarrow> nat \<Rightarrow> manager \<Rightarrow> unit api_result" where
  "shell_resize w session_id cols rows m =
     (case the_runtime w m session_id of
        Inl e \<Rightarrow> Inl e
      | Inr rt \<Rightarrow>
        (case rt_foreground rt of
           Some (FgPty writer) \<Rightarrow>
             map_err classify_error (w_pty_resize w writer (clamp cols 20 1000) (clamp rows 5 500))
         | _ \<Rightarrow> Inl pty_not_open))"

text \<open>\<open>take\<close> empties the slot before it looks at what it held.\<close>

definition shell_close :: "world \<Rightarrow> str \<Rightarrow> manager \<Rightarrow> unit api_result \<times> manager" where
  "shell_close w session_id m =
     (case the_runtime w m session_id of
        Inl e \<Rightarrow> (Inl e, m)
      | Inr rt \<Rightarrow>
          (case rt_foreground rt of
             Some (FgPty writer) \<Rightarrow> map_err classify_error (w_pty_close w writer)
           | _ \<Rightarrow> Inl pty_not_open,
           put_runtime (rt\<lparr>rt_foreground := None\<rparr>) m))"

section \<open>Housekeeping\<close>

definition reload_config :: "config_error + config \<Rightarrow> (config_error \<Rightarrow> str) \<Rightarrow> manager
    \<Rightarrow> unit api_result \<times> manager" where
  "reload_config loaded display m =
     (case loaded of
        Inl e \<Rightarrow> (Inl (new_error ''CONFIG_INVALID'' (display e)), m)
      | Inr c \<Rightarrow> (Inr (), m\<lparr>mg_config := c\<rparr>))"

definition idle_since :: "time \<Rightarrow> nat \<Rightarrow> runtime \<Rightarrow> bool" where
  "idle_since now timeout_seconds rt \<longleftrightarrow>
     timeout_seconds * 1000000000 \<le> now - rt_last_activity rt
   \<and> rt_foreground rt = None \<and> rt_background rt = []"

definition reap_idle :: "world \<Rightarrow> manager \<Rightarrow> manager" where
  "reap_idle w m =
     (let c = mg_config m;
          m1 = m\<lparr>mg_storage := snd (cleanup (w_clock w 0) (cf_retention_days c) (mg_storage m))\<rparr>
      in fold (\<lambda>i m. case lookup m i of
             None \<Rightarrow> m
           | Some rt \<Rightarrow> if idle_since (w_clock w 1) (cf_idle_timeout_seconds c) rt
                        then snd (close w i m) else m)
           (map rt_session_id (mg_sessions m1)) m1)"

end
