(* ===== verification/Session_Machine.thy ===== *)
theory Session_Machine
  imports Session
begin

text \<open>
  The session manager as a state machine: its requests and the steps of the tasks it spawned,
  in any order. The invariant says that the store and the log of every session stay well formed,
  that a running command records under its own session, and that an occupied foreground slot
  belongs to a task that is still running. The parameter \<open>sick\<close> says whether the database may
  refuse statements: the first two hold in any case, the third only while it does not.
\<close>

section \<open>Runtimes in the table\<close>

lemma lookup_Some:
  assumes "lookup m i = Some rt"
  shows "rt \<in> set (mg_sessions m)" "rt_session_id rt = i"
  using assms by (auto simp: lookup_def find_Some_iff)

lemma lookup_storage [simp]:
  "lookup (m\<lparr>mg_storage := st\<rparr>) = lookup m" "lookup (m\<lparr>mg_cancelled := cs\<rparr>) = lookup m"
  "lookup (m\<lparr>mg_config := c\<rparr>) = lookup m"
  by (simp_all add: lookup_def fun_eq_iff)

lemma put_runtime_simps [simp]:
  "mg_storage (put_runtime rt m) = mg_storage m" "mg_config (put_runtime rt m) = mg_config m"
  "mg_cancelled (put_runtime rt m) = mg_cancelled m"
  "map rt_session_id (mg_sessions (put_runtime rt m)) = map rt_session_id (mg_sessions m)"
  by (auto simp: put_runtime_def)

lemma put_runtime_set:
  "q \<in> set (mg_sessions (put_runtime rt m)) \<Longrightarrow> q = rt \<or> (q \<in> set (mg_sessions m) \<and> rt_session_id q \<noteq> rt_session_id rt)"
  by (auto simp: put_runtime_def)

lemma lookup_put_runtime:
  "lookup (put_runtime rt m) i =
    (if i = rt_session_id rt \<and> lookup m i \<noteq> None then Some rt else lookup m i)"
proof -
  have "find (\<lambda>r. rt_session_id r = i) (map (\<lambda>r. if rt_session_id r = rt_session_id rt then rt else r) xs) =
    (if i = rt_session_id rt \<and> find (\<lambda>r. rt_session_id r = i) xs \<noteq> None then Some rt
     else find (\<lambda>r. rt_session_id r = i) xs)" for xs
    by (induction xs) auto
  then show ?thesis by (auto simp: lookup_def put_runtime_def)
qed

lemma lookup_mem:
  "distinct (map rt_session_id (mg_sessions m)) \<Longrightarrow> rt \<in> set (mg_sessions m) \<Longrightarrow>
    lookup m (rt_session_id rt) = Some rt"
proof -
  have "distinct (map rt_session_id xs) \<Longrightarrow> rt \<in> set xs \<Longrightarrow>
      find (\<lambda>r. rt_session_id r = rt_session_id rt) xs = Some rt" for xs
    by (induction xs) (auto simp: image_iff)
  then show "distinct (map rt_session_id (mg_sessions m)) \<Longrightarrow> rt \<in> set (mg_sessions m) \<Longrightarrow>
      lookup m (rt_session_id rt) = Some rt" by (simp add: lookup_def)
qed

section \<open>The log of every session\<close>

definition rt_ok :: "storage \<Rightarrow> runtime \<Rightarrow> bool" where
  "rt_ok st rt \<longleftrightarrow> log_inv rt st \<and> si_id (rt_info rt) = rt_session_id rt"

definition core_inv :: "manager \<Rightarrow> bool" where
  "core_inv m \<longleftrightarrow> st_inv (mg_storage m)
     \<and> distinct (map rt_session_id (mg_sessions m))
     \<and> (\<forall>rt \<in> set (mg_sessions m). rt_ok (mg_storage m) rt)"

text \<open>Two runtimes with the same log.\<close>

definition same_log :: "runtime \<Rightarrow> runtime \<Rightarrow> bool" where
  "same_log rt rt' \<longleftrightarrow> rt_session_id rt' = rt_session_id rt \<and> rt_sequence rt' = rt_sequence rt
     \<and> rt_live_events rt' = rt_live_events rt \<and> rt_live_tail_dropped rt' = rt_live_tail_dropped rt
     \<and> rt_recording_truncated rt' = rt_recording_truncated rt
     \<and> si_id (rt_info rt') = si_id (rt_info rt)"

lemma rt_ok_same_log: "same_log rt rt' \<Longrightarrow> rt_ok st rt \<Longrightarrow> rt_ok st rt'"
  by (auto simp: same_log_def rt_ok_def log_inv_def live_ok_def)

lemma rt_ok_fewer_events:
  "rt_ok st rt \<Longrightarrow> st_inv st' \<Longrightarrow> set (st_events st') \<subseteq> set (st_events st) \<Longrightarrow> rt_ok st' rt"
  by (auto simp: rt_ok_def log_inv_def stored_below_def)

lemma core_put_runtime:
  assumes "core_inv m" "lookup m (rt_session_id rt') = Some rt" "same_log rt rt'"
  shows "core_inv (put_runtime rt' m)"
proof -
  have "rt_ok (mg_storage m) rt'"
    using assms lookup_Some rt_ok_same_log unfolding core_inv_def by blast
  then show ?thesis
    using assms(1) put_runtime_set[of _ rt' m] unfolding core_inv_def by auto
qed

lemma core_storage:
  "core_inv m \<Longrightarrow> st_inv st' \<Longrightarrow> set (st_events st') \<subseteq> set (st_events (mg_storage m)) \<Longrightarrow>
    core_inv (m\<lparr>mg_storage := st'\<rparr>)"
  unfolding core_inv_def using rt_ok_fewer_events by auto

lemma core_other [simp]:
  "core_inv (m\<lparr>mg_cancelled := cs\<rparr>) = core_inv m" "core_inv (m\<lparr>mg_config := c\<rparr>) = core_inv m"
  by (simp_all add: core_inv_def)

lemma upsert_session_frame:
  "st_events (snd (upsert_session s st)) = st_events st" "st_commands (snd (upsert_session s st)) = st_commands st"
  "st_fault st SqlUpsertSession = None \<Longrightarrow> fst (upsert_session s st) = Inr ()"
  "upsert_session s st = (Inl e, st') \<Longrightarrow> st' = st"
  by (auto simp: upsert_session_def conn_def split: option.splits)

lemma upsert_info_eq:
  "upsert_info rt m = (fst (upsert_session (rt_info rt) (mg_storage m)),
     (put_runtime rt m)\<lparr>mg_storage := snd (upsert_session (rt_info rt) (mg_storage m))\<rparr>)"
  by (simp add: upsert_info_def split: prod.split)

lemma upsert_info_healthy: "healthy (mg_storage m) \<Longrightarrow> fst (upsert_info rt m) = Inr ()"
  by (simp add: upsert_info_eq upsert_session_frame)

lemma core_upsert_info:
  assumes "core_inv m" "lookup m (rt_session_id rt') = Some rt" "same_log rt rt'"
  shows "core_inv (snd (upsert_info rt' m))"
proof -
  have "st_inv (mg_storage m)" using assms(1) by (simp add: core_inv_def)
  then show ?thesis
    unfolding upsert_info_eq snd_conv
    using core_put_runtime[OF assms] by (intro core_storage) (simp_all add: st_inv_upsert_session upsert_session_frame)
qed

lemma update_command_frame:
  "st_events (snd (update_command c st)) = st_events st"
  "map (\<lambda>r. (cr_id r, cr_session_id r)) (st_commands (snd (update_command c st))) =
     map (\<lambda>r. (cr_id r, cr_session_id r)) (st_commands st)"
  by (auto simp: update_command_def update_command_row_def split: sum.split)

lemma insert_command_frame:
  "st_events (snd (insert_command c st)) = st_events st"
  by (cases rule: insert_command_cases[of c st]; simp)

lemma cleanup_frame:
  "set (st_events (snd (cleanup now days st))) \<subseteq> set (st_events st)"
  "set (st_commands (snd (cleanup now days st))) \<subseteq> set (st_commands st)"
  by (auto simp: cleanup_def Let_def split: sum.split)

section \<open>What an operation touches\<close>

text \<open>
  A call that changes nothing but one session: its information, its connection and its slots.
  The relation says what of the machine it leaves alone; \<open>keeps\<close> adds the slots.
\<close>

definition touches :: "str \<Rightarrow> manager \<Rightarrow> manager \<Rightarrow> bool" where
  "touches i m m' \<longleftrightarrow>
     map rt_session_id (mg_sessions m') = map rt_session_id (mg_sessions m)
   \<and> (\<forall>j. j = i \<or> lookup m' j = lookup m j)
   \<and> st_events (mg_storage m') = st_events (mg_storage m) \<and> st_fault (mg_storage m') = st_fault (mg_storage m)
   \<and> map (\<lambda>r. (cr_id r, cr_session_id r)) (st_commands (mg_storage m')) =
       map (\<lambda>r. (cr_id r, cr_session_id r)) (st_commands (mg_storage m))"

definition same_slots :: "runtime \<Rightarrow> runtime \<Rightarrow> bool" where
  "same_slots rt rt' \<longleftrightarrow> rt_foreground rt' = rt_foreground rt \<and> rt_background rt' = rt_background rt"

definition keeps :: "str \<Rightarrow> manager \<Rightarrow> manager \<Rightarrow> bool" where
  "keeps i m m' \<longleftrightarrow> core_inv m' \<and> touches i m m'
     \<and> (\<forall>rt. lookup m i = Some rt \<longrightarrow> (\<exists>rt'. lookup m' i = Some rt' \<and> same_log rt rt' \<and> same_slots rt rt'))"

lemma touches_refl [simp]: "touches i m m"
  by (simp add: touches_def)

lemma touches_trans: "touches i m m1 \<Longrightarrow> touches i m1 m2 \<Longrightarrow> touches i m m2"
  unfolding touches_def by metis

lemma same_refl [simp]: "same_log rt rt" "same_slots rt rt"
  by (simp_all add: same_log_def same_slots_def)

lemma keeps_refl: "core_inv m \<Longrightarrow> keeps i m m"
  by (simp add: keeps_def)

lemma keeps_trans: "keeps i m m1 \<Longrightarrow> keeps i m1 m2 \<Longrightarrow> keeps i m m2"
proof -
  assume a: "keeps i m m1" and b: "keeps i m1 m2"
  have "\<exists>rt2. lookup m2 i = Some rt2 \<and> same_log rt rt2 \<and> same_slots rt rt2" if found: "lookup m i = Some rt" for rt
  proof -
    obtain rt1 where 1: "lookup m1 i = Some rt1" "same_log rt rt1" "same_slots rt rt1"
      using a found by (auto simp: keeps_def)
    then obtain rt2 where "lookup m2 i = Some rt2" "same_log rt1 rt2" "same_slots rt1 rt2"
      using b by (auto simp: keeps_def)
    then show ?thesis using 1 by (auto simp: same_log_def same_slots_def)
  qed
  then show "keeps i m m2" using a b touches_trans by (auto simp: keeps_def)
qed

lemma touches_put_runtime: "touches (rt_session_id rt) m (put_runtime rt m)"
  by (auto simp: touches_def lookup_put_runtime)

lemma touches_storage:
  "st_events st = st_events (mg_storage m) \<Longrightarrow> st_fault st = st_fault (mg_storage m) \<Longrightarrow>
   map (\<lambda>r. (cr_id r, cr_session_id r)) (st_commands st) =
     map (\<lambda>r. (cr_id r, cr_session_id r)) (st_commands (mg_storage m)) \<Longrightarrow>
   touches i m (m\<lparr>mg_storage := st\<rparr>)"
  by (auto simp: touches_def)

lemma touches_upsert_info:
  assumes "core_inv m"
  shows "touches (rt_session_id rt) m (snd (upsert_info rt m))"
    "lookup m (rt_session_id rt) \<noteq> None \<Longrightarrow> lookup (snd (upsert_info rt m)) (rt_session_id rt) = Some rt"
proof -
  show "touches (rt_session_id rt) m (snd (upsert_info rt m))"
    unfolding upsert_info_eq snd_conv
    by (rule touches_trans[OF touches_put_runtime touches_storage]) (simp_all add: upsert_session_frame)
  show "lookup m (rt_session_id rt) \<noteq> None \<Longrightarrow> lookup (snd (upsert_info rt m)) (rt_session_id rt) = Some rt"
    by (simp add: upsert_info_eq lookup_put_runtime)
qed

lemma keeps_put_runtime:
  assumes "core_inv m" "lookup m i = Some rt" "same_log rt rt'" "same_slots rt rt'"
  shows "keeps i m (put_runtime rt' m)"
proof -
  have id: "rt_session_id rt' = i" using assms(2,3) lookup_Some(2) by (simp add: same_log_def)
  then show ?thesis
    using assms core_put_runtime[of m rt' rt] touches_put_runtime[of rt' m]
    by (auto simp: keeps_def lookup_put_runtime)
qed

lemma keeps_upsert_info:
  assumes "core_inv m" "lookup m i = Some rt" "same_log rt rt'" "same_slots rt rt'"
  shows "keeps i m (snd (upsert_info rt' m))"
proof -
  have id: "rt_session_id rt' = i" using assms(2,3) lookup_Some(2) by (simp add: same_log_def)
  then show ?thesis
    using assms core_upsert_info[of m rt' rt] touches_upsert_info[OF assms(1), of rt']
    by (auto simp: keeps_def)
qed

lemma keeps_connect_runtime:
  assumes "core_inv m" "lookup m i = Some rt"
  shows "keeps i m (snd (connect_runtime w rt m))"
  using assms keeps_refl[OF assms(1)]
  by (auto simp: connect_runtime_def Let_def same_log_def same_slots_def
      split: option.split sum.split prod.split intro!: keeps_upsert_info[where rt = rt])

lemma keeps_set_connection:
  assumes "keeps i m m'"
  shows "keeps i m (case lookup m' i of None \<Rightarrow> m' | Some rt' \<Rightarrow> put_runtime (rt'\<lparr>rt_connection := h\<rparr>) m')"
  using assms keeps_trans[OF assms keeps_put_runtime[where i = i and m = m']]
  by (cases "lookup m' i") (auto simp: keeps_def same_log_def same_slots_def)

lemma keeps_connection_for:
  assumes "core_inv m" "lookup m i = Some rt"
  shows "keeps i m (snd (connection_for w rt m))"
proof -
  have id: "rt_session_id rt = i" using assms(2) lookup_Some(2) by blast
  obtain r m' where run: "connect_runtime w rt m = (r, m')" by fastforce
  then have "keeps i m m'" using keeps_connect_runtime[OF assms, of w] by simp
  then show ?thesis
    using keeps_refl[OF assms(1)] keeps_set_connection[of i m m'] run id
    by (auto simp: connection_for_def split: option.split sum.split)
qed

lemma keeps_discard_connection: "core_inv m \<Longrightarrow> keeps i m (discard_connection i m)"
  unfolding discard_connection_def by (rule keeps_set_connection[OF keeps_refl])

section \<open>Tasks and slots\<close>

fun exec_id :: "task \<Rightarrow> str option" where
  "exec_id (T_Exec i c x b) = Some (ci_id c)"
| "exec_id _ = None"

definition exec_ids :: "task list \<Rightarrow> str list" where
  "exec_ids ts = List.map_filter exec_id ts"

definition slot_owned :: "bool \<Rightarrow> task list \<Rightarrow> runtime \<Rightarrow> bool" where
  "slot_owned sick ts rt \<longleftrightarrow> sick \<or>
     (\<forall>k. rt_foreground rt = Some (FgExec k) \<longrightarrow>
        (\<exists>c x. T_Exec (rt_session_id rt) c x False \<in> set ts \<and> ci_id c = k))
   \<and> (\<forall>p. rt_foreground rt = Some (FgPty p) \<longrightarrow> T_Pty (rt_session_id rt) p \<in> set ts)"

definition tasks_ok :: "storage \<Rightarrow> task list \<Rightarrow> bool" where
  "tasks_ok st ts \<longleftrightarrow>
     (\<forall>i c x b. T_Exec i c x b \<in> set ts \<longrightarrow>
        (\<forall>r \<in> set (st_commands st). cr_id r = ci_id c \<longrightarrow> cr_session_id r = i))"

type_synonym machine = "manager \<times> task list"

definition machine_inv :: "bool \<Rightarrow> machine \<Rightarrow> bool" where
  "machine_inv sick s = (case s of (m, ts) \<Rightarrow> core_inv m \<and> tasks_ok (mg_storage m) ts
     \<and> (sick \<or> healthy (mg_storage m)) \<and> (\<forall>rt \<in> set (mg_sessions m). slot_owned sick ts rt))"

lemma tasks_ok_same_commands:
  assumes "tasks_ok st ts"
    and "(\<lambda>r. (cr_id r, cr_session_id r)) ` set (st_commands st') \<subseteq> (\<lambda>r. (cr_id r, cr_session_id r)) ` set (st_commands st)"
  shows "tasks_ok st' ts"
proof -
  have "cr_session_id r = i" if t: "T_Exec i c x b \<in> set ts" "r \<in> set (st_commands st')" "cr_id r = ci_id c" for i c x b r
  proof -
    obtain q where "q \<in> set (st_commands st)" "cr_id q = cr_id r" "cr_session_id q = cr_session_id r"
      using assms(2) t(2) by force
    then show ?thesis using assms(1) t unfolding tasks_ok_def by metis
  qed
  then show ?thesis using assms(1) unfolding tasks_ok_def by blast
qed

lemma touches_commands:
  "touches i m m' \<Longrightarrow> (\<lambda>r. (cr_id r, cr_session_id r)) ` set (st_commands (mg_storage m')) =
    (\<lambda>r. (cr_id r, cr_session_id r)) ` set (st_commands (mg_storage m))"
  unfolding touches_def by (metis set_map)

lemma core_lookup: "core_inv m \<Longrightarrow> rt \<in> set (mg_sessions m) \<Longrightarrow> lookup m (rt_session_id rt) = Some rt"
  using lookup_mem by (simp add: core_inv_def)

text \<open>A step that touches one session keeps the invariant when that session keeps it.\<close>

lemma machine_touch:
  assumes inv: "machine_inv sick (m, ts)" and "core_inv m'" and touch: "touches i m m'"
    and ok: "\<And>rt'. lookup m' i = Some rt' \<Longrightarrow> slot_owned sick ts rt'"
  shows "machine_inv sick (m', ts)"
proof -
  have "slot_owned sick ts q" if "q \<in> set (mg_sessions m')" for q
  proof (cases "rt_session_id q = i")
    case True
    then show ?thesis using ok core_lookup[OF assms(2) that] by simp
  next
    case False
    then have "lookup m (rt_session_id q) = Some q"
      using core_lookup[OF assms(2) that] touch by (metis touches_def)
    then show ?thesis using inv lookup_Some(1) by (fastforce simp: machine_inv_def)
  qed
  moreover have "tasks_ok (mg_storage m') ts"
    using inv touches_commands[OF touch] by (auto simp: machine_inv_def intro: tasks_ok_same_commands)
  moreover have "sick \<or> healthy (mg_storage m')"
    using inv touch by (simp add: machine_inv_def touches_def healthy_def)
  ultimately show ?thesis using assms(2) by (simp add: machine_inv_def)
qed

lemma machine_slot: "machine_inv sick (m, ts) \<Longrightarrow> lookup m i = Some rt \<Longrightarrow> slot_owned sick ts rt"
  using lookup_Some by (fastforce simp: machine_inv_def)

lemma slot_owned_same: "same_log rt rt' \<Longrightarrow> rt_foreground rt' = rt_foreground rt \<Longrightarrow> slot_owned sick ts rt \<Longrightarrow> slot_owned sick ts rt'"
  by (simp add: slot_owned_def same_log_def)

section \<open>Connecting keeps the invariant\<close>

lemma machine_keeps:
  assumes inv: "machine_inv sick (m, ts)" and found: "lookup m i = Some rt" and keeps: "keeps i m m'"
  shows "machine_inv sick (m', ts)"
proof (rule machine_touch[OF inv])
  show "core_inv m'" "touches i m m'" using keeps by (simp_all add: keeps_def)
  obtain rt' where rt': "lookup m' i = Some rt'" "same_log rt rt'" "same_slots rt rt'"
    using keeps found by (auto simp: keeps_def)
  then have "slot_owned sick ts rt'"
    using machine_slot[OF inv found] slot_owned_same by (simp add: same_slots_def)
  then show "lookup m' i = Some q \<Longrightarrow> slot_owned sick ts q" for q using rt'(1) by simp
qed

lemma machine_connection_for:
  assumes inv: "machine_inv sick (m, ts)" and found: "lookup m i = Some rt"
  shows "machine_inv sick (snd (connection_for w rt m), ts)"
  using machine_keeps[OF inv found keeps_connection_for[OF _ found]] inv by (simp add: machine_inv_def)

lemma machine_discard:
  assumes inv: "machine_inv sick (m, ts)"
  shows "machine_inv sick (discard_connection i m, ts)"
proof (cases "lookup m i")
  case (Some rt)
  then show ?thesis
    using machine_keeps[OF inv Some keeps_discard_connection] inv by (simp add: machine_inv_def)
qed (use inv in \<open>simp add: discard_connection_def\<close>)

lemma machine_dial_end:
  assumes inv: "machine_inv sick (m, ts)"
  shows "machine_inv sick (snd (dial_end w i t n m), ts)"
proof (cases "lookup m i")
  case (Some rt)
  have core: "core_inv m" using inv by (simp add: machine_inv_def)
  have up: "keeps i m (snd (upsert_info (rt\<lparr>rt_info := x\<rparr>) m))" if "si_id x = si_id (rt_info rt)" for x
    by (rule keeps_upsert_info[OF core Some]) (use that in \<open>simp_all add: same_log_def same_slots_def\<close>)
  have set: "keeps i m (put_runtime (q\<lparr>rt_connection := h\<rparr>) m1)" if "keeps i m m1" "lookup m1 i = Some q" for q h m1
    using keeps_set_connection[OF that(1), of h] that(2) by simp
  have "keeps i m (snd (dial_end w i t n m))"
    using Some keeps_refl[OF core, of i]
    by (auto simp: dial_end_def Let_def split: sum.split option.split intro!: up set)
  from machine_keeps[OF inv Some this] show ?thesis .
qed (use inv in \<open>simp add: dial_end_def\<close>)

lemma machine_upsert:
  assumes inv: "machine_inv sick (m, ts)" and found: "lookup m i = Some rt" and same: "same_log rt rt'"
    and ok: "slot_owned sick ts rt'"
  shows "machine_inv sick (snd (upsert_info rt' m), ts)" "machine_inv sick (put_runtime rt' m, ts)"
proof -
  have core: "core_inv m" using inv by (simp add: machine_inv_def)
  have id: "rt_session_id rt' = i" using lookup_Some(2)[OF found] same by (simp add: same_log_def)
  have put: "lookup (put_runtime rt' m) i = Some rt'" using found id by (simp add: lookup_put_runtime)
  show "machine_inv sick (put_runtime rt' m, ts)"
    by (rule machine_touch[OF inv core_put_runtime[OF core _ same]])
      (use found id put touches_put_runtime[of rt' m] ok in auto)
  have "lookup (snd (upsert_info rt' m)) i = Some rt'"
    using touches_upsert_info(2)[OF core, of rt'] found id by simp
  then show "machine_inv sick (snd (upsert_info rt' m), ts)"
    by (intro machine_touch[OF inv core_upsert_info[OF core _ same], where i = i])
      (use found id touches_upsert_info(1)[OF core, of rt'] ok in auto)
qed

lemma case_result_snd:
  "snd (case p of (r, m') \<Rightarrow> (case r of Inl e \<Rightarrow> (f e, m') | Inr u \<Rightarrow> (g u, m'))) = snd p"
  by (auto split: prod.split sum.split)

lemma machine_storage:
  assumes inv: "machine_inv sick (m, ts)" and "st_inv st" "st_fault st = st_fault (mg_storage m)"
    and "set (st_events st) \<subseteq> set (st_events (mg_storage m))"
    and "(\<lambda>r. (cr_id r, cr_session_id r)) ` set (st_commands st)
      \<subseteq> (\<lambda>r. (cr_id r, cr_session_id r)) ` set (st_commands (mg_storage m))"
  shows "machine_inv sick (m\<lparr>mg_storage := st\<rparr>, ts)"
  using assms core_storage[of m st] tasks_ok_same_commands[of "mg_storage m" ts st]
  by (auto simp: machine_inv_def healthy_def)

lemma machine_other [simp]:
  "machine_inv sick (m\<lparr>mg_cancelled := cs\<rparr>, ts) = machine_inv sick (m, ts)"
  "machine_inv sick (m\<lparr>mg_config := c\<rparr>, ts) = machine_inv sick (m, ts)"
  by (simp_all add: machine_inv_def)

section \<open>The steps\<close>

inductive mg_step :: "bool \<Rightarrow> machine \<Rightarrow> machine \<Rightarrow> bool" for sick where
  ms_create: "create_begin w target_id purpose client m = (Inr (info, t), m') \<Longrightarrow>
    w_uuid w \<notin> rt_session_id ` set (mg_sessions m) \<Longrightarrow> w_uuid w \<notin> sr_id ` set (st_sessions (mg_storage m)) \<Longrightarrow>
    mg_step sick (m, ts) (m', T_Create (si_id info) t # ts)"
| ms_create_refused: "create_begin w target_id purpose client m = (Inl e, m') \<Longrightarrow> mg_step sick (m, ts) (m', ts)"
| ms_created: "T_Create i t \<in> set ts \<Longrightarrow> mg_step sick (m, ts) (snd (create_finish w i t m), remove1 (T_Create i t) ts)"
| ms_close: "mg_step sick (m, ts) (snd (close w i m), ts)"
| ms_exec: "start_exec w i text_of cwd env seconds background m = (Inr (c, deadline), m') \<Longrightarrow>
    w_uuid w \<notin> set (exec_ids ts) \<Longrightarrow> mg_step sick (m, ts) (m', T_Exec i c None background # ts)"
| ms_exec_refused: "start_exec w i text_of cwd env seconds background m = (Inl e, m') \<Longrightarrow>
    w_uuid w \<notin> set (exec_ids ts) \<Longrightarrow> mg_step sick (m, ts) (m', ts)"
| ms_exec_event: "T_Exec i c x b \<in> set ts \<Longrightarrow>
    (\<And>rt. lookup m i = Some rt \<Longrightarrow> Suc (rt_sequence rt) < i64_limit) \<Longrightarrow>
    exec_event w i c x ev m = (x', m') \<Longrightarrow>
    mg_step sick (m, ts) (m', T_Exec i c x' b # remove1 (T_Exec i c x b) ts)"
| ms_exec_end: "T_Exec i c x b \<in> set ts \<Longrightarrow> (why = EndCancelled \<Longrightarrow> ci_id c \<in> set (mg_cancelled m)) \<Longrightarrow>
    mg_step sick (m, ts) (run_exec_end w i c x b why m, remove1 (T_Exec i c x b) ts)"
| ms_cancel: "mg_step sick (m, ts) (snd (command_cancel w i m), ts)"
| ms_shell: "shell_open w i cols rows term_name m = (Inr info, m') \<Longrightarrow>
    mg_step sick (m, ts) (m', T_Pty i (w_uuid w) # ts)"
| ms_shell_refused: "shell_open w i cols rows term_name m = (Inl e, m') \<Longrightarrow> mg_step sick (m, ts) (m', ts)"
| ms_pty_data: "T_Pty i p \<in> set ts \<Longrightarrow>
    (\<And>rt. lookup m i = Some rt \<Longrightarrow> Suc (rt_sequence rt) < i64_limit) \<Longrightarrow> mg_step sick (m, ts) (pty_data w i d m, ts)"
| ms_pty_end: "T_Pty i p \<in> set ts \<Longrightarrow> mg_step sick (m, ts) (run_pty_end w i p m, remove1 (T_Pty i p) ts)"
| ms_shell_write: "mg_step sick (m, ts) (snd (shell_write w i d m), ts)"
| ms_shell_close: "mg_step sick (m, ts) (snd (shell_close w i m), ts)"
| ms_reload: "mg_step sick (m, ts) (snd (reload_config loaded display m), ts)"
| ms_reap: "mg_step sick (m, ts) (reap_idle w m, ts)"
| ms_dial: "lookup m i = Some rt \<Longrightarrow> dial_begin w rt m = Inr (Inr (t, n)) \<Longrightarrow> mg_step sick (m, ts) (m, T_Dial i t n # ts)"
| ms_dialled: "T_Dial i t n \<in> set ts \<Longrightarrow> mg_step sick (m, ts) (snd (dial_end w i t n m), remove1 (T_Dial i t n) ts)"
| ms_discard: "mg_step sick (m, ts) (discard_connection i m, ts)"
| ms_database: "sick \<Longrightarrow> mg_step sick (m, ts) (m\<lparr>mg_storage := (mg_storage m)\<lparr>st_fault := f\<rparr>\<rparr>, ts)"

inductive_cases mg_stepE: "mg_step sick (m, ts) s"

section \<open>Requests keep the invariant\<close>

lemma machine_close:
  assumes inv: "machine_inv sick (m, ts)"
  shows "machine_inv sick (snd (close w i m), ts)"
proof (cases "lookup m i")
  case None
  then show ?thesis using inv by (simp add: close_def the_runtime_def)
next
  case (Some rt)
  let ?m = "m\<lparr>mg_cancelled := mg_cancelled m @ ((case rt_foreground rt of Some (FgExec c) \<Rightarrow> [c] | _ \<Rightarrow> [])
      @ rt_background rt)\<rparr>"
  have "snd (close w i m) = snd (upsert_info (closed_runtime (w_clock w 0) rt) ?m)"
    using Some by (simp add: close_def the_runtime_def Let_def split: prod.split)
  moreover have "machine_inv sick (snd (upsert_info (closed_runtime (w_clock w 0) rt) ?m), ts)"
    by (rule machine_upsert(1)[where i = i and rt = rt])
      (use inv Some in \<open>auto simp: same_log_def closed_runtime_def slot_owned_def\<close>)
  ultimately show ?thesis by simp
qed

lemma machine_reap:
  assumes inv: "machine_inv sick (m, ts)"
  shows "machine_inv sick (reap_idle w m, ts)"
proof -
  let ?st = "snd (cleanup (w_clock w 0) (cf_retention_days (mg_config m)) (mg_storage m))"
  let ?f = "\<lambda>i m'. case lookup m' i of None \<Rightarrow> m' | Some rt \<Rightarrow>
      if idle_since (w_clock w 1) (cf_idle_timeout_seconds (mg_config m)) rt then snd (close w i m') else m'"
  have "st_inv (mg_storage m)"
    using inv by (simp add: machine_inv_def core_inv_def)
  then have first: "machine_inv sick (m\<lparr>mg_storage := ?st\<rparr>, ts)"
    using cleanup_frame by (intro machine_storage[OF inv]) (auto simp: st_inv_cleanup image_mono)
  have "machine_inv sick (m', ts) \<Longrightarrow> machine_inv sick (fold ?f is m', ts)" for "is" m'
  proof (induction "is" arbitrary: m')
    case (Cons i "is")
    have "machine_inv sick (?f i m', ts)"
      using Cons.prems machine_close[of sick m' ts w i] by (auto split: option.split)
    then show ?case using Cons.IH by simp
  qed simp
  then show ?thesis using first by (simp add: reap_idle_def Let_def)
qed

lemma machine_shell_close:
  assumes inv: "machine_inv sick (m, ts)"
  shows "machine_inv sick (snd (shell_close w i m), ts)"
proof (cases "lookup m i")
  case (Some rt)
  then have "machine_inv sick (put_runtime (rt\<lparr>rt_foreground := None\<rparr>) m, ts)"
    using inv machine_slot[OF inv Some]
    by (intro machine_upsert(2)[where i = i and rt = rt]) (auto simp: same_log_def slot_owned_def)
  then show ?thesis using Some by (simp add: shell_close_def the_runtime_def)
qed (use inv in \<open>simp add: shell_close_def the_runtime_def\<close>)

lemma machine_shell_write:
  assumes inv: "machine_inv sick (m, ts)"
  shows "machine_inv sick (snd (shell_write w i d m), ts)"
proof (cases "lookup m i")
  case (Some rt)
  then have "machine_inv sick (put_runtime (rt\<lparr>rt_last_activity := t\<rparr>) m, ts)" for t
    using inv machine_slot[OF inv Some]
    by (intro machine_upsert(2)[where i = i and rt = rt]) (auto simp: same_log_def slot_owned_def)
  then show ?thesis
    using Some inv by (auto simp: shell_write_def the_runtime_def split: option.split foreground.split sum.split)
qed (use inv in \<open>simp add: shell_write_def the_runtime_def\<close>)

lemma machine_create_finish:
  assumes inv: "machine_inv sick (m, ts)"
  shows "machine_inv sick (snd (create_finish w i t m), ts)"
proof (cases "lookup m i")
  case (Some rt)
  have "machine_inv sick (snd (upsert_info (rt\<lparr>rt_connection := h, rt_info := x\<rparr>) m), ts)"
    "machine_inv sick (snd (upsert_info (rt\<lparr>rt_info := x\<rparr>) m), ts)"
    if "si_id x = si_id (rt_info rt)" for h x
    using that machine_slot[OF inv Some]
    by (intro machine_upsert(1)[OF inv Some]; auto simp: same_log_def slot_owned_def)+
  then show ?thesis
    using Some by (auto simp: create_finish_def Let_def case_result_snd split: sum.split)
qed (use inv in \<open>simp add: create_finish_def\<close>)

lemma slot_owned_mono: "set ts \<subseteq> set ts' \<Longrightarrow> slot_owned sick ts rt \<Longrightarrow> slot_owned sick ts' rt"
  unfolding slot_owned_def by (meson subsetD)

lemma machine_tasks:
  assumes inv: "machine_inv sick (m, ts)"
    and "\<And>i c x b. T_Exec i c x b \<in> set ts' \<Longrightarrow> \<exists>y d. T_Exec i c y d \<in> set ts"
    and "\<And>rt. rt \<in> set (mg_sessions m) \<Longrightarrow> slot_owned sick ts rt \<Longrightarrow> slot_owned sick ts' rt"
  shows "machine_inv sick (m, ts')"
proof -
  have "tasks_ok (mg_storage m) ts'"
  proof -
    have ok: "tasks_ok (mg_storage m) ts" using inv by (simp add: machine_inv_def)
    show ?thesis unfolding tasks_ok_def
    proof (intro allI impI)
      fix i c x b assume "T_Exec i c x b \<in> set ts'"
      then obtain y d where "T_Exec i c y d \<in> set ts" using assms(2) by blast
      then show "\<forall>r \<in> set (st_commands (mg_storage m)). cr_id r = ci_id c \<longrightarrow> cr_session_id r = i"
        using ok unfolding tasks_ok_def by blast
    qed
  qed
  then show ?thesis using inv assms(3) by (auto simp: machine_inv_def)
qed

lemma machine_remove_task:
  assumes "machine_inv sick (m, ts)" "u = T_Create i t \<or> u = T_Dial i t n"
  shows "machine_inv sick (m, remove1 u ts)"
proof (rule machine_tasks[OF assms(1)])
  show "\<exists>y d. T_Exec j c y d \<in> set ts" if "T_Exec j c x b \<in> set (remove1 u ts)" for j c x b
    using that notin_set_remove1 by metis
  have keep: "v \<in> set ts \<Longrightarrow> v \<noteq> u \<Longrightarrow> v \<in> set (remove1 u ts)" for v by simp
  show "slot_owned sick ts rt \<Longrightarrow> slot_owned sick (remove1 u ts) rt" for rt
    unfolding slot_owned_def using keep assms(2) by (metis task.distinct)
qed

lemma create_begin_refused: "create_begin w target_id purpose client m = (Inl e, m') \<Longrightarrow> m' = m"
  by (auto simp: create_begin_def Let_def split: option.splits prod.splits sum.splits dest: upsert_session_frame(4))

lemma machine_create_begin:
  assumes inv: "machine_inv sick (m, ts)" and run: "create_begin w target_id purpose client m = (r, m')"
    and fresh: "isl r \<or> (w_uuid w \<notin> rt_session_id ` set (mg_sessions m)
      \<and> w_uuid w \<notin> sr_id ` set (st_sessions (mg_storage m)))"
  shows "machine_inv sick (m', ts)"
proof (cases r)
  case (Inl e)
  then show ?thesis using create_begin_refused run inv by blast
next
  case (Inr it)
  have st: "st_inv (mg_storage m)"
    using inv by (simp add: machine_inv_def core_inv_def)
  obtain t st' where t: "find_target m target_id = Some t"
      "upsert_session (new_info w t purpose client) (mg_storage m) = (Inr (), st')"
    using run Inr by (auto simp: create_begin_def Let_def split: option.splits prod.splits sum.splits)
  define info where "info = new_info w t purpose client"
  note frame = upsert_session_frame[where s = info and st = "mg_storage m"]
  let ?st = "snd (upsert_session info (mg_storage m))"
  let ?rt = "new_runtime info (w_clock w 1)"
  have m': "r = Inr (info, t)" "m' = m\<lparr>mg_storage := ?st, mg_sessions := mg_sessions m @ [?rt]\<rparr>"
    using run t by (auto simp: create_begin_def Let_def info_def)
  have old: "machine_inv sick (m\<lparr>mg_storage := ?st\<rparr>, ts)"
    by (rule machine_storage[OF inv st_inv_upsert_session(1)[OF st]]) (use frame in auto)
  have unused: "w_uuid w \<notin> sr_id ` set (st_sessions (mg_storage m))" using fresh m' by auto
  have "er_session_id e \<in> sr_id ` set (st_sessions (mg_storage m))" if "e \<in> set (st_events (mg_storage m))" for e
    using st that unfolding st_inv_def st_refs_def by blast
  then have none: "er_session_id e \<noteq> w_uuid w" if "e \<in> set (st_events (mg_storage m))" for e
    using that unused by metis
  have id: "rt_session_id ?rt = w_uuid w" by (simp add: new_runtime_def info_def new_info_def)
  have new: "rt_ok ?st ?rt" "slot_owned sick ts ?rt"
    using st_inv_upsert_session(1)[OF st] none frame(1)
    by (auto simp: rt_ok_def log_inv_def live_ok_def stored_below_def new_runtime_def info_def new_info_def
        slot_owned_def i64_limit_def)
  have "w_uuid w \<notin> rt_session_id ` set (mg_sessions m)" using fresh m' by auto
  then have "core_inv m'"
    using old new id by (auto simp: machine_inv_def core_inv_def m')
  then show ?thesis using old new by (auto simp: machine_inv_def m')
qed

lemma machine_insert:
  assumes inv: "machine_inv sick (m, ts)" and ins: "insert_command c (mg_storage m) = (Inr (), st)"
    and "ci_output_bytes c = 0" "ci_id c \<notin> set (exec_ids ts)"
  shows "machine_inv sick (m\<lparr>mg_storage := st\<rparr>, T_Exec (ci_session_id c) c x b # ts)"
proof -
  have stinv: "st_inv (mg_storage m)"
    using inv by (simp add: machine_inv_def core_inv_def)
  obtain r where r: "st = (mg_storage m)\<lparr>st_commands := st_commands (mg_storage m) @ [r]\<rparr>"
    "cr_id r = ci_id c" "cr_session_id r = ci_session_id c" "ci_id c \<notin> cr_id ` set (st_commands (mg_storage m))"
    using ins by (cases rule: insert_command_cases[of c "mg_storage m"]) auto
  have "st_inv st" using st_inv_insert_command(1)[OF stinv assms(3)] ins by simp
  then have core: "core_inv (m\<lparr>mg_storage := st\<rparr>)"
    using inv stinv r by (intro core_storage) (auto simp: machine_inv_def)
  have other: "ci_id d \<noteq> ci_id c" if "T_Exec i d y e \<in> set ts" for i d y e
    using that assms(4) by (force simp: exec_ids_def map_filter_def)
  have "tasks_ok st (T_Exec (ci_session_id c) c x b # ts)"
  proof -
    have ok: "tasks_ok (mg_storage m) ts" using inv by (simp add: machine_inv_def)
    have "cr_session_id q = i" if "T_Exec i d y e \<in> set ts" "q \<in> set (st_commands st)" "cr_id q = ci_id d" for i d y e q
    proof -
      have "q \<in> set (st_commands (mg_storage m))" using that r other[OF that(1)] by auto
      then show ?thesis using ok that unfolding tasks_ok_def by blast
    qed
    moreover have "cr_session_id q = ci_session_id c" if "q \<in> set (st_commands st)" "cr_id q = ci_id c" for q
      using that r by (auto, metis image_eqI)
    ultimately show ?thesis unfolding tasks_ok_def by auto
  qed
  then show ?thesis
    using inv core slot_owned_mono[of ts "T_Exec (ci_session_id c) c x b # ts" sick] r(1)
    by (auto simp: machine_inv_def)
qed

text \<open>Starting a command, by the point at which it is refused or succeeds.\<close>

lemma start_exec_cases:
  assumes run: "start_exec w i text_of cwd env seconds background m = (r, m')"
  obtains (same) e where "r = Inl e" "m' = m"
  | (connect) e rt where "r = Inl e" "lookup m i = Some rt" "m' = snd (connection_for w rt m)"
  | (channel) e rt where "r = Inl e" "lookup m i = Some rt"
      "m' = discard_connection i (snd (connection_for w rt m))"
  | (insert) e rt m1 e' where "r = Inl e" "lookup m i = Some rt" "m1 = snd (connection_for w rt m)"
      "insert_command (new_command w i text_of) (mg_storage m1) = (Inl e', mg_storage m')"
      "m' = m1\<lparr>mg_storage := mg_storage m'\<rparr>"
  | (started) rt m1 h st d where "lookup m i = Some rt" "background \<or> rt_foreground rt = None"
      "connection_for w rt m = (Inr h, m1)"
      "insert_command (new_command w i text_of) (mg_storage m1) = (Inr (), st)"
      "register_exec w i (new_command w i text_of) background d (m1\<lparr>mg_storage := st\<rparr>) = (r, m')"
proof (cases "lookup m i")
  case None
  then show ?thesis using run same
    by (auto simp: start_exec_def the_runtime_def split: if_splits)
next
  case (Some rt)
  obtain r1 m1 where conn: "connection_for w rt m = (r1, m1)" by fastforce
  note unfold = run[unfolded start_exec_def the_runtime_def Some option.case sum.case]
  show ?thesis
  proof (cases "trim text_of = [] \<or> clearly_interactive text_of \<or> (\<not> background \<and> rt_foreground rt \<noteq> None)
      \<or> isl (build_command (w_debug w) text_of cwd env)")
    case True
    then show ?thesis using unfold same by (auto split: if_splits sum.splits)
  next
    case False
    then obtain line where line: "build_command (w_debug w) text_of cwd env = Inr line"
      by (cases "build_command (w_debug w) text_of cwd env") auto
    show ?thesis
    proof (cases r1)
      case (Inl e)
      then show ?thesis using unfold False line conn Some connect[of e rt] by (auto split: if_splits)
    next
      case (Inr h)
      show ?thesis
      proof (cases "w_open_exec w h line")
        case (Inl e)
        then show ?thesis
          using unfold False line conn \<open>r1 = Inr h\<close> Some channel[of "classify_error e" rt] by (auto split: if_splits)
      next
        case op: (Inr u)
        obtain r2 st where ins: "insert_command (new_command w i text_of) (mg_storage m1) = (r2, st)" by fastforce
        show ?thesis
        proof (cases r2)
          case (Inl e)
          then show ?thesis
            using unfold False line conn \<open>r1 = Inr h\<close> op ins Some insert[of "internal e" rt m1 e]
            by (auto split: if_splits)
        next
          case (Inr v)
          have "background \<or> rt_foreground rt = None" using False by blast
          moreover have "insert_command (new_command w i text_of) (mg_storage m1) = (Inr (), st)"
            using ins Inr by simp
          moreover have "connection_for w rt m = (Inr h, m1)" using conn \<open>r1 = Inr h\<close> by simp
          ultimately show ?thesis
            using started[OF Some, of h m1 st] unfold False line op
            by (auto simp: Let_def split: if_splits)
        qed
      qed
    qed
  qed
qed

end
