(* ===== verification/Session_Safety.thy ===== *)
theory Session_Safety
  imports Session_Machine
begin

text \<open>
  Every step of the session machine keeps its invariant, and what follows from that: the log of
  every session is well formed and an occupied foreground slot is held by a running task.
\<close>

section \<open>Starting commands and shells\<close>

lemma register_exec_inv:
  assumes inv: "machine_inv sick (m, T_Exec i c x background # ts)"
  shows "machine_inv sick (snd (register_exec w i c background d m), T_Exec i c x background # ts)"
proof (cases "lookup m i")
  case None
  then show ?thesis using inv by (simp add: register_exec_def)
next
  case (Some rt)
  have id: "rt_session_id rt = i" using lookup_Some(2)[OF Some] .
  have ok: "slot_owned sick (T_Exec i c x background # ts) rt" using machine_slot[OF inv Some] .
  show ?thesis
  proof (cases background)
    case True
    have "machine_inv sick (put_runtime (rt\<lparr>rt_background := rt_background rt @ [ci_id c]\<rparr>) m, T_Exec i c x background # ts)"
      by (rule machine_upsert(2)[OF inv Some])
        (use ok in \<open>simp_all add: same_log_def slot_owned_def\<close>)
    then show ?thesis using Some True by (simp add: register_exec_def)
  next
    case False
    have "machine_inv sick (snd (upsert_info (rt\<lparr>rt_foreground := Some (FgExec (ci_id c)),
        rt_info := (rt_info rt)\<lparr>si_status := S_ExecRunning, si_current_command := Some (ci_command c),
          si_last_exit_code := None, si_updated_at := w_clock w 1\<rparr>\<rparr>) m), T_Exec i c x background # ts)"
      by (rule machine_upsert(1)[OF inv Some])
        (use False id in \<open>auto simp: same_log_def slot_owned_def\<close>)
    then show ?thesis using Some False by (simp add: register_exec_def case_result_snd)
  qed
qed

lemma connection_for_found:
  assumes inv: "machine_inv sick (m, ts)" and found: "lookup m i = Some rt"
    and conn: "connection_for w rt m = (r, m1)"
  obtains rt1 where "lookup m1 i = Some rt1" "same_log rt rt1" "same_slots rt rt1"
  using keeps_connection_for[OF _ found, of w] inv conn found that by (fastforce simp: keeps_def machine_inv_def)

lemma machine_insert_failed:
  assumes inv: "machine_inv sick (m, ts)" and "insert_command c (mg_storage m) = (Inl e, st)"
  shows "machine_inv sick (m\<lparr>mg_storage := st\<rparr>, ts)"
proof -
  have "st = mg_storage m" using assms(2) by (cases rule: insert_command_cases[of c "mg_storage m"]) auto
  then show ?thesis using inv by simp
qed

lemma register_exec_result:
  "healthy (mg_storage m) \<Longrightarrow> fst (register_exec w i c background d m) = Inr (c, d)"
  "fst (register_exec w i c background d m) \<in> {Inr (c, d)} \<union> range Inl"
proof -
  show "fst (register_exec w i c background d m) = Inr (c, d)" if h: "healthy (mg_storage m)"
    using upsert_info_healthy[OF h]
    by (auto simp: register_exec_def split: option.split sum.split prod.split) (metis fst_conv sum.distinct(1))+
  show "fst (register_exec w i c background d m) \<in> {Inr (c, d)} \<union> range Inl"
    by (auto simp: register_exec_def split: option.split sum.split prod.split)
qed

text \<open>
  Under a sick database the slot clause asks for nothing, so a task may go missing: a start that
  is refused after it took the slot leaves no task behind.
\<close>

lemma machine_sick_tasks:
  assumes "machine_inv sick (m, u # ts)" sick
  shows "machine_inv sick (m, ts)"
  using assms by (auto simp: machine_inv_def tasks_ok_def slot_owned_def)

lemma machine_start_exec:
  assumes inv: "machine_inv sick (m, ts)" and fresh: "w_uuid w \<notin> set (exec_ids ts)"
    and run: "start_exec w i text_of cwd env seconds background m = (r, m')"
  shows "case r of Inl e \<Rightarrow> machine_inv sick (m', ts)
    | Inr (c, d) \<Rightarrow> machine_inv sick (m', T_Exec i c None background # ts)"
  using run
proof (cases rule: start_exec_cases)
  case (same e)
  then show ?thesis using inv by simp
next
  case (connect e rt)
  then show ?thesis using machine_connection_for[OF inv connect(2)] by simp
next
  case (channel e rt)
  then show ?thesis using machine_discard[OF machine_connection_for[OF inv channel(2)]] by simp
next
  case (insert e rt m1 e')
  have "machine_inv sick (m1, ts)" using machine_connection_for[OF inv insert(2), of w] insert(3) by simp
  from machine_insert_failed[OF this insert(4)] have "machine_inv sick (m', ts)"
    unfolding insert(5)[symmetric] .
  then show ?thesis using insert(1) by simp
next
  case (started rt m1 h st d)
  have m1: "machine_inv sick (m1, ts)" using machine_connection_for[OF inv started(1), of w] started(3) by simp
  have c: "ci_id (new_command w i text_of) = w_uuid w" "ci_session_id (new_command w i text_of) = i"
    "ci_output_bytes (new_command w i text_of) = 0"
    by (simp_all add: new_command_def)
  let ?c = "new_command w i text_of"
  let ?m = "m1\<lparr>mg_storage := st\<rparr>"
  have "machine_inv sick (?m, T_Exec i ?c None background # ts)"
    using machine_insert[OF m1 started(4)] c fresh by simp
  from register_exec_inv[OF this, of w d]
  have with_task: "machine_inv sick (m', T_Exec i ?c None background # ts)" using started(5) by simp
  show ?thesis
  proof (cases r)
    case (Inr p)
    then have "p = (?c, d)" using register_exec_result(2)[of w i ?c background d ?m] started(5) by auto
    then show ?thesis using with_task Inr by simp
  next
    case (Inl e)
    have "sick \<or> healthy st"
      using m1 same_health(3)[of ?c "mg_storage m1"] started(4) by (simp add: machine_inv_def)
    moreover have "\<not> healthy st"
      using register_exec_result(1)[of ?m w i ?c background d] started(5) Inl by auto
    ultimately have "sick" by blast
    then show ?thesis using machine_sick_tasks[OF with_task] Inl by simp
  qed
qed

lemma machine_shell_open:
  assumes inv: "machine_inv sick (m, ts)" and run: "shell_open w i cols rows term_name m = (r, m')"
  shows "case r of Inl e \<Rightarrow> machine_inv sick (m', ts) | Inr info \<Rightarrow> machine_inv sick (m', T_Pty i (w_uuid w) # ts)"
proof (cases "lookup m i")
  case None
  then show ?thesis using run inv by (auto simp: shell_open_def the_runtime_def)
next
  case (Some rt)
  obtain r1 m1 where conn: "connection_for w rt m = (r1, m1)" by fastforce
  have m1: "machine_inv sick (m1, ts)" using machine_connection_for[OF inv Some, of w] conn by simp
  note unfold = run[unfolded shell_open_def the_runtime_def Some option.case sum.case]
  show ?thesis
  proof (cases "rt_foreground rt \<noteq> None \<or> isl r1")
    case True
    then show ?thesis using unfold inv m1 conn by (cases r1) (auto split: if_splits)
  next
    case False
    then obtain h where h: "r1 = Inr h" by (cases r1) auto
    obtain rt1 where rt1: "lookup m1 i = Some rt1"
      using connection_for_found[OF inv Some conn] by blast
    let ?rt = "rt1\<lparr>rt_foreground := Some (FgPty (w_uuid w)), rt_info := (rt_info rt1)
      \<lparr>si_status := S_PtyOpen, si_current_command := Some ''Interactive shell'', si_updated_at := w_clock w 1\<rparr>\<rparr>"
    have core: "core_inv m1" using m1 by (simp add: machine_inv_def)
    have add: "machine_inv sick (m1, T_Pty i (w_uuid w) # ts)"
      by (rule machine_tasks[OF m1]) (auto intro: slot_owned_mono[rotated])
    have "machine_inv sick (snd (upsert_info ?rt m1), T_Pty i (w_uuid w) # ts)"
      by (rule machine_upsert(1)[OF add rt1])
        (use lookup_Some(2)[OF rt1] in \<open>simp_all add: same_log_def slot_owned_def\<close>)
    moreover obtain r2 m2 where up: "upsert_info ?rt m1 = (r2, m2)" by fastforce
    ultimately have m2: "machine_inv sick (m2, T_Pty i (w_uuid w) # ts)" by simp
    have "sick" if "r2 = Inl e" for e
      using upsert_info_healthy[of m1 ?rt] up that m1 by (auto simp: machine_inv_def)
    then have refused: "machine_inv sick (m2, ts)" if "r2 = Inl e" for e
      using that machine_sick_tasks[OF m2] \<open>\<And>e. r2 = Inl e \<Longrightarrow> sick\<close> by blast
    show ?thesis
    proof (cases "w_open_pty w h (clamp cols 20 1000) (clamp rows 5 500) term_name")
      case (Inl e)
      then show ?thesis using unfold False conn h machine_discard[OF m1, of i] by auto
    next
      case (Inr u)
      then have "(\<exists>e. r2 = Inl e \<and> isl r \<or> r2 = Inr () \<and> r = Inr (rt_info ?rt)) \<and> m' = m2"
        using unfold False conn h rt1 up by (cases r2) (auto simp: Let_def)
      then show ?thesis using m2 refused by (auto split: sum.split)
    qed
  qed
qed

section \<open>Output and the end of tasks\<close>

lemma append_event_frame:
  assumes "append_event e st = (r, e', st')"
  shows "st_fault st' = st_fault st"
    "map (\<lambda>r. (cr_id r, cr_session_id r)) (st_commands st') = map (\<lambda>r. (cr_id r, cr_session_id r)) (st_commands st)"
proof -
  show "st_fault st' = st_fault st" using same_fault(5)[of e st] assms by simp
  show "map (\<lambda>r. (cr_id r, cr_session_id r)) (st_commands st') = map (\<lambda>r. (cr_id r, cr_session_id r)) (st_commands st)"
    by (cases rule: append_event_cases[of e st]) (use assms in \<open>simp_all add: partial_defs\<close>)
qed

lemma rt_ok_other_event:
  assumes "rt_ok st rt" "st_inv st'" "append_event e st = (r, e', st')" "te_session_id e \<noteq> rt_session_id rt"
  shows "rt_ok st' rt"
proof -
  note out = append_event_events[OF assms(3)]
  have "er_session_id q \<noteq> rt_session_id rt \<or> q \<in> set (st_events st)" if "q \<in> set (st_events st')" for q
    using out that assms(4) by auto
  then show ?thesis using assms(1,2) unfolding rt_ok_def log_inv_def stored_below_def by metis
qed

text \<open>Recording under a session of the table, from a runtime that differs only outside the log.\<close>

lemma machine_record:
  assumes inv: "machine_inv sick (m, ts)" and found: "lookup m i = Some rt" and same: "same_log rt rt0" "same_slots rt rt0"
    "rt_info rt0 = rt_info rt" "rt_connection rt0 = rt_connection rt"
    and room: "Suc (rt_sequence rt) < i64_limit"
    and ok: "event_command_ok (recorded now c k d rt0) (mg_storage m)"
    and run: "record_event now c k d rt0 (mg_storage m) = (rt', st')"
  shows "machine_inv sick ((put_runtime rt' m)\<lparr>mg_storage := st'\<rparr>, ts)"
proof -
  have core: "core_inv m" and slot: "slot_owned sick ts rt"
    using inv machine_slot[OF inv found] by (simp_all add: machine_inv_def)
  have id: "rt_session_id rt = i" "rt_session_id rt0 = i"
    using lookup_Some(2)[OF found] same(1) by (simp_all add: same_log_def)
  have rt0: "rt_ok (mg_storage m) rt0"
    using core lookup_Some(1)[OF found] rt_ok_same_log[OF same(1)] by (simp add: core_inv_def)
  have room0: "Suc (rt_sequence rt0) < i64_limit" using room same(1) by (simp add: same_log_def)
  have log: "log_inv rt' st'"
    using log_inv_record[OF _ room0 ok run] rt0 by (simp add: rt_ok_def)
  obtain res e st1 where app: "append_event (recorded now c k d rt0) (mg_storage m) = (res, e, st1)"
    by (cases "append_event (recorded now c k d rt0) (mg_storage m)") auto
  have rt': "st' = st1" "rt_session_id rt' = i" "rt_info rt' = rt_info rt" "rt_foreground rt' = rt_foreground rt"
    "rt_connection rt' = rt_connection rt"
    by (cases rule: record_event_cases[OF run app]; use id same in \<open>simp add: same_slots_def\<close>)+
  have st': "st_inv st'" "st_fault st' = st_fault (mg_storage m)"
    using log append_event_frame(1)[OF app] core rt'(1) by (simp_all add: log_inv_def core_inv_def)
  let ?m = "(put_runtime rt' m)\<lparr>mg_storage := st'\<rparr>"
  have others: "rt_ok st' q" if "q \<in> set (mg_sessions m)" "rt_session_id q \<noteq> i" for q
    using rt_ok_other_event[OF _ _ app] that core st' id rt'(1) by (auto simp: core_inv_def)
  have "rt_ok st' rt'" using log rt0 rt' id same by (simp add: rt_ok_def)
  then have "core_inv ?m"
    using core st' others rt'(2) put_runtime_set[of _ rt' m] by (auto simp: core_inv_def)
  moreover have "slot_owned sick ts rt'"
    using slot rt' id by (simp_all add: slot_owned_def)
  then have "slot_owned sick ts q" if "q \<in> set (mg_sessions ?m)" for q
    using that inv put_runtime_set[of q rt' m] by (auto simp: machine_inv_def)
  moreover have "tasks_ok st' ts"
  proof -
    have "(\<lambda>r. (cr_id r, cr_session_id r)) ` set (st_commands st') =
        (\<lambda>r. (cr_id r, cr_session_id r)) ` set (st_commands (mg_storage m))"
      using append_event_frame(2)[OF app] rt'(1) by (metis set_map)
    then show ?thesis
      using inv tasks_ok_same_commands[of "mg_storage m" ts st'] by (auto simp: machine_inv_def)
  qed
  moreover have "sick \<or> healthy st'" using inv st'(2) by (simp add: machine_inv_def healthy_def)
  ultimately show ?thesis by (simp add: machine_inv_def)
qed

lemma slot_owned_replace:
  assumes own: "slot_owned sick ts rt" and "T_Exec i c x' b \<in> set ts'"
    and keep: "\<And>u. u \<in> set ts \<Longrightarrow> u \<noteq> T_Exec i c x b \<Longrightarrow> u \<in> set ts'"
  shows "slot_owned sick ts' rt"
proof (cases sick)
  case False
  have "\<exists>d z. T_Exec (rt_session_id rt) d z False \<in> set ts' \<and> ci_id d = k" if slot: "rt_foreground rt = Some (FgExec k)" for k
  proof -
    obtain d z where d: "T_Exec (rt_session_id rt) d z False \<in> set ts" "ci_id d = k"
      using own slot False unfolding slot_owned_def by blast
    show ?thesis
    proof (cases "T_Exec (rt_session_id rt) d z False = T_Exec i c x b")
      case True
      then show ?thesis using assms(2) d(2) by auto
    qed (use keep d in blast)
  qed
  moreover have "T_Pty (rt_session_id rt) p \<in> set ts'" if "rt_foreground rt = Some (FgPty p)" for p
    using own that keep False unfolding slot_owned_def by simp
  ultimately show ?thesis by (simp add: slot_owned_def)
qed (simp add: slot_owned_def)

text \<open>What a running command records belongs to its own session.\<close>

lemma task_event_ok:
  assumes inv: "machine_inv sick (m, ts)" and task: "T_Exec i c x b \<in> set ts" and found: "lookup m i = Some rt"
  shows "event_command_ok (recorded n (Some (ci_id c)) k d rt) (mg_storage m)"
proof -
  have "tasks_ok (mg_storage m) ts" using inv by (simp add: machine_inv_def)
  then have "\<forall>r \<in> set (st_commands (mg_storage m)). cr_id r = ci_id c \<longrightarrow> cr_session_id r = i"
    using task unfolding tasks_ok_def by blast
  then show ?thesis using lookup_Some(2)[OF found] by (auto simp: event_command_ok_def)
qed

lemma machine_exec_event:
  assumes inv: "machine_inv sick (m, ts)" and task: "T_Exec i c x b \<in> set ts"
    and room: "\<And>rt. lookup m i = Some rt \<Longrightarrow> Suc (rt_sequence rt) < i64_limit"
    and run: "exec_event w i c x ev m = (x', m')"
  shows "machine_inv sick (m', T_Exec i c x' b # remove1 (T_Exec i c x b) ts)"
proof -
  have m': "machine_inv sick (m', ts)"
  proof (cases "lookup m i")
    case None
    then show ?thesis using run inv by (auto simp: exec_event_def Let_def split: channel_event.splits)
  next
    case (Some rt)
    have "event_command_ok (recorded n (Some (ci_id c)) k d rt) (mg_storage m)" for n k d
      by (rule task_event_ok[OF inv task Some])
    then have "machine_inv sick (case record_event n (Some (ci_id c)) k d rt (mg_storage m) of
        (rt', st') \<Rightarrow> (put_runtime rt' m)\<lparr>mg_storage := st'\<rparr>, ts)" for n k d
      using machine_record[OF inv Some same_refl refl refl room[OF Some]] by (auto split: prod.split; blast)
    then show ?thesis
      using run Some inv by (auto simp: exec_event_def Let_def split: channel_event.splits)
  qed
  show ?thesis
  proof (rule machine_tasks[OF m'])
    show "\<exists>y e. T_Exec j d y e \<in> set ts" if "T_Exec j d z e \<in> set (T_Exec i c x' b # remove1 (T_Exec i c x b) ts)" for j d z e
      using that task notin_set_remove1 by (metis set_ConsD task.inject(2))
    show "slot_owned sick ts rt \<Longrightarrow> slot_owned sick (T_Exec i c x' b # remove1 (T_Exec i c x b) ts) rt" for rt
      by (erule slot_owned_replace[where x = x]) auto
  qed
qed

lemma machine_pty_data:
  assumes inv: "machine_inv sick (m, ts)"
    and room: "\<And>rt. lookup m i = Some rt \<Longrightarrow> Suc (rt_sequence rt) < i64_limit"
  shows "machine_inv sick (pty_data w i d m, ts)"
proof (cases "lookup m i")
  case (Some rt)
  have "machine_inv sick (case record_event (w_clock w 1) None Pty d (rt\<lparr>rt_last_activity := w_clock w 0\<rparr>) (mg_storage m) of
        (rt', st') \<Rightarrow> (put_runtime rt' m)\<lparr>mg_storage := st'\<rparr>, ts)"
    using machine_record[OF inv Some _ _ _ _ room[OF Some], of "rt\<lparr>rt_last_activity := w_clock w 0\<rparr>" "w_clock w 1" None Pty d]
    by (auto simp: same_log_def same_slots_def event_command_ok_def split: prod.split)
  then show ?thesis using Some by (simp add: pty_data_def)
qed (use inv in \<open>simp add: pty_data_def\<close>)

text \<open>A task that ends: the slots of the other sessions belong to other tasks.\<close>

lemma slot_owned_remove_exec:
  assumes "slot_owned sick ts rt" "rt_session_id rt \<noteq> i \<or> b \<or> rt_foreground rt \<noteq> Some (FgExec (ci_id c))"
  shows "slot_owned sick (remove1 (T_Exec i c x b) ts) rt"
proof -
  have keep: "u \<in> set ts \<Longrightarrow> u \<noteq> T_Exec i c x b \<Longrightarrow> u \<in> set (remove1 (T_Exec i c x b) ts)" for u by simp
  show ?thesis using assms keep unfolding slot_owned_def by (metis task.distinct(7) task.inject(2))
qed

lemma slot_owned_remove_pty:
  assumes "slot_owned sick ts rt" "rt_session_id rt \<noteq> i \<or> rt_foreground rt \<noteq> Some (FgPty p)"
  shows "slot_owned sick (remove1 (T_Pty i p) ts) rt"
proof -
  have keep: "u \<in> set ts \<Longrightarrow> u \<noteq> T_Pty i p \<Longrightarrow> u \<in> set (remove1 (T_Pty i p) ts)" for u by simp
  show ?thesis using assms keep unfolding slot_owned_def by (metis task.distinct(7) task.inject(3))
qed

lemma tasks_ok_remove: "tasks_ok st ts \<Longrightarrow> tasks_ok st (remove1 u ts)"
  unfolding tasks_ok_def by (meson notin_set_remove1)

lemma machine_end:
  assumes inv: "machine_inv sick (m', ts)"
    and "\<And>rt. rt \<in> set (mg_sessions m') \<Longrightarrow> slot_owned sick ts rt \<Longrightarrow> slot_owned sick (remove1 u ts) rt"
  shows "machine_inv sick (m', remove1 u ts)"
  using assms tasks_ok_remove by (auto simp: machine_inv_def)

text \<open>What the end of a command leaves in its session.\<close>

definition ended :: "str \<Rightarrow> bool \<Rightarrow> runtime \<Rightarrow> runtime \<Rightarrow> bool" where
  "ended k b rt rt' \<longleftrightarrow> same_log rt rt' \<and> (si_status (rt_info rt) = S_Closed \<longrightarrow> rt_info rt' = rt_info rt)
     \<and> (rt_connection rt = None \<longrightarrow> rt_connection rt' = None)
     \<and> rt_foreground rt' = (if \<not> b \<and> rt_foreground rt = Some (FgExec k) then None else rt_foreground rt)"

lemma run_exec_end_runtime:
  assumes "lookup m i = Some rt" and
    m1: "m1 = m\<lparr>mg_storage := snd (update_command (finished_command w c x why rt (mg_storage m)) (mg_storage m))\<rparr>"
  obtains rt' where "ended (ci_id c) b rt rt'"
    "run_exec_end w i c x b why m = put_runtime rt' m1 \<or> run_exec_end w i c x b why m = snd (upsert_info rt' m1)"
proof -
  define interrupted where "interrupted = (end_status why x = C_Interrupted)"
  define rt1 where "rt1 = rt\<lparr>rt_last_activity := w_clock w 1,
      rt_connection := (if interrupted then None else rt_connection rt)\<rparr>"
  define rt2 where "rt2 = rt1\<lparr>rt_foreground :=
      (if rt_foreground rt1 = Some (FgExec (ci_id c)) then None else rt_foreground rt1)\<rparr>"
  define bg where "bg = send_modify (rt1\<lparr>rt_background := filter (\<lambda>i. i \<noteq> ci_id c) (rt_background rt1)\<rparr>)"
  define fg where "fg = send_modify (rt2\<lparr>rt_info := (rt_info rt2)
      \<lparr>si_status := (if interrupted then S_Disconnected else S_Idle), si_current_command := None,
       si_last_exit_code := x, si_updated_at := w_clock w 2\<rparr>\<rparr>)"
  have eq: "run_exec_end w i c x b why m = (if b then put_runtime bg m1
      else if si_status (rt_info rt2) \<noteq> S_Closed then snd (upsert_info fg m1) else put_runtime (send_modify rt2) m1)"
    using assms(1) unfolding run_exec_end_def m1 interrupted_def rt1_def rt2_def bg_def fg_def
    by (simp add: finished_command_def Let_def)
  have "b \<Longrightarrow> ended (ci_id c) b rt bg"
    "\<not> b \<Longrightarrow> si_status (rt_info rt2) \<noteq> S_Closed \<Longrightarrow> ended (ci_id c) b rt fg"
    "\<not> b \<Longrightarrow> ended (ci_id c) b rt (send_modify rt2)"
    unfolding bg_def fg_def rt2_def rt1_def by (simp_all add: ended_def same_log_def send_modify_def)
  then show ?thesis using that eq by (cases b; cases "si_status (rt_info rt2) = S_Closed"; simp; blast)
qed

lemma machine_exec_end:
  assumes inv: "machine_inv sick (m, ts)"
  shows "machine_inv sick (run_exec_end w i c x b why m, remove1 (T_Exec i c x b) ts)"
proof (cases "lookup m i")
  case None
  have "rt_session_id rt \<noteq> i" if "rt \<in> set (mg_sessions m)" for rt
    using None core_lookup[OF _ that] inv by (auto simp: machine_inv_def)
  then have "slot_owned sick ts rt \<Longrightarrow> slot_owned sick (remove1 (T_Exec i c x b) ts) rt" if "rt \<in> set (mg_sessions m)" for rt
    using that slot_owned_remove_exec by blast
  then show ?thesis using None inv by (auto simp: run_exec_end_def intro: machine_end)
next
  case (Some rt)
  define m1 where "m1 = m\<lparr>mg_storage := snd (update_command (finished_command w c x why rt (mg_storage m)) (mg_storage m))\<rparr>"
  have core: "core_inv m" and ok: "slot_owned sick ts rt"
    using inv machine_slot[OF inv Some] by (simp_all add: machine_inv_def)
  have m1: "machine_inv sick (m1, ts)" unfolding m1_def
  proof (rule machine_storage[OF inv])
    show "(\<lambda>r. (cr_id r, cr_session_id r)) ` set (st_commands (snd (update_command
        (finished_command w c x why rt (mg_storage m)) (mg_storage m))))
      \<subseteq> (\<lambda>r. (cr_id r, cr_session_id r)) ` set (st_commands (mg_storage m))"
      using arg_cong[OF update_command_frame(2), of set] by simp
  qed (use core in \<open>simp_all add: update_command_frame core_inv_def st_inv_update_command\<close>)
  obtain rt' where rt': "ended (ci_id c) b rt rt'"
    "run_exec_end w i c x b why m = put_runtime rt' m1 \<or> run_exec_end w i c x b why m = snd (upsert_info rt' m1)"
    using run_exec_end_runtime[OF Some m1_def] by blast
  have found: "lookup m1 i = Some rt" using Some by (simp add: m1_def)
  have id: "rt_session_id rt' = i" using lookup_Some(2)[OF Some] rt'(1) by (simp add: ended_def same_log_def)
  have "slot_owned sick ts rt'" "same_log rt rt'"
    using ok rt'(1) by (auto simp: ended_def same_log_def slot_owned_def)
  note mach = machine_upsert[OF m1 found this(2,1)]
  have fin: "machine_inv sick (run_exec_end w i c x b why m, ts)" using mach rt'(2) by auto
  have "lookup (put_runtime rt' m1) i = Some rt'" using found id by (simp add: lookup_put_runtime)
  moreover have "lookup (snd (upsert_info rt' m1)) i = Some rt'"
    using touches_upsert_info(2)[of m1 rt'] m1 found id by (simp add: machine_inv_def)
  ultimately have at: "lookup (run_exec_end w i c x b why m) i = Some rt'" using rt'(2) by auto
  show ?thesis
  proof (rule machine_end[OF fin])
    fix q assume q: "q \<in> set (mg_sessions (run_exec_end w i c x b why m))" "slot_owned sick ts q"
    have "q = rt'" if "rt_session_id q = i"
      using core_lookup[OF _ q(1)] fin at that by (simp add: machine_inv_def)
    moreover have "b \<or> rt_foreground rt' \<noteq> Some (FgExec (ci_id c))" using rt'(1) by (simp add: ended_def)
    ultimately show "slot_owned sick (remove1 (T_Exec i c x b) ts) q"
      using slot_owned_remove_exec[OF q(2)] by blast
  qed
qed

lemma machine_pty_end:
  assumes inv: "machine_inv sick (m, ts)"
  shows "machine_inv sick (run_pty_end w i p m, remove1 (T_Pty i p) ts)"
proof (cases "lookup m i")
  case None
  have "rt_session_id rt \<noteq> i" if "rt \<in> set (mg_sessions m)" for rt
    using None core_lookup[OF _ that] inv by (auto simp: machine_inv_def)
  then have "slot_owned sick ts rt \<Longrightarrow> slot_owned sick (remove1 (T_Pty i p) ts) rt" if "rt \<in> set (mg_sessions m)" for rt
    using that slot_owned_remove_pty by blast
  then show ?thesis using None inv by (auto simp: run_pty_end_def intro: machine_end)
next
  case (Some rt)
  have core: "core_inv m" and ok: "slot_owned sick ts rt"
    using inv machine_slot[OF inv Some] by (simp_all add: machine_inv_def)
  define rt1 where "rt1 = (if rt_foreground rt \<noteq> Some (FgPty p) then rt
    else rt\<lparr>rt_foreground := None, rt_connection := None\<rparr>)"
  define rt2 where "rt2 = send_modify (rt1\<lparr>rt_info := (rt_info rt1)
    \<lparr>si_status := (if rt_foreground rt \<noteq> Some (FgPty p) then S_Idle else S_Disconnected),
     si_current_command := None, si_updated_at := w_clock w 0\<rparr>\<rparr>)"
  have eq: "run_pty_end w i p m = (if si_status (rt_info rt1) \<noteq> S_Closed then snd (upsert_info rt2 m)
      else put_runtime (send_modify rt1) m)"
    using Some unfolding run_pty_end_def rt1_def rt2_def by (simp add: Let_def)
  have props: "same_log rt rt2" "same_log rt (send_modify rt1)" "slot_owned sick ts rt2" "slot_owned sick ts (send_modify rt1)"
    "rt_foreground rt2 \<noteq> Some (FgPty p)" "rt_foreground (send_modify rt1) \<noteq> Some (FgPty p)"
    "rt_session_id rt2 = i" "rt_session_id (send_modify rt1) = i"
    using ok lookup_Some(2)[OF Some] unfolding rt2_def rt1_def
    by (auto simp: same_log_def slot_owned_def send_modify_def)
  have fin: "machine_inv sick (run_pty_end w i p m, ts)"
    using machine_upsert[OF inv Some] props eq by auto
  have at: "lookup (run_pty_end w i p m) i \<in> {Some rt2, Some (send_modify rt1)}"
    using eq props Some touches_upsert_info(2)[OF core, of rt2] by (auto simp: lookup_put_runtime)
  show ?thesis
  proof (rule machine_end[OF fin])
    fix q assume q: "q \<in> set (mg_sessions (run_pty_end w i p m))" "slot_owned sick ts q"
    have "q \<in> {rt2, send_modify rt1}" if "rt_session_id q = i"
      using core_lookup[OF _ q(1)] fin at that by (auto simp: machine_inv_def)
    then show "slot_owned sick (remove1 (T_Pty i p) ts) q"
      using slot_owned_remove_pty[OF q(2)] props(5,6) by auto
  qed
qed

section \<open>The invariant of the machine\<close>

definition fresh_machine :: "bool \<Rightarrow> machine \<Rightarrow> bool" where
  "fresh_machine sick s \<longleftrightarrow> (\<exists>c ps st. st_inv st \<and> (sick \<or> healthy st) \<and> s = (new_manager c ps st, []))"

lemma machine_step:
  assumes "mg_step sick s s'" "machine_inv sick s"
  shows "machine_inv sick s'"
  using assms
proof (cases rule: mg_step.cases)
  case (ms_create w target_id purpose client m info t m' ts)
  then have "machine_inv sick (m', ts)" using machine_create_begin[of sick m ts w] assms(2) by simp
  then have "machine_inv sick (m', T_Create (si_id info) t # ts)"
    by (rule machine_tasks) (auto intro: slot_owned_mono[rotated])
  then show ?thesis using ms_create(2) by simp
next
  case (ms_exec w i text_of cwd env seconds background m c deadline m' ts)
  then show ?thesis using machine_start_exec[OF _ ms_exec(4,3)] assms(2) by auto
next
  case (ms_exec_refused w i text_of cwd env seconds background m e m' ts)
  then show ?thesis using machine_start_exec[OF _ ms_exec_refused(4,3)] assms(2) by auto
next
  case (ms_shell w i cols rows term_name m info m' ts)
  then show ?thesis using machine_shell_open[of sick m ts w i cols rows term_name "Inr info" m'] assms(2) by auto
next
  case (ms_shell_refused w i cols rows term_name m e m' ts)
  then show ?thesis using machine_shell_open[of sick m ts w i cols rows term_name "Inl e" m'] assms(2) by auto
next
  case (ms_create_refused w target_id purpose client m e m' ts)
  then show ?thesis using machine_create_begin[of sick m ts w target_id purpose client "Inl e" m'] assms(2) by simp
next
  case (ms_dial m j rt w t n ts)
  then have "machine_inv sick (m, ts)" using assms(2) by simp
  then have "machine_inv sick (m, T_Dial j t n # ts)"
    by (rule machine_tasks) (auto intro: slot_owned_mono[rotated])
  then show ?thesis using ms_dial(2) by simp
next
  case (ms_database m ts f)
  then show ?thesis using assms(2) by (auto simp: machine_inv_def core_inv_def rt_ok_def log_inv_def slot_owned_def tasks_ok_def stored_below_def)
qed (use assms(2) in \<open>auto simp: command_cancel_def reload_config_def machine_create_finish machine_remove_task
    machine_dial_end
    machine_close machine_exec_event machine_exec_end machine_pty_data machine_pty_end machine_shell_write
    machine_shell_close machine_reap machine_discard split: sum.split\<close>)

interpretation mach: step_invariant "fresh_machine sick" "mg_step sick" "machine_inv sick" for sick
proof
  show "fresh_machine sick s \<Longrightarrow> machine_inv sick s" for s
    by (auto simp: fresh_machine_def new_manager_def machine_inv_def core_inv_def tasks_ok_def)
  show "mg_step sick s s' \<Longrightarrow> machine_inv sick s \<Longrightarrow> machine_inv sick s'" for s s'
    by (rule machine_step)
qed

end
