(* ===== verification/Session_Runs.thy ===== *)
theory Session_Runs
  imports Session_Safety
begin

text \<open>
  What the invariant of the session machine gives: the safety of every reachable state, and that
  a closed session stays closed. Then the outcome of a command's end, the bound on dialling, and
  three runs in which the code falls short of its intent.
\<close>

section \<open>Closed sessions\<close>

definition closed_rt :: "runtime \<Rightarrow> bool" where
  "closed_rt rt \<longleftrightarrow> si_status (rt_info rt) = S_Closed \<and> rt_connection rt = None \<and> rt_foreground rt = None"

definition closed_in :: "str \<Rightarrow> manager \<Rightarrow> bool" where
  "closed_in i m \<longleftrightarrow> (\<exists>rt. lookup m i = Some rt \<and> closed_rt rt)"

lemma closed_in_same: "lookup m' i = lookup m i \<Longrightarrow> closed_in i m \<Longrightarrow> closed_in i m'"
  by (simp add: closed_in_def)

lemma lookup_upsert_info: "lookup (snd (upsert_info rt m)) = lookup (put_runtime rt m)"
  by (simp add: upsert_info_def fun_eq_iff split: prod.split)

lemma closed_put:
  assumes "closed_in i m" "lookup m j = Some rt" "rt_session_id rt' = j"
    and "closed_rt rt \<Longrightarrow> closed_rt rt'"
  shows "closed_in i (put_runtime rt' m)" "closed_in i (snd (upsert_info rt' m))"
  using assms by (auto simp: closed_in_def lookup_upsert_info lookup_put_runtime)

lemma closed_in_other [simp]:
  "closed_in i (m\<lparr>mg_storage := st\<rparr>) = closed_in i m" "closed_in i (m\<lparr>mg_cancelled := cs\<rparr>) = closed_in i m"
  "closed_in i (m\<lparr>mg_config := c\<rparr>) = closed_in i m"
  by (simp_all add: closed_in_def)

lemma closed_connection_for:
  assumes "core_inv m" "lookup m j = Some rt" "closed_in i m"
  shows "closed_in i (snd (connection_for w rt m))"
    "closed_rt rt \<Longrightarrow> isl (fst (connection_for w rt m)) \<and> snd (connection_for w rt m) = m"
proof -
  show refused: "closed_rt rt \<Longrightarrow> isl (fst (connection_for w rt m)) \<and> snd (connection_for w rt m) = m"
    by (simp add: closed_rt_def connection_for_def connect_runtime_def)
  have "touches j m (snd (connection_for w rt m))"
    using keeps_connection_for[OF assms(1,2)] by (simp add: keeps_def)
  then have "j = i \<or> lookup (snd (connection_for w rt m)) i = lookup m i" by (auto simp: touches_def)
  then show "closed_in i (snd (connection_for w rt m))"
    using refused assms(2,3) by (auto simp: closed_in_def)
qed

text \<open>After a dial that succeeded, a runtime of the session may be put whatever it says.\<close>

lemma closed_connected:
  assumes "core_inv m" "lookup m j = Some rt" "closed_in i m" "connection_for w rt m = (Inr h, m1)"
    and "rt_session_id rt' = j"
  shows "closed_in i (put_runtime rt' m1)" "closed_in i (snd (upsert_info rt' m1))"
    "closed_in i (put_runtime rt' (m1\<lparr>mg_storage := st\<rparr>))" "closed_in i (snd (upsert_info rt' (m1\<lparr>mg_storage := st\<rparr>)))"
proof -
  have "i \<noteq> j" using closed_connection_for(2)[OF assms(1-3), of w] assms(2-4) by (auto simp: closed_in_def)
  moreover have "closed_in i m1" using closed_connection_for(1)[OF assms(1-3), of w] assms(4) by simp
  ultimately show "closed_in i (put_runtime rt' m1)" "closed_in i (snd (upsert_info rt' m1))"
    "closed_in i (put_runtime rt' (m1\<lparr>mg_storage := st\<rparr>))" "closed_in i (snd (upsert_info rt' (m1\<lparr>mg_storage := st\<rparr>)))"
    using assms(5) by (simp_all add: closed_in_def lookup_upsert_info lookup_put_runtime)
qed

lemma closed_dial_end: "closed_in i m \<Longrightarrow> j \<noteq> i \<Longrightarrow> closed_in i (snd (dial_end w j t n m))"
  by (auto simp: dial_end_def Let_def closed_in_def lookup_upsert_info lookup_put_runtime lookup_Some(2)
      split: option.split sum.split)

lemma closed_discard: "closed_in i m \<Longrightarrow> closed_in i (discard_connection j m)"
  using closed_put(1)[of i m j] lookup_Some(2)[of m j] by (auto simp: closed_rt_def discard_connection_def split: option.split)

lemma closed_close:
  assumes "closed_in i m"
  shows "closed_in i (snd (close w j m))"
proof (cases "lookup m j")
  case (Some rt)
  let ?m = "m\<lparr>mg_cancelled := mg_cancelled m @ ((case rt_foreground rt of Some (FgExec c) \<Rightarrow> [c] | _ \<Rightarrow> [])
      @ rt_background rt)\<rparr>"
  have "snd (close w j m) = snd (upsert_info (closed_runtime (w_clock w 0) rt) ?m)"
    using Some by (simp add: close_def the_runtime_def Let_def split: prod.split)
  moreover have "closed_in i (snd (upsert_info (closed_runtime (w_clock w 0) rt) ?m))"
    by (rule closed_put(2)[where j = j and rt = rt])
      (use assms Some lookup_Some(2)[OF Some] in \<open>simp_all add: closed_runtime_def closed_rt_def\<close>)
  ultimately show ?thesis by simp
qed (use assms in \<open>simp add: close_def the_runtime_def\<close>)

lemma closed_reap: "closed_in i m \<Longrightarrow> closed_in i (reap_idle w m)"
proof -
  have "closed_in i (fold (\<lambda>j m. case lookup m j of None \<Rightarrow> m | Some rt \<Rightarrow>
      if P rt then snd (close w j m) else m) js m)" if "closed_in i m" for P js m
    using that by (induction js arbitrary: m) (auto simp: closed_close split: option.split)
  then show "closed_in i m \<Longrightarrow> closed_in i (reap_idle w m)" by (simp add: reap_idle_def Let_def)
qed

lemma closed_start_exec:
  assumes inv: "core_inv m" and closed: "closed_in i m"
    and run: "start_exec w j text_of cwd env seconds background m = (r, m')"
  shows "closed_in i m'"
  using run
proof (cases rule: start_exec_cases)
  case (same e)
  then show ?thesis using closed by simp
next
  case (connect e rt)
  then show ?thesis using closed_connection_for(1)[OF inv connect(2) closed] by simp
next
  case (channel e rt)
  then show ?thesis using closed_discard[OF closed_connection_for(1)[OF inv channel(2) closed]] by simp
next
  case (insert e rt m1 e')
  then have "closed_in i m1" using closed_connection_for(1)[OF inv insert(2) closed] by simp
  then show ?thesis using insert(5) by (metis closed_in_other(1))
next
  case (started rt m1 h st d)
  note put = closed_connected[OF inv started(1) closed started(3)]
  have "closed_in i m1" using closed_connection_for(1)[OF inv started(1) closed, of w] started(3) by simp
  moreover have "m' = snd (register_exec w j (new_command w j text_of) background d (m1\<lparr>mg_storage := st\<rparr>))"
    using started(5) by simp
  ultimately show ?thesis
    using lookup_Some(2)[of m1 j]
    by (auto simp: register_exec_def case_result_snd split: option.split intro!: put(3,4))
qed

lemma closed_shell_open:
  assumes inv: "core_inv m" and closed: "closed_in i m"
    and run: "shell_open w j cols rows term_name m = (r, m')"
  shows "closed_in i m'"
proof (cases "lookup m j")
  case None
  then show ?thesis using run closed by (auto simp: shell_open_def the_runtime_def)
next
  case (Some rt)
  obtain r1 m1 where conn: "connection_for w rt m = (r1, m1)" by fastforce
  have m1: "closed_in i m1" using closed_connection_for(1)[OF inv Some closed, of w] conn by simp
  have "closed_in i (snd (upsert_info rt' m1))" if "r1 = Inr h" "rt_session_id rt' = j" for h rt'
    using closed_connected(2)[OF inv Some closed] conn that by blast
  moreover have "rt_session_id q = j" if "lookup m1 j = Some q" for q using lookup_Some(2)[OF that] .
  ultimately have "closed_in i (snd (shell_open w j cols rows term_name m))"
    using Some closed conn m1 closed_discard[OF m1]
    by (auto simp: shell_open_def the_runtime_def Let_def case_result_snd split: option.split sum.split)
  then show ?thesis using run by simp
qed

lemma closed_record:
  assumes "closed_in i m" "lookup m j = Some rt" "closed_rt rt \<Longrightarrow> closed_rt rt0" "rt_session_id rt0 = j"
    and "record_event now c k d rt0 (mg_storage m) = (rt', st')"
  shows "closed_in i ((put_runtime rt' m)\<lparr>mg_storage := st'\<rparr>)"
proof -
  obtain res e st1 where app: "append_event (recorded now c k d rt0) (mg_storage m) = (res, e, st1)"
    by (cases "append_event (recorded now c k d rt0) (mg_storage m)") auto
  have "closed_rt rt' = closed_rt rt0" "rt_session_id rt' = j"
    by (cases rule: record_event_cases[OF assms(5) app]; use assms(4) in \<open>simp add: closed_rt_def\<close>)+
  then show ?thesis using closed_put(1)[OF assms(1,2)] assms(3) by simp
qed

lemma closed_exec_event:
  assumes "closed_in i m" "exec_event w j c x ev m = (x', m')"
  shows "closed_in i m'"
proof (cases "lookup m j")
  case (Some rt)
  have "closed_in i (case record_event n (Some (ci_id c)) k d rt (mg_storage m) of
      (rt', st') \<Rightarrow> (put_runtime rt' m)\<lparr>mg_storage := st'\<rparr>)" for n k d
    using closed_record[OF assms(1) Some _ lookup_Some(2)[OF Some]] by (auto split: prod.split)
  then show ?thesis using assms Some by (auto simp: exec_event_def Let_def split: channel_event.splits)
qed (use assms in \<open>auto simp: exec_event_def Let_def split: channel_event.splits\<close>)

lemma closed_pty_data:
  assumes "closed_in i m"
  shows "closed_in i (pty_data w j d m)"
proof (cases "lookup m j")
  case (Some rt)
  then show ?thesis
    using closed_record[OF assms Some, of "rt\<lparr>rt_last_activity := w_clock w 0\<rparr>"] lookup_Some(2)[OF Some]
    by (auto simp: pty_data_def closed_rt_def split: prod.split)
qed (use assms in \<open>simp add: pty_data_def\<close>)

lemma closed_exec_end:
  assumes "closed_in i m"
  shows "closed_in i (run_exec_end w j c x b why m)"
proof (cases "lookup m j")
  case (Some rt)
  define m1 where "m1 = m\<lparr>mg_storage := snd (update_command (finished_command w c x why rt (mg_storage m)) (mg_storage m))\<rparr>"
  obtain rt' where rt': "ended (ci_id c) b rt rt'"
    "run_exec_end w j c x b why m = put_runtime rt' m1 \<or> run_exec_end w j c x b why m = snd (upsert_info rt' m1)"
    using run_exec_end_runtime[OF Some m1_def] by blast
  have m1: "closed_in i m1" "lookup m1 j = Some rt" using assms Some by (simp_all add: m1_def)
  have "rt_session_id rt' = j" using rt'(1) lookup_Some(2)[OF Some] by (simp add: ended_def same_log_def)
  moreover have "closed_rt rt \<Longrightarrow> closed_rt rt'"
    using rt'(1) by (simp add: ended_def closed_rt_def)
  ultimately show ?thesis using closed_put[OF m1] rt'(2) by metis
qed (use assms in \<open>simp add: run_exec_end_def\<close>)

lemma closed_pty_end:
  assumes "closed_in i m"
  shows "closed_in i (run_pty_end w j p m)"
proof (cases "lookup m j")
  case (Some rt)
  note put = closed_put[OF assms Some]
  have "rt_session_id rt = j" using lookup_Some(2)[OF Some] .
  then show ?thesis using Some by (auto simp: run_pty_end_def Let_def send_modify_def closed_rt_def intro!: put)
qed (use assms in \<open>simp add: run_pty_end_def\<close>)

lemma closed_shell_write:
  assumes "closed_in i m"
  shows "closed_in i (snd (shell_write w j d m))"
proof (cases "lookup m j")
  case (Some rt)
  have "closed_in i (put_runtime (rt\<lparr>rt_last_activity := n\<rparr>) m)" for n
    by (rule closed_put(1)[OF assms Some]) (use lookup_Some(2)[OF Some] in \<open>simp_all add: closed_rt_def\<close>)
  then show ?thesis
    using Some assms by (simp add: shell_write_def the_runtime_def split: option.split foreground.split sum.split)
qed (use assms in \<open>simp add: shell_write_def the_runtime_def\<close>)

lemma closed_shell_close: "closed_in i m \<Longrightarrow> closed_in i (snd (shell_close w j m))"
  using closed_put(1)[of i m j] lookup_Some(2)[of m j]
  by (auto simp: closed_rt_def shell_close_def the_runtime_def split: option.split)

lemma closed_create_finish: "closed_in i m \<Longrightarrow> j \<noteq> i \<Longrightarrow> closed_in i (snd (create_finish w j t m))"
  by (auto simp: create_finish_def Let_def case_result_snd closed_in_def lookup_upsert_info lookup_put_runtime
      lookup_Some(2) split: option.split sum.split)

lemma closed_create_begin:
  assumes "closed_in i m" "create_begin w t p c m = (r, m')"
  shows "closed_in i m'"
proof -
  have "find P xs = Some rt \<Longrightarrow> find P (xs @ ys) = Some rt" for P xs ys and rt :: runtime
    by (induction xs) auto
  then show ?thesis using assms
    by (auto simp: create_begin_def Let_def closed_in_def lookup_def split: option.splits prod.splits sum.splits)
qed


text \<open>
  A session that is closed, holds nothing and is not being dialled: no step opens it again. Only
  the end of a dial sets a connection without looking at the status, and no dial starts for it.
\<close>

definition not_dialling :: "str \<Rightarrow> task list \<Rightarrow> bool" where
  "not_dialling i ts \<longleftrightarrow> (\<forall>t n. T_Create i t \<notin> set ts \<and> T_Dial i t n \<notin> set ts)"

definition closed_state :: "bool \<Rightarrow> str \<Rightarrow> machine \<Rightarrow> bool" where
  "closed_state sick i s \<longleftrightarrow> machine_inv sick s \<and> closed_in i (fst s) \<and> not_dialling i (snd s)"

lemma not_dialling_simps [simp]:
  "not_dialling i []"
  "not_dialling i (T_Create j t # ts) \<longleftrightarrow> j \<noteq> i \<and> not_dialling i ts"
  "not_dialling i (T_Dial j t n # ts) \<longleftrightarrow> j \<noteq> i \<and> not_dialling i ts"
  "not_dialling i (T_Exec j c x b # ts) \<longleftrightarrow> not_dialling i ts"
  "not_dialling i (T_Pty j p # ts) \<longleftrightarrow> not_dialling i ts"
  by (auto simp: not_dialling_def)

lemma not_dialling_remove: "not_dialling i ts \<Longrightarrow> not_dialling i (remove1 u ts)"
  by (auto simp: not_dialling_def dest: notin_set_remove1)

lemma closed_step:
  assumes "mg_step sick s s'" "machine_inv sick s" "closed_in i (fst s)" "not_dialling i (snd s)"
  shows "closed_in i (fst s') \<and> not_dialling i (snd s')"
  using assms(1)
proof (cases rule: mg_step.cases)
  case (ms_create w target_id purpose client m info t m' ts)
  have "si_id info = w_uuid w"
    using ms_create(3) by (auto simp: create_begin_def Let_def new_info_def split: option.splits prod.splits sum.splits)
  moreover have "w_uuid w \<noteq> i"
    using ms_create(4) assms(3) lookup_Some[of m i] ms_create(1) by (force simp: closed_in_def)
  ultimately show ?thesis
    using ms_create closed_create_begin[OF _ ms_create(3)] assms by simp
next
  case (ms_create_refused w target_id purpose client m e m' ts)
  then show ?thesis using closed_create_begin[OF _ ms_create_refused(3)] assms by simp
next
  case (ms_created j t ts m w)
  then have "j \<noteq> i" using assms(4) by (auto simp: not_dialling_def)
  then show ?thesis using ms_created assms closed_create_finish not_dialling_remove by (auto simp: machine_inv_def)
next
  case (ms_dial m j rt w t n ts)
  then have "j \<noteq> i" using assms(3)
    by (auto simp: closed_in_def closed_rt_def dial_begin_def dial_target_def)
  then show ?thesis using ms_dial assms by simp
next
  case (ms_dialled j t n ts m w)
  then have "j \<noteq> i" using assms(4) by (auto simp: not_dialling_def)
  then show ?thesis using ms_dialled assms closed_dial_end not_dialling_remove by (auto simp: machine_inv_def)
next
  case (ms_exec w j text_of cwd env seconds background m c deadline m' ts)
  then show ?thesis using closed_start_exec[OF _ _ ms_exec(3)] assms by (auto simp: machine_inv_def)
next
  case (ms_exec_refused w j text_of cwd env seconds background m e m' ts)
  then show ?thesis using closed_start_exec[OF _ _ ms_exec_refused(3)] assms by (auto simp: machine_inv_def)
next
  case (ms_shell w j cols rows term_name m info m' ts)
  then show ?thesis using closed_shell_open[OF _ _ ms_shell(3)] assms by (auto simp: machine_inv_def)
next
  case (ms_shell_refused w j cols rows term_name m e m' ts)
  then show ?thesis using closed_shell_open[OF _ _ ms_shell_refused(3)] assms by (auto simp: machine_inv_def)
next
  case (ms_exec_event j c x b ts m w ev x' m')
  then show ?thesis using closed_exec_event[OF _ ms_exec_event(5)] assms by (auto simp: not_dialling_remove)
next
  case (ms_database m ts f)
  then show ?thesis using assms by simp
qed (use assms in \<open>auto simp: command_cancel_def reload_config_def closed_close closed_exec_end closed_pty_data
    closed_pty_end closed_shell_write closed_shell_close closed_reap closed_discard
    not_dialling_remove split: sum.split\<close>)

interpretation clo: step_invariant "closed_state sick i" "mg_step sick" "closed_state sick i" for sick i
  by unfold_locales (auto simp: closed_state_def closed_step intro: machine_step)


text \<open>With nothing in between, the two halves of a dial are the call made under the slot's lock.\<close>

lemma dial_halves:
  assumes "core_inv m" "lookup m i = Some rt"
  shows "connection_for w rt m = (case dial_begin w rt m of
      Inl e \<Rightarrow> (Inl e, m) | Inr (Inl h) \<Rightarrow> (Inr h, m) | Inr (Inr (t, n)) \<Rightarrow> dial_end w i t n m)"
proof -
  have id: "rt_session_id rt = i" using lookup_Some(2)[OF assms(2)] .
  have up: "lookup (snd (upsert_info (rt\<lparr>rt_info := x\<rparr>) m)) i = Some (rt\<lparr>rt_info := x\<rparr>)" for x
    using touches_upsert_info(2)[OF assms(1), of "rt\<lparr>rt_info := x\<rparr>"] assms(2) id by simp
  show ?thesis
    using assms(2) id
    by (auto simp: connection_for_def connect_runtime_def dial_begin_def dial_target_def dial_end_def Let_def up
        split: option.split sum.split)
qed

section \<open>A concrete run\<close>

definition run_target :: target where
  "run_target = \<lparr>tg_id = ''t'', tg_name = ''box'', tg_host = ''h'', tg_port = 22, tg_username = ''me'',
     tg_auth = Password ''secret''\<rparr>"

definition run_manager :: manager where
  "run_manager = new_manager \<lparr>cf_version = 1, cf_retention_days = 7, cf_idle_timeout_seconds = 3600,
       cf_connect_timeout_seconds = 15, cf_keepalive_seconds = 15, cf_recording_limit_mib = 1,
       cf_reconnect_attempts = 1, cf_reconnect_backoff_seconds = 1, cf_quit_daemon_on_app_exit = False,
       cf_launch_at_login = False, cf_targets = [run_target]\<rparr>
     \<lparr>pa_root = ''r'', pa_config = ''c'', pa_keys = ''k'', pa_data = ''d'', pa_run = ''u'', pa_bin = ''b'',
      pa_socket = ''s'', pa_database = ''q''\<rparr> (open_storage [] [] [] 1)"

definition run_world :: "str \<Rightarrow> world" where
  "run_world u = \<lparr>w_clock = (\<lambda>_. 10), w_uuid = u, w_connect = (\<lambda>t k. Inr (7, ''fp'')), w_closed = (\<lambda>_. False),
     w_open_exec = (\<lambda>_ _. Inr ()), w_open_pty = (\<lambda>_ _ _ _. Inr ()), w_pty_write = (\<lambda>_ _. Inr ()),
     w_pty_resize = (\<lambda>_ _ _. Inr ()), w_pty_close = (\<lambda>_. Inr ()), w_debug = id\<rparr>"

definition run_created :: manager where
  "run_created = snd (create_begin (run_world ''u'') ''t'' ''p'' ''c'' run_manager)"

definition run_ready :: manager where
  "run_ready = snd (create_finish (run_world ''u'') ''u'' run_target run_created)"

definition run_exec :: "str \<Rightarrow> manager \<Rightarrow> manager" where
  "run_exec k m = snd (start_exec (run_world k) ''u'' ''ls'' None [] None False m)"

lemmas run_eval = run_manager_def run_world_def run_target_def new_manager_def create_begin_def find_target_def new_info_def
  new_runtime_def upsert_info_def lookup_def put_runtime_def Let_def storage_eval the_runtime_def

lemma run_fresh: "fresh_machine sick (run_manager, [])"
proof -
  have "st_inv (open_storage [] [] [] 1)" "healthy (open_storage [] [] [] 1)"
    by (simp_all add: st_inv_open)
  then show ?thesis unfolding fresh_machine_def run_manager_def by blast
qed

lemma run_created_eq:
  "create_begin (run_world ''u'') ''t'' ''p'' ''c'' run_manager = (Inr (new_info (run_world ''u'') run_target ''p'' ''c'', run_target), run_created)"
  "map rt_session_id (mg_sessions run_created) = [''u'']"
  by (simp_all add: run_created_def run_eval)

lemma run_ready_session:
  "lookup run_ready ''u'' = Some ((new_runtime (new_info (run_world ''u'') run_target ''p'' ''c'') 10)\<lparr>rt_connection := Some 7,
     rt_info := (new_info (run_world ''u'') run_target ''p'' ''c'')\<lparr>si_status := S_Ready, si_host_fingerprint := Some ''fp''\<rparr>\<rparr>)"
  by (simp add: run_ready_def run_created_def create_finish_def run_eval)

lemma run_to_created: "(mg_step sick)\<^sup>*\<^sup>* (run_manager, []) (run_created, [T_Create ''u'' run_target])"
  using ms_create[OF run_created_eq(1), of sick "[]"]
  by (simp add: run_manager_def new_manager_def run_world_def new_info_def open_storage_def r_into_rtranclp)

lemma run_to_ready: "(mg_step sick)\<^sup>*\<^sup>* (run_manager, []) (run_ready, [])"
proof -
  have "mg_step sick (run_created, [T_Create ''u'' run_target])
      (snd (create_finish (run_world ''u'') ''u'' run_target run_created), remove1 (T_Create ''u'' run_target) [T_Create ''u'' run_target])"
    by (rule ms_created) simp
  then have "mg_step sick (run_created, [T_Create ''u'' run_target]) (run_ready, [])" by (simp add: run_ready_def)
  with run_to_created show ?thesis by (rule rtranclp.rtrancl_into_rtrancl)
qed

lemma run_command: "build_command id ''ls'' None [] = Inr (UTF8_LOCALE_PRELUDE @ '' && exec /bin/sh -c '' @ shell_quote ''ls'')"
  by (simp add: build_command_def)

lemma run_command_plain: "trim ''ls'' = ''ls''" "clearly_interactive ''ls'' = False"
  by (code_simp)+

lemmas exec_eval = start_exec_def register_exec_def connection_for_def new_command_def insert_command_def run_command run_command_plain

lemma run_exec_eq:
  "start_exec (run_world ''a'') ''u'' ''ls'' None [] None False run_ready =
     (Inr (new_command (run_world ''a'') ''u'' ''ls'', 300), run_exec ''a'' run_ready)"
  by (simp add: run_exec_def exec_eval run_ready_def run_created_def create_finish_def run_eval clamp_def)


definition run_busy :: manager where
  "run_busy = run_exec ''a'' run_ready"

lemma run_to_busy: "(mg_step sick)\<^sup>*\<^sup>* (run_manager, []) (run_busy, [T_Exec ''u'' (new_command (run_world ''a'') ''u'' ''ls'') None False])"
proof -
  have "mg_step sick (run_ready, []) (run_busy, [T_Exec ''u'' (new_command (run_world ''a'') ''u'' ''ls'') None False])"
    using ms_exec[OF run_exec_eq, of "[]" sick] by (simp add: run_busy_def exec_ids_def map_filter_def)
  with run_to_ready show ?thesis by (rule rtranclp.rtrancl_into_rtrancl)
qed

section \<open>Safety of every reachable state\<close>




definition run_closed :: manager where
  "run_closed = snd (close (run_world ''x'') ''u'' run_ready)"

lemma run_closed_in: "closed_in ''u'' run_closed"
  by (simp add: run_closed_def close_def the_runtime_def run_ready_session Let_def closed_in_def closed_rt_def
      closed_runtime_def upsert_info_def lookup_put_runtime split: prod.split)
    (simp add: new_runtime_def new_info_def run_world_def)

lemma run_to_closed: "(mg_step sick)\<^sup>*\<^sup>* (run_manager, []) (run_closed, [])"
proof -
  have "mg_step sick (run_ready, []) (run_closed, [])" unfolding run_closed_def by (rule ms_close)
  with run_to_ready show ?thesis by (rule rtranclp.rtrancl_into_rtrancl)
qed


section \<open>The end of a command, and dialling\<close>

lemma update_command_lookup:
  assumes "st_fault st SqlUpdateCommand = None" "ci_last_sequence c < i64_limit" "command (ci_id c) st = Inr (Some d)"
  shows "command (ci_id c) (snd (update_command c st)) = Inr (Some (d\<lparr>ci_status := ci_status c,
    ci_exit_code := ci_exit_code c, ci_finished_at := ci_finished_at c, ci_last_sequence := ci_last_sequence c,
    ci_recording_truncated := (ci_recording_truncated d \<or> ci_recording_truncated c)\<rparr>))"
proof -
  obtain r where r: "find (\<lambda>r. cr_id r = ci_id c) (st_commands st) = Some r" "d = command_from_row r"
      "st_fault st SqlCommand = None"
    using assms(3) by (auto simp: command_def conn_def split: option.splits)
  have "find (\<lambda>r. cr_id r = ci_id c) (map (\<lambda>r. if cr_id r = ci_id c then update_command_row c r else r) (st_commands st))
    = map_option (\<lambda>r. if cr_id r = ci_id c then update_command_row c r else r) (find (\<lambda>r. cr_id r = ci_id c) (st_commands st))"
    by (rule find_map_same) (simp add: update_command_row_def)
  moreover have "cr_id r = ci_id c" using r(1) by (auto simp: find_Some_iff)
  ultimately show ?thesis
    using assms(1,2) r by (simp add: update_command_def conn_def to_sql_u64_def command_def
        command_from_row_def update_command_row_def)
qed

lemma command_upsert: "command k (snd (upsert_session s st)) = command k st"
  by (simp add: upsert_session_def command_def conn_def split: sum.split)

text \<open>
  C18: When a foreground command ends, its row says why: cancelled, timed out, completed for exit
  status zero, failed for another, interrupted when the channel ended without one; with the exit
  status and the time of the end, and with the recorded output it had. Its session gives up the
  slot and is Idle, or Disconnected with no connection after an interruption. When the database
  refuses that write, the row stays what it was, and the slot is given up all the same.
\<close>

theorem exec_end_outcome:
  assumes "core_inv m" "lookup m i = Some rt" "si_status (rt_info rt) \<noteq> S_Closed"
    and "rt_foreground rt = Some (FgExec (ci_id c))" "command (ci_id c) (mg_storage m) = Inr (Some d)"
  shows "\<exists>d' rt'. command (ci_id c) (mg_storage (run_exec_end w i c x False why m)) = Inr (Some d')
    \<and> (if st_fault (mg_storage m) SqlUpdateCommand \<noteq> None then d' = d
       else ci_status d' = (case why of EndCancelled \<Rightarrow> C_Cancelled | EndTimedOut \<Rightarrow> C_TimedOut
        | EndChannel \<Rightarrow> (case x of None \<Rightarrow> C_Interrupted | Some n \<Rightarrow> if n = 0 then C_Completed else C_Failed))
    \<and> ci_exit_code d' = x \<and> ci_finished_at d' = Some (w_clock w 0) \<and> ci_output_bytes d' = ci_output_bytes d)
    \<and> lookup (run_exec_end w i c x False why m) i = Some rt' \<and> rt_foreground rt' = None
    \<and> (if why = EndChannel \<and> x = None
       then si_status (rt_info rt') = S_Disconnected \<and> rt_connection rt' = None
       else si_status (rt_info rt') = S_Idle \<and> rt_connection rt' = rt_connection rt)"
proof -
  have seq: "rt_sequence rt < i64_limit"
    using assms(1) lookup_Some(1)[OF assms(2)] by (auto simp: core_inv_def rt_ok_def log_inv_def)
  define c' where "c' = finished_command w c x why rt (mg_storage m)"
  have c': "ci_id c' = ci_id c" "ci_last_sequence c' = rt_sequence rt" "ci_status c' = end_status why x"
    "ci_exit_code c' = x" "ci_finished_at c' = Some (w_clock w 0)"
    by (simp_all add: c'_def finished_command_def)
  let ?m1 = "m\<lparr>mg_storage := snd (update_command c' (mg_storage m))\<rparr>"
  note row = update_command_lookup[of "mg_storage m" c' d, unfolded c'(1,2), OF _ seq assms(5), unfolded c'(3-5)]
  have failed: "snd (update_command c' (mg_storage m)) = mg_storage m" if "st_fault (mg_storage m) SqlUpdateCommand \<noteq> None"
    using that by (auto simp: update_command_def conn_def to_sql_u64_def)
  have stat: "end_status why x = (case why of EndCancelled \<Rightarrow> C_Cancelled | EndTimedOut \<Rightarrow> C_TimedOut
      | EndChannel \<Rightarrow> (case x of None \<Rightarrow> C_Interrupted | Some n \<Rightarrow> if n = 0 then C_Completed else C_Failed))"
    "end_status why x = C_Interrupted \<longleftrightarrow> why = EndChannel \<and> x = None"
    by (cases why; simp add: channel_end_status_def command_status_from_exit_def split: option.split)+
  obtain q where q: "run_exec_end w i c x False why m = snd (upsert_info q ?m1)" "rt_session_id q = rt_session_id rt"
      "rt_foreground q = None"
      "si_status (rt_info q) = (if end_status why x = C_Interrupted then S_Disconnected else S_Idle)"
      "rt_connection q = (if end_status why x = C_Interrupted then None else rt_connection rt)"
    using assms(2,3,4) by (simp add: run_exec_end_def Let_def c'(3) c'_def[symmetric] send_modify_def)
  have "lookup (run_exec_end w i c x False why m) i = Some q"
    using q(1,2) assms(2) lookup_Some(2)[OF assms(2)] by (simp add: lookup_upsert_info lookup_put_runtime)
  moreover have "mg_storage (snd (upsert_info q ?m1)) = snd (upsert_session (rt_info q) (mg_storage ?m1))"
    by (simp add: upsert_info_def split: prod.split)
  ultimately show ?thesis
  proof (cases "st_fault (mg_storage m) SqlUpdateCommand = None")
    case True
    then show ?thesis using q row[OF True] stat \<open>lookup _ i = Some q\<close> \<open>mg_storage _ = _\<close> by (auto simp: command_upsert)
  next
    case False
    then show ?thesis using q failed assms(5) stat \<open>lookup _ i = Some q\<close> \<open>mg_storage _ = _\<close> by (auto simp: command_upsert)
  qed
qed

theorem exec_end_outcome_witness:
  "\<exists>rt'. lookup (run_exec_end (run_world ''x'') ''u'' (new_command (run_world ''a'') ''u'' ''ls'') None False EndChannel run_busy) ''u''
     = Some rt' \<and> si_status (rt_info rt') = S_Disconnected"
proof -
  have "core_inv run_busy"
    using mach.reachable_inv[OF run_fresh run_to_busy] by (simp add: machine_inv_def)
  moreover obtain rt where "lookup run_busy ''u'' = Some rt" "si_status (rt_info rt) = S_ExecRunning"
      "rt_foreground rt = Some (FgExec (ci_id (new_command (run_world ''a'') ''u'' ''ls'')))"
    by (simp add: run_busy_def run_exec_def exec_eval run_ready_def run_created_def create_finish_def run_eval clamp_def)
  moreover obtain d where "command (ci_id (new_command (run_world ''a'') ''u'' ''ls'')) (mg_storage run_busy) = Inr (Some d)"
    by (simp add: run_busy_def run_exec_def exec_eval run_ready_def run_created_def create_finish_def run_eval clamp_def
        command_def)
  ultimately show ?thesis
    using exec_end_outcome[of run_busy "''u''" rt "new_command (run_world ''a'') ''u'' ''ls''" d "run_world ''x''" None EndChannel]
    by auto
qed

lemma dial_first:
  "dial connect k n last_error = (case find (\<lambda>j. \<not> isl (connect j)) [k..<k + n] of
     Some j \<Rightarrow> Inr (projr (connect j))
   | None \<Rightarrow> Inl (if n = 0 then last_error else Some (classify_error (projl (connect (k + n - 1))))))"
proof (induction n arbitrary: k last_error)
  case (Suc n)
  have split: "[k..<k + Suc n] = k # [Suc k..<Suc k + n]" by (subst upt_conv_Cons) simp_all
  show ?case unfolding split
  proof (cases "connect k")
    case (Inl e)
    have "Suc k + n - 1 = k + n" by simp
    then show "dial connect k (Suc n) last_error = (case find (\<lambda>j. \<not> isl (connect j)) (k # [Suc k..<Suc k + n]) of
        Some j \<Rightarrow> Inr (projr (connect j))
      | None \<Rightarrow> Inl (if Suc n = 0 then last_error else Some (classify_error (projl (connect (k + Suc n - 1))))))"
      using Inl Suc.IH[of "Suc k" "Some (classify_error e)"] by (cases "n = 0") (simp_all del: upt_Suc split: option.split)
  qed simp
qed simp



section \<open>Runs that fall short\<close>

definition run_dropped :: manager where
  "run_dropped = snd (shell_close (run_world ''x'') ''u'' run_busy)"

lemma run_second_eq:
  "start_exec (run_world ''b'') ''u'' ''ls'' None [] None False run_dropped =
     (Inr (new_command (run_world ''b'') ''u'' ''ls'', 300), run_exec ''b'' run_dropped)"
  by (simp add: run_dropped_def shell_close_def run_busy_def run_exec_def exec_eval run_ready_def run_created_def
      create_finish_def run_eval clamp_def)

lemma run_to_second: "(mg_step sick)\<^sup>*\<^sup>* (run_manager, []) (run_exec ''b'' run_dropped,
    [T_Exec ''u'' (new_command (run_world ''b'') ''u'' ''ls'') None False,
     T_Exec ''u'' (new_command (run_world ''a'') ''u'' ''ls'') None False])"
proof -
  let ?ts = "[T_Exec ''u'' (new_command (run_world ''a'') ''u'' ''ls'') None False]"
  have "mg_step sick (run_busy, ?ts) (run_dropped, ?ts)" unfolding run_dropped_def by (rule ms_shell_close)
  moreover have "mg_step sick (run_dropped, ?ts) (run_exec ''b'' run_dropped,
      T_Exec ''u'' (new_command (run_world ''b'') ''u'' ''ls'') None False # ?ts)"
    using ms_exec[OF run_second_eq, of ?ts sick]
    by (simp add: exec_ids_def map_filter_def new_command_def run_world_def)
  ultimately show ?thesis using run_to_busy by (meson rtranclp.rtrancl_into_rtrancl)
qed

lemma run_second_slots:
  "map rt_foreground (mg_sessions (run_exec ''b'' run_dropped)) = [Some (FgExec ''b'')]"
  "map rt_background (mg_sessions (run_exec ''b'' run_dropped)) = [[]]"
  by (simp_all add: run_dropped_def shell_close_def run_busy_def run_exec_def exec_eval run_ready_def run_created_def
      create_finish_def run_eval clamp_def)



text \<open>
  A session closed while a file operation dials for it, and one closed while \<open>create\<close> dials.
\<close>

definition run_gone :: manager where
  "run_gone = discard_connection ''u'' run_ready"

definition run_gone_closed :: manager where
  "run_gone_closed = snd (close (run_world ''x'') ''u'' run_gone)"

definition run_revived :: manager where
  "run_revived = snd (dial_end (run_world ''x'') ''u'' run_target 1 run_gone_closed)"

lemmas revive_eval = run_revived_def run_gone_closed_def run_gone_def discard_connection_def close_def
  closed_runtime_def dial_end_def run_ready_def run_created_def create_finish_def run_eval clamp_def

lemma run_revived_session:
  "map (\<lambda>rt. (si_status (rt_info rt), si_closed_at (rt_info rt), rt_connection rt)) (mg_sessions run_revived) =
    [(S_Closed, Some 10, Some 7)]"
  by (simp add: revive_eval)

lemma run_revived_exec:
  "map (\<lambda>rt. (si_status (rt_info rt), si_closed_at (rt_info rt))) (mg_sessions (run_exec ''a'' run_revived)) =
    [(S_ExecRunning, Some 10)]"
  "isl (fst (start_exec (run_world ''a'') ''u'' ''ls'' None [] None False run_revived)) = False"
  by (simp_all add: run_exec_def exec_eval revive_eval)

definition run_late :: manager where
  "run_late = snd (create_finish (run_world ''u'') ''u'' run_target (snd (close (run_world ''x'') ''u'' run_created)))"

lemma run_late_session:
  "map (\<lambda>rt. (si_status (rt_info rt), si_closed_at (rt_info rt))) (mg_sessions run_late) = [(S_Ready, Some 10)]"
  by (simp add: run_late_def revive_eval)

lemma run_to_late: "(mg_step sick)\<^sup>*\<^sup>* (run_manager, []) (run_late, [])"
proof -
  let ?m = "snd (close (run_world ''x'') ''u'' run_created)"
  have "mg_step sick (run_created, [T_Create ''u'' run_target]) (?m, [T_Create ''u'' run_target])" by (rule ms_close)
  with run_to_created have "(mg_step sick)\<^sup>*\<^sup>* (run_manager, []) (?m, [T_Create ''u'' run_target])"
    by (rule rtranclp.rtrancl_into_rtrancl)
  moreover have "mg_step sick (?m, [T_Create ''u'' run_target])
      (snd (create_finish (run_world ''u'') ''u'' run_target ?m), remove1 (T_Create ''u'' run_target) [T_Create ''u'' run_target])"
    by (rule ms_created) simp
  then have "mg_step sick (?m, [T_Create ''u'' run_target]) (run_late, [])" by (simp add: run_late_def)
  ultimately show ?thesis by (rule rtranclp.rtrancl_into_rtrancl)
qed

lemma run_to_revived: "(mg_step sick)\<^sup>*\<^sup>* (run_manager, []) (run_revived, [])"
proof -
  have found: "lookup run_gone ''u'' \<noteq> None"
    by (simp add: revive_eval)
  then obtain rt where rt: "lookup run_gone ''u'' = Some rt" by blast
  have begin_dial: "dial_begin (run_world ''x'') rt run_gone = Inr (Inr (run_target, 1))"
    using rt by (auto simp: revive_eval dial_begin_def dial_target_def)
  have "mg_step sick (run_ready, []) (run_gone, [])" unfolding run_gone_def by (rule ms_discard)
  with run_to_ready have 1: "(mg_step sick)\<^sup>*\<^sup>* (run_manager, []) (run_gone, [])" by (rule rtranclp.rtrancl_into_rtrancl)
  have "mg_step sick (run_gone, []) (run_gone, [T_Dial ''u'' run_target 1])" by (rule ms_dial[OF rt begin_dial])
  with 1 have 2: "(mg_step sick)\<^sup>*\<^sup>* (run_manager, []) (run_gone, [T_Dial ''u'' run_target 1])"
    by (rule rtranclp.rtrancl_into_rtrancl)
  have "mg_step sick (run_gone, [T_Dial ''u'' run_target 1]) (run_gone_closed, [T_Dial ''u'' run_target 1])"
    unfolding run_gone_closed_def by (rule ms_close)
  with 2 have 3: "(mg_step sick)\<^sup>*\<^sup>* (run_manager, []) (run_gone_closed, [T_Dial ''u'' run_target 1])"
    by (rule rtranclp.rtrancl_into_rtrancl)
  have "mg_step sick (run_gone_closed, [T_Dial ''u'' run_target 1])
      (run_revived, remove1 (T_Dial ''u'' run_target 1) [T_Dial ''u'' run_target 1])"
    unfolding run_revived_def by (rule ms_dialled) simp
  then have "mg_step sick (run_gone_closed, [T_Dial ''u'' run_target 1]) (run_revived, [])" by simp
  with 3 show ?thesis by (rule rtranclp.rtrancl_into_rtrancl)
qed



section \<open>A start that the database refuses\<close>

text \<open>The session row is refused once, after the row of the command was written.\<close>

definition run_faulty :: manager where
  "run_faulty = run_ready\<lparr>mg_storage := (mg_storage run_ready)
     \<lparr>st_fault := no_faults(SqlUpsertSession := Some (Database ''disk I/O error''))\<rparr>\<rparr>"

definition run_stuck :: manager where
  "run_stuck = (run_exec ''a'' run_faulty)\<lparr>mg_storage := (mg_storage (run_exec ''a'' run_faulty))\<lparr>st_fault := no_faults\<rparr>\<rparr>"

lemmas stuck_eval = run_stuck_def run_faulty_def run_exec_def exec_eval run_ready_def run_created_def create_finish_def
  run_eval clamp_def

lemma run_faulty_eq:
  "start_exec (run_world ''a'') ''u'' ''ls'' None [] None False run_faulty =
     (Inl (internal (Database ''disk I/O error'')), run_exec ''a'' run_faulty)"
  by (simp add: stuck_eval)

lemma run_to_stuck: "(mg_step True)\<^sup>*\<^sup>* (run_manager, []) (run_stuck, [])"
proof -
  have "mg_step True (run_ready, []) (run_faulty, [])" unfolding run_faulty_def by (rule ms_database) simp
  with run_to_ready have 1: "(mg_step True)\<^sup>*\<^sup>* (run_manager, []) (run_faulty, [])" by (rule rtranclp.rtrancl_into_rtrancl)
  have "mg_step True (run_faulty, []) (run_exec ''a'' run_faulty, [])"
    by (rule ms_exec_refused[OF run_faulty_eq]) (simp add: exec_ids_def map_filter_def)
  with 1 have 2: "(mg_step True)\<^sup>*\<^sup>* (run_manager, []) (run_exec ''a'' run_faulty, [])" by (rule rtranclp.rtrancl_into_rtrancl)
  have "mg_step True (run_exec ''a'' run_faulty, []) (run_stuck, [])" unfolding run_stuck_def by (rule ms_database) simp
  with 2 show ?thesis by (rule rtranclp.rtrancl_into_rtrancl)
qed

lemma run_stuck_state:
  "map (\<lambda>rt. (rt_session_id rt, rt_foreground rt, rt_background rt, si_status (rt_info rt))) (mg_sessions run_stuck) =
     [(''u'', Some (FgExec ''a''), [], S_ExecRunning)]"
  "map (\<lambda>c. (cr_id c, cr_status c)) (st_commands (mg_storage run_stuck)) = [(''a'', ''running'')]"
  "healthy (mg_storage run_stuck)"
  by (simp_all add: stuck_eval healthy_def)


end
