(* ===== verification/File_Transfer.thy ===== *)
theory File_Transfer
  imports Protocol
begin

text \<open>
  The staged file transfers of \<open>crates/ssh/src/transfer.rs\<close>. The SFTP client and the local
  files are arguments: records of the calls the code makes, over a state that only those calls
  see. SHA-256 is an argument \<open>digest\<close>; the streaming hasher is the bytes fed to it. The
  successive results of reading an open file are a list whose end is the end of the file. The
  predicates \<open>sftp_laws\<close>, \<open>local_laws\<close> and \<open>hash_law\<close> state the documented behaviour of
  these parameters; a write is only required to stay within its file, so that the theorems say
  what verification buys when the bytes may be mangled on the way.
\<close>

section \<open>The SFTP client and the local files\<close>

datatype status_code = NoSuchFile | StatusDenied | Failure | OpUnsupported | OtherStatus

datatype sftp_error = SftpStatus status_code str | SftpTimeout str | SftpOther str

fun sftp_display :: "sftp_error \<Rightarrow> str" where
  "sftp_display (SftpStatus c m) = m"
| "sftp_display (SftpTimeout m) = m"
| "sftp_display (SftpOther m) = m"

record metadata =
  md_kind :: file_kind
  md_len :: nat
  md_permissions :: "nat option"
  md_uid :: "nat option"
  md_gid :: "nat option"
  md_user :: "str option"
  md_group :: "str option"
  md_mtime :: "nat option"

record 's sftp =
  sf_metadata :: "str \<Rightarrow> 's \<Rightarrow> sftp_error + metadata"
  sf_open :: "str \<Rightarrow> 's \<Rightarrow> sftp_error + (sftp_error + bytes) list"
  sf_handle_len :: "str \<Rightarrow> 's \<Rightarrow> nat option"
  sf_create :: "str \<Rightarrow> 's \<Rightarrow> (sftp_error + unit) \<times> 's"
  sf_write :: "str \<Rightarrow> bytes \<Rightarrow> 's \<Rightarrow> (sftp_error + unit) \<times> 's"
  sf_flush :: "str \<Rightarrow> 's \<Rightarrow> (sftp_error + unit) \<times> 's"
  sf_close :: "str \<Rightarrow> 's \<Rightarrow> (sftp_error + unit) \<times> 's"
  sf_set_mode :: "str \<Rightarrow> nat \<Rightarrow> 's \<Rightarrow> (sftp_error + unit) \<times> 's"
  sf_remove :: "str \<Rightarrow> 's \<Rightarrow> (sftp_error + unit) \<times> 's"
  sf_rename :: "str \<Rightarrow> str \<Rightarrow> 's \<Rightarrow> (sftp_error + unit) \<times> 's"
  sf_create_dir :: "str \<Rightarrow> 's \<Rightarrow> (sftp_error + unit) \<times> 's"

record 'l local_fs =
  lo_create :: "str \<Rightarrow> 'l \<Rightarrow> (io_error + unit) \<times> 'l"
  lo_write :: "str \<Rightarrow> bytes \<Rightarrow> 'l \<Rightarrow> (io_error + unit) \<times> 'l"
  lo_flush :: "str \<Rightarrow> 'l \<Rightarrow> (io_error + unit) \<times> 'l"
  lo_remove :: "str \<Rightarrow> 'l \<Rightarrow> (io_error + unit) \<times> 'l"
  lo_rename :: "str \<Rightarrow> str \<Rightarrow> 'l \<Rightarrow> (io_error + unit) \<times> 'l"

record transfer_outcome =
  to_bytes :: nat
  to_sha256 :: str
  to_verified :: bool
  to_changed :: bool

text \<open>\<open>RemoteHash\<close>: the digest the remote host reports for a file, if it has a tool for it.\<close>

type_synonym 's remote_hash = "str \<Rightarrow> 's \<Rightarrow> str option"

definition TRANSFER_CHUNK_BYTES :: nat where
  "TRANSFER_CHUNK_BYTES = 64 * 1024"

section \<open>Errors\<close>

definition sftp_error_text :: "sftp_error \<Rightarrow> str \<Rightarrow> str" where
  "sftp_error_text e path =
     (case e of
        SftpStatus NoSuchFile _ \<Rightarrow> ''FILE_NOT_FOUND''
      | SftpStatus StatusDenied _ \<Rightarrow> ''PERMISSION_DENIED''
      | SftpStatus _ _ \<Rightarrow> ''REMOTE_IO_ERROR''
      | SftpTimeout _ \<Rightarrow> ''REMOTE_TIMEOUT''
      | SftpOther _ \<Rightarrow> ''REMOTE_IO_ERROR'') @ '': '' @ path @ '': '' @ sftp_display e"

definition local_error :: "io_error \<Rightarrow> str \<Rightarrow> str" where
  "local_error e path =
     (case io_kind e of
        NotFound \<Rightarrow> ''FILE_NOT_FOUND''
      | PermissionDenied \<Rightarrow> ''PERMISSION_DENIED''
      | AlreadyExists \<Rightarrow> ''FILE_EXISTS''
      | _ \<Rightarrow> ''LOCAL_IO_ERROR'') @ '': '' @ path @ '': '' @ io_message e"

section \<open>Paths\<close>

definition slash :: char where
  "slash = CHR ''/''"

text \<open>The process id, the nanoseconds of the clock and the counter of one staged name.\<close>

type_synonym stamp = "nat \<times> nat \<times> nat"

definition unique_suffix :: "stamp \<Rightarrow> str" where
  "unique_suffix st = (case st of (pid, nanos, counter) \<Rightarrow>
     show_nat pid @ ''-'' @ show_nat nanos @ ''-'' @ show_nat counter)"

definition staged_path :: "stamp \<Rightarrow> str \<Rightarrow> str" where
  "staged_path st remote =
     (let trimmed = trim_end_matches slash remote;
          (dir, name) = (case rfind slash trimmed of
             Some 0 \<Rightarrow> (''/'', drop 1 trimmed)
           | Some index \<Rightarrow> (take index trimmed, drop (index + 1) trimmed)
           | None \<Rightarrow> ([], trimmed));
          staged = name @ ''.aissh-tmp-'' @ unique_suffix st
      in if dir = [] then staged
         else if dir = ''/'' then ''/'' @ staged
         else dir @ ''/'' @ staged)"

definition parent_of :: "str \<Rightarrow> str option" where
  "parent_of remote =
     (let trimmed = trim_end_matches slash remote in
      case rfind slash trimmed of
        Some 0 \<Rightarrow> Some ''/''
      | Some index \<Rightarrow> Some (take index trimmed)
      | None \<Rightarrow> None)"

text \<open>
  \<open>Path::file_name\<close> and \<open>Path::parent\<close>, on paths without \<open>.\<close> components.
\<close>

definition path_file_name :: "str \<Rightarrow> str option" where
  "path_file_name p =
     (let t = trim_end_matches slash p;
          name = (case rfind slash t of Some i \<Rightarrow> drop (i + 1) t | None \<Rightarrow> t)
      in if name = [] \<or> name = ''..'' then None else Some name)"

definition path_parent :: "str \<Rightarrow> str option" where
  "path_parent p =
     (let t = trim_end_matches slash p in
      if t = [] then None
      else case rfind slash t of
             None \<Rightarrow> Some []
           | Some i \<Rightarrow> (let d = trim_end_matches slash (take i t) in
                        Some (if d = [] then ''/'' else d)))"

definition local_staged_path :: "nat \<Rightarrow> str \<Rightarrow> str" where
  "local_staged_path pid local =
     (let name = (case path_file_name local of Some v \<Rightarrow> from_utf8_lossy v | None \<Rightarrow> ''download'');
          staged = name @ ''.aissh-tmp-'' @ show_nat pid
      in case path_parent local of
           Some parent \<Rightarrow> (if parent = [] then staged
                           else if ends_with parent ''/'' then parent @ staged
                           else parent @ ''/'' @ staged)
         | None \<Rightarrow> staged)"

section \<open>Reading\<close>

fun hash_reads :: "(io_error + bytes) list \<Rightarrow> nat \<Rightarrow> bytes \<Rightarrow> io_error + nat \<times> bytes" where
  "hash_reads [] count seen = Inr (count, seen)"
| "hash_reads (Inl e # rs) count seen = Inl e"
| "hash_reads (Inr chunk # rs) count seen =
     (if chunk = [] then Inr (count, seen)
      else hash_reads rs (count + length chunk) (seen @ chunk))"

definition hash_local_file ::
    "(bytes \<Rightarrow> str) \<Rightarrow> io_error + (io_error + bytes) list \<Rightarrow> io_error + nat \<times> str" where
  "hash_local_file digest opened =
     (case opened of
        Inl e \<Rightarrow> Inl e
      | Inr reads \<Rightarrow>
          (case hash_reads reads 0 [] of Inl e \<Rightarrow> Inl e | Inr (count, seen) \<Rightarrow> Inr (count, digest seen)))"

definition stat :: "'s sftp \<Rightarrow> str \<Rightarrow> 's \<Rightarrow> str + metadata" where
  "stat sf path s = map_err (\<lambda>e. sftp_error_text e path) (sf_metadata sf path s)"

definition try_stat :: "'s sftp \<Rightarrow> str \<Rightarrow> 's \<Rightarrow> str + metadata option" where
  "try_stat sf path s =
     (case sf_metadata sf path s of
        Inr m \<Rightarrow> Inr (Some m)
      | Inl (SftpStatus NoSuchFile _) \<Rightarrow> Inr None
      | Inl e \<Rightarrow> Inl (sftp_error_text e path))"

text \<open>\<open>read_to_end\<close> of a reader limited to \<open>room\<close> bytes.\<close>

fun read_limited :: "nat \<Rightarrow> (sftp_error + bytes) list \<Rightarrow> sftp_error + bytes" where
  "read_limited room [] = Inr []"
| "read_limited room (r # rs) =
     (if room = 0 then Inr []
      else case r of
        Inl e \<Rightarrow> Inl e
      | Inr chunk \<Rightarrow>
          (if chunk = [] then Inr []
           else map_sum id (\<lambda>d. take room chunk @ d) (read_limited (room - length chunk) rs)))"

definition read_capped :: "'s sftp \<Rightarrow> str \<Rightarrow> nat \<Rightarrow> 's \<Rightarrow> str + bytes \<times> nat \<times> bool" where
  "read_capped sf path max_bytes s =
     (case sf_open sf path s of
        Inl e \<Rightarrow> Inl (sftp_error_text e path)
      | Inr reads \<Rightarrow>
          (let sz = (case sf_handle_len sf path s of Some n \<Rightarrow> n | None \<Rightarrow> 0) in
           case read_limited max_bytes reads of
             Inl e \<Rightarrow> Inl (sftp_error_text e path)
           | Inr d \<Rightarrow> Inr (d, sz, sz > length d)))"

section \<open>Writing\<close>

definition apply_mode :: "'s sftp \<Rightarrow> str \<Rightarrow> nat option \<Rightarrow> 's \<Rightarrow> (str + unit) \<times> 's" where
  "apply_mode sf path mode s =
     (case mode of
        None \<Rightarrow> (Inr (), s)
      | Some m \<Rightarrow> (case sf_set_mode sf path m s of (r, s') \<Rightarrow>
                     (map_err (\<lambda>e. sftp_error_text e path) r, s')))"

definition promote :: "'s sftp \<Rightarrow> str \<Rightarrow> str \<Rightarrow> 's \<Rightarrow> (str + unit) \<times> 's" where
  "promote sf staged remote s =
     (case try_stat sf remote s of
        Inl e \<Rightarrow> (Inl e, s)
      | Inr found \<Rightarrow>
        (case (if found \<noteq> None then sf_remove sf remote s else (Inr (), s)) of
           (Inl e, s1) \<Rightarrow> (Inl (sftp_error_text e remote), s1)
         | (Inr _, s1) \<Rightarrow>
           (case sf_rename sf staged remote s1 of (r, s2) \<Rightarrow>
              (map_err (\<lambda>e. sftp_error_text e remote) r, s2))))"

definition discard :: "'s sftp \<Rightarrow> str \<Rightarrow> 's \<Rightarrow> 's" where
  "discard sf staged s = snd (sf_remove sf staged s)"

definition confirm :: "'s sftp \<Rightarrow> str \<Rightarrow> str \<Rightarrow> 's remote_hash option \<Rightarrow> 's \<Rightarrow> (str + bool) \<times> 's" where
  "confirm sf staged expected verify s =
     (case verify of
        None \<Rightarrow> (Inr False, s)
      | Some hash \<Rightarrow>
        (case hash staged s of
           Some actual \<Rightarrow>
             if actual = expected then (Inr True, s)
             else (Inl (''TRANSFER_VERIFY_FAILED: staged bytes hash to '' @ expected
                         @ '' but the remote host reports '' @ actual), discard sf staged s)
         | None \<Rightarrow> (Inr False, s)))"

text \<open>The common end of \<open>write_staged\<close> and \<open>upload_staged\<close>: flush, close, confirm, mode, promote.\<close>

definition finish_staged :: "(bytes \<Rightarrow> str) \<Rightarrow> 's sftp \<Rightarrow> str \<Rightarrow> str \<Rightarrow> bytes \<Rightarrow> nat option
    \<Rightarrow> 's remote_hash option \<Rightarrow> 's \<Rightarrow> (str + transfer_outcome) \<times> 's" where
  "finish_staged digest sf staged remote sent mode verify s =
     (case sf_flush sf staged s of
        (Inl e, s1) \<Rightarrow> (Inl (sftp_error_text e staged), discard sf staged s1)
      | (Inr _, s1) \<Rightarrow>
     (case sf_close sf staged s1 of
        (Inl e, s2) \<Rightarrow> (Inl (sftp_error_text e staged), discard sf staged s2)
      | (Inr _, s2) \<Rightarrow>
     (case confirm sf staged (digest sent) verify s2 of
        (Inl e, s3) \<Rightarrow> (Inl e, s3)
      | (Inr verified, s3) \<Rightarrow>
     (case apply_mode sf staged mode s3 of
        (Inl e, s4) \<Rightarrow> (Inl e, discard sf staged s4)
      | (Inr _, s4) \<Rightarrow>
     (case promote sf staged remote s4 of
        (Inl e, s5) \<Rightarrow> (Inl e, s5)
      | (Inr _, s5) \<Rightarrow>
          (Inr \<lparr>to_bytes = length sent, to_sha256 = digest sent, to_verified = verified,
                to_changed = True\<rparr>, s5))))))"

definition write_staged :: "(bytes \<Rightarrow> str) \<Rightarrow> 's sftp \<Rightarrow> stamp \<Rightarrow> str \<Rightarrow> bytes \<Rightarrow> nat option
    \<Rightarrow> 's remote_hash option \<Rightarrow> 's \<Rightarrow> (str + transfer_outcome) \<times> 's" where
  "write_staged digest sf st remote data mode verify s =
     (let staged = staged_path st remote in
      case sf_create sf staged s of
        (Inl e, s1) \<Rightarrow> (Inl (sftp_error_text e staged), s1)
      | (Inr _, s1) \<Rightarrow>
        (case sf_write sf staged data s1 of
           (Inl e, s2) \<Rightarrow> (Inl (sftp_error_text e staged), discard sf staged s2)
         | (Inr _, s2) \<Rightarrow> finish_staged digest sf staged remote data mode verify s2))"

text \<open>The copying loop of \<open>upload_staged\<close>; it returns what was read and hashed.\<close>

fun upload_loop :: "'s sftp \<Rightarrow> str \<Rightarrow> str \<Rightarrow> (io_error + bytes) list \<Rightarrow> bytes \<Rightarrow> 's \<Rightarrow> (str + bytes) \<times> 's" where
  "upload_loop sf local staged [] sent s = (Inr sent, s)"
| "upload_loop sf local staged (Inl e # rs) sent s = (Inl (local_error e local), discard sf staged s)"
| "upload_loop sf local staged (Inr chunk # rs) sent s =
     (if chunk = [] then (Inr sent, s)
      else (case sf_write sf staged chunk s of
              (Inl e, s1) \<Rightarrow> (Inl (sftp_error_text e staged), discard sf staged s1)
            | (Inr _, s1) \<Rightarrow> upload_loop sf local staged rs (sent @ chunk) s1))"

definition upload_staged :: "(bytes \<Rightarrow> str) \<Rightarrow> 's sftp \<Rightarrow> io_error + (io_error + bytes) list \<Rightarrow> str
    \<Rightarrow> stamp \<Rightarrow> str \<Rightarrow> nat option \<Rightarrow> 's remote_hash option \<Rightarrow> 's \<Rightarrow> (str + transfer_outcome) \<times> 's" where
  "upload_staged digest sf source local st remote mode verify s =
     (let staged = staged_path st remote in
      case source of
        Inl e \<Rightarrow> (Inl (local_error e local), s)
      | Inr reads \<Rightarrow>
        (case sf_create sf staged s of
           (Inl e, s1) \<Rightarrow> (Inl (sftp_error_text e staged), s1)
         | (Inr _, s1) \<Rightarrow>
           (case upload_loop sf local staged reads [] s1 of
              (Inl e, s2) \<Rightarrow> (Inl e, s2)
            | (Inr sent, s2) \<Rightarrow> finish_staged digest sf staged remote sent mode verify s2)))"

section \<open>Downloading\<close>

definition local_discard :: "'l local_fs \<Rightarrow> str \<Rightarrow> 'l \<Rightarrow> 'l" where
  "local_discard lo staged l = snd (lo_remove lo staged l)"

fun download_loop :: "'l local_fs \<Rightarrow> str \<Rightarrow> str \<Rightarrow> (sftp_error + bytes) list \<Rightarrow> bytes \<Rightarrow> 'l \<Rightarrow> (str + bytes) \<times> 'l" where
  "download_loop lo remote staged [] got l = (Inr got, l)"
| "download_loop lo remote staged (Inl e # rs) got l =
     (Inl (sftp_error_text e remote), local_discard lo staged l)"
| "download_loop lo remote staged (Inr chunk # rs) got l =
     (if chunk = [] then (Inr got, l)
      else (case lo_write lo staged chunk l of
              (Inl e, l1) \<Rightarrow> (Inl (local_error e staged), local_discard lo staged l1)
            | (Inr _, l1) \<Rightarrow> download_loop lo remote staged rs (got @ chunk) l1))"

definition download_staged :: "(bytes \<Rightarrow> str) \<Rightarrow> 's sftp \<Rightarrow> 'l local_fs \<Rightarrow> nat \<Rightarrow> str \<Rightarrow> str
    \<Rightarrow> 's remote_hash option \<Rightarrow> 's \<Rightarrow> 'l \<Rightarrow> (str + transfer_outcome) \<times> 'l" where
  "download_staged digest sf lo pid remote local verify s l =
     (let staged = local_staged_path pid local in
      case sf_open sf remote s of
        Inl e \<Rightarrow> (Inl (sftp_error_text e remote), l)
      | Inr reads \<Rightarrow>
     (case lo_create lo staged l of
        (Inl e, l1) \<Rightarrow> (Inl (local_error e staged), l1)
      | (Inr _, l1) \<Rightarrow>
     (case download_loop lo remote staged reads [] l1 of
        (Inl e, l2) \<Rightarrow> (Inl e, l2)
      | (Inr got, l2) \<Rightarrow>
     (case lo_flush lo staged l2 of
        (Inl e, l3) \<Rightarrow> (Inl (local_error e staged), local_discard lo staged l3)
      | (Inr _, l3) \<Rightarrow>
        (let reported = (case verify of Some hash \<Rightarrow> hash remote s | None \<Rightarrow> None) in
         if reported \<noteq> None \<and> the reported \<noteq> digest got
         then (Inl (''TRANSFER_VERIFY_FAILED: '' @ remote @ '' downloaded '' @ digest got
                    @ '' but the remote host reports '' @ the reported), local_discard lo staged l3)
         else (case lo_rename lo staged local l3 of
                 (Inl e, l4) \<Rightarrow> (Inl (local_error e local), l4)
               | (Inr _, l4) \<Rightarrow>
                   (Inr \<lparr>to_bytes = length got, to_sha256 = digest got,
                         to_verified = (reported \<noteq> None), to_changed = True\<rparr>, l4)))))))"

section \<open>Directories\<close>

lemma rfind_less: "rfind c s = Some i \<Longrightarrow> i < length s \<and> s ! i = c"
  by (induction s arbitrary: i) (auto split: option.splits if_splits)

lemma length_trim_end: "length (trim_end_matches c s) \<le> length s"
  by (simp add: trim_end_matches_def) (metis length_dropWhile_le length_rev)

lemma parent_of_shorter:
  assumes "parent_of path = Some p" "p \<noteq> ''/''"
  shows "length p < length path"
proof -
  obtain i where i: "rfind slash (trim_end_matches slash path) = Some (Suc i)"
    and p: "p = take (Suc i) (trim_end_matches slash path)"
    using assms by (auto simp: parent_of_def Let_def split: option.splits nat.splits)
  show ?thesis using rfind_less[OF i] p length_trim_end[of slash path] by simp
qed

function make_dir :: "'s sftp \<Rightarrow> str \<Rightarrow> bool \<Rightarrow> nat option \<Rightarrow> 's \<Rightarrow> (str + unit) \<times> 's" where
  "make_dir sf path parents mode s =
     (case try_stat sf path s of
        Inl e \<Rightarrow> (Inl e, s)
      | Inr (Some _) \<Rightarrow> (Inr (), s)
      | Inr None \<Rightarrow>
        (case (case (if parents then parent_of path else None) of
                 Some parent \<Rightarrow>
                   if parent \<noteq> ''/'' \<and> parent \<noteq> [] then make_dir sf parent True None s else (Inr (), s)
               | None \<Rightarrow> (Inr (), s)) of
           (Inl e, s1) \<Rightarrow> (Inl e, s1)
         | (Inr _, s1) \<Rightarrow>
           (case sf_create_dir sf path s1 of
              (Inr _, s2) \<Rightarrow> apply_mode sf path mode s2
            | (Inl error, s2) \<Rightarrow>
              (case try_stat sf path s2 of
                 Inl e \<Rightarrow> (Inl e, s2)
               | Inr None \<Rightarrow> (Inl (sftp_error_text error path), s2)
               | Inr (Some _) \<Rightarrow> apply_mode sf path mode s2))))"
  by pat_completeness auto
termination
  by (relation "measure (\<lambda>(sf, path, parents, mode, s). length path)")
    (auto dest: parent_of_shorter split: if_splits)

declare make_dir.simps [simp del]

section \<open>What the transfers rely on\<close>

definition only :: "('s \<Rightarrow> str \<Rightarrow> bytes option) \<Rightarrow> str set \<Rightarrow> 's \<Rightarrow> 's \<Rightarrow> bool" where
  "only files A s s' \<longleftrightarrow> (\<forall>q. q \<in> A \<or> files s' q = files s q)"

text \<open>
  SFTP, as far as the content of files goes: creating, writing, flushing and closing a file
  touch that file only; setting a mode touches none; removing and renaming do what they say or
  nothing.
\<close>

definition sftp_laws :: "'s sftp \<Rightarrow> ('s \<Rightarrow> str \<Rightarrow> bytes option) \<Rightarrow> bool" where
  "sftp_laws sf files \<longleftrightarrow>
     (\<forall>p s. only files {p} s (snd (sf_create sf p s)))
   \<and> (\<forall>p d s. only files {p} s (snd (sf_write sf p d s)))
   \<and> (\<forall>p s. only files {p} s (snd (sf_flush sf p s)))
   \<and> (\<forall>p s. only files {p} s (snd (sf_close sf p s)))
   \<and> (\<forall>p m s. only files {} s (snd (sf_set_mode sf p m s)))
   \<and> (\<forall>p s. files (snd (sf_remove sf p s)) =
         (if isl (fst (sf_remove sf p s)) then files s else (files s)(p := None)))
   \<and> (\<forall>p q s. files (snd (sf_rename sf p q s)) =
         (if isl (fst (sf_rename sf p q s)) then files s
          else (files s)(p := None, q := files s p)))"

definition hash_law :: "(bytes \<Rightarrow> str) \<Rightarrow> 's remote_hash option \<Rightarrow> ('s \<Rightarrow> str \<Rightarrow> bytes option) \<Rightarrow> bool" where
  "hash_law digest verify files \<longleftrightarrow>
     (\<forall>hash p s h. verify = Some hash \<longrightarrow> hash p s = Some h \<longrightarrow>
        (\<exists>d. files s p = Some d \<and> digest d = h))"

definition local_laws :: "'l local_fs \<Rightarrow> ('l \<Rightarrow> str \<Rightarrow> bytes option) \<Rightarrow> bool" where
  "local_laws lo files \<longleftrightarrow>
     (\<forall>p l. files (snd (lo_create lo p l)) =
         (if isl (fst (lo_create lo p l)) then files l else (files l)(p := Some [])))
   \<and> (\<forall>p d l. only files {p} l (snd (lo_write lo p d l))
        \<and> (isl (fst (lo_write lo p d l)) \<or> files (snd (lo_write lo p d l)) p = map_option (\<lambda>c. c @ d) (files l p)))
   \<and> (\<forall>p l. only files (if isl (fst (lo_flush lo p l)) then {p} else {}) l (snd (lo_flush lo p l)))
   \<and> (\<forall>p l. only files {p} l (snd (lo_remove lo p l)))
   \<and> (\<forall>p q l. files (snd (lo_rename lo p q l)) =
         (if isl (fst (lo_rename lo p q l)) then files l
          else (files l)(p := None, q := files l p)))"

lemma only_refl [simp]: "only files A s s"
  by (simp add: only_def)

lemma only_trans: "only files A s t \<Longrightarrow> only files B t u \<Longrightarrow> A \<subseteq> C \<Longrightarrow> B \<subseteq> C \<Longrightarrow> only files C s u"
  unfolding only_def by (metis subsetD)

lemma onlyD: "only files A s t \<Longrightarrow> q \<notin> A \<Longrightarrow> files t q = files s q"
  by (auto simp: only_def)

lemma sftp_only:
  assumes "sftp_laws sf files"
  shows "sf_create sf p s = (r, s') \<Longrightarrow> only files {p} s s'"
    "sf_write sf p d s = (r, s') \<Longrightarrow> only files {p} s s'"
    "sf_flush sf p s = (r, s') \<Longrightarrow> only files {p} s s'"
    "sf_close sf p s = (r, s') \<Longrightarrow> only files {p} s s'"
    "only files {p} s (discard sf p s)"
    "apply_mode sf p m s = (r', s') \<Longrightarrow> files s' = files s"
proof -
  show "sf_create sf p s = (r, s') \<Longrightarrow> only files {p} s s'"
    using assms unfolding sftp_laws_def by (metis snd_conv)
  show "sf_write sf p d s = (r, s') \<Longrightarrow> only files {p} s s'"
    using assms unfolding sftp_laws_def by (metis snd_conv)
  show "sf_flush sf p s = (r, s') \<Longrightarrow> only files {p} s s'"
    using assms unfolding sftp_laws_def by (metis snd_conv)
  show "sf_close sf p s = (r, s') \<Longrightarrow> only files {p} s s'"
    using assms unfolding sftp_laws_def by (metis snd_conv)
  show "only files {p} s (discard sf p s)"
    using assms by (simp add: sftp_laws_def discard_def only_def)
  have "only files {} s (snd (sf_set_mode sf p k s))" for k
    using assms unfolding sftp_laws_def by blast
  then have "files (snd (sf_set_mode sf p k s)) = files s" for k
    by (auto simp: only_def)
  then show "apply_mode sf p m s = (r', s') \<Longrightarrow> files s' = files s"
    unfolding apply_mode_def by (cases m) (auto split: prod.splits, metis snd_conv)
qed

lemma confirm_outcome:
  assumes "sftp_laws sf files" "hash_law digest verify files"
    and "confirm sf staged expected verify s = (r, s')"
  shows "only files {staged} s s'"
    "r = Inr v \<Longrightarrow> s' = s \<and> (v \<longrightarrow> (\<exists>d. files s staged = Some d \<and> digest d = expected))"
  using assms sftp_only(5)[OF assms(1), of staged s]
  by (auto simp: confirm_def hash_law_def split: option.splits if_splits)

lemma promote_outcome:
  assumes laws: "sftp_laws sf files" and "staged \<noteq> remote"
    and run: "promote sf staged remote s = (r, s')"
  shows "only files {staged, remote} s s'
    \<and> (case r of
         Inl e \<Rightarrow> files s' staged = files s staged
           \<and> (files s' remote = files s remote \<or> files s' remote = None)
       | Inr _ \<Rightarrow> files s' staged = None \<and> files s' remote = files s staged)"
proof (cases "try_stat sf remote s")
  case (Inl e)
  then show ?thesis using run by (auto simp: promote_def)
next
  case (Inr found)
  obtain r1 s1 where 1: "(if found \<noteq> None then sf_remove sf remote s else (Inr (), s)) = (r1, s1)"
    by fastforce
  have s1: "files s1 = files s \<or> (r1 = Inr () \<and> files s1 = (files s)(remote := None))"
  proof (cases "found = None")
    case False
    then have rm: "sf_remove sf remote s = (r1, s1)" using 1 by simp
    have "files (snd (sf_remove sf remote s)) =
        (if isl (fst (sf_remove sf remote s)) then files s else (files s)(remote := None))"
      using laws unfolding sftp_laws_def by blast
    then show ?thesis using rm by (cases r1) auto
  qed (use 1 in simp)
  obtain r2 s2 where 2: "sf_rename sf staged remote s1 = (r2, s2)" by fastforce
  have "files (snd (sf_rename sf staged remote s1)) = (if isl (fst (sf_rename sf staged remote s1))
      then files s1 else (files s1)(staged := None, remote := files s1 staged))"
    using laws unfolding sftp_laws_def by blast
  then have s2: "files s2 = (if isl r2 then files s1 else (files s1)(staged := None, remote := files s1 staged))"
    using 2 by simp
  show ?thesis
  proof (cases r1)
    case (Inl e)
    then have "r = Inl (sftp_error_text e remote)" "s' = s1"
      using run \<open>try_stat sf remote s = Inr found\<close> 1 by (auto simp: promote_def)
    then show ?thesis using s1 assms(2) by (auto simp: only_def split: if_splits)
  next
    case (Inr u)
    then have "r = map_err (\<lambda>e. sftp_error_text e remote) r2" "s' = s2"
      using run \<open>try_stat sf remote s = Inr found\<close> 1 2 by (auto simp: promote_def)
    then show ?thesis using s1 s2 assms(2) by (cases r2) (auto simp: only_def split: if_splits)
  qed
qed

text \<open>
  The outcome of a staged write, from the state before the staged file was finished: what
  reached the destination.
\<close>

definition staged_outcome :: "(bytes \<Rightarrow> str) \<Rightarrow> ('s \<Rightarrow> str \<Rightarrow> bytes option) \<Rightarrow> str \<Rightarrow> str \<Rightarrow> bytes
    \<Rightarrow> 's \<Rightarrow> (str + transfer_outcome) \<Rightarrow> 's \<Rightarrow> bool" where
  "staged_outcome digest files staged remote sent s r s' \<longleftrightarrow>
     only files {staged, remote} s s'
   \<and> (case r of
        Inl e \<Rightarrow> files s' remote = files s remote \<or> files s' remote = None
      | Inr out \<Rightarrow> to_bytes out = length sent \<and> to_sha256 out = digest sent
          \<and> files s' staged = None
          \<and> (\<not> to_verified out \<or> (\<exists>d. files s' remote = Some d \<and> digest d = digest sent)))"

lemma staged_outcome_only:
  "only files {staged} s s1 \<Longrightarrow> staged \<noteq> remote \<Longrightarrow> staged_outcome digest files staged remote sent s1 r s' \<Longrightarrow>
    staged_outcome digest files staged remote sent s r s'"
  unfolding staged_outcome_def by (auto simp: onlyD intro: only_trans split: sum.splits)

lemma staged_outcome_error:
  "only files {staged} s s' \<Longrightarrow> staged \<noteq> remote \<Longrightarrow>
    staged_outcome digest files staged remote sent s (Inl e) s'"
  unfolding staged_outcome_def by (auto simp: onlyD intro: only_trans[of _ "{staged}" _ _ "{}"])

lemma finish_staged_outcome:
  assumes laws: "sftp_laws sf files" and hash: "hash_law digest verify files" and ne: "staged \<noteq> remote"
    and run: "finish_staged digest sf staged remote sent mode verify s = (r, s')"
  shows "staged_outcome digest files staged remote sent s r s'"
proof -
  note touch = sftp_only[OF laws]
  obtain r1 s1 where 1: "sf_flush sf staged s = (r1, s1)" by fastforce
  obtain r2 s2 where 2: "sf_close sf staged s1 = (r2, s2)" by fastforce
  obtain r3 s3 where 3: "confirm sf staged (digest sent) verify s2 = (r3, s3)" by fastforce
  obtain r4 s4 where 4: "apply_mode sf staged mode s3 = (r4, s4)" by fastforce
  obtain r5 s5 where 5: "promote sf staged remote s4 = (r5, s5)" by fastforce
  note confirm = confirm_outcome[OF laws hash 3]
  have s1: "only files {staged} s s1" using touch(3)[OF 1] .
  have s2: "only files {staged} s s2" by (rule only_trans[OF s1 touch(4)[OF 2]]) auto
  have s3: "only files {staged} s s3" by (rule only_trans[OF s2 confirm(1)]) auto
  have s4: "only files {staged} s s4" using s3 touch(6)[OF 4] by (simp add: only_def)
  have drop: "only files {staged} s (discard sf staged t)" if "only files {staged} s t" for t
    by (rule only_trans[OF that touch(5)]) auto
  note failed = staged_outcome_error[OF _ ne]
  show ?thesis
  proof (cases "\<exists>u v w. r1 = Inr u \<and> r2 = Inr v \<and> r4 = Inr w \<and> (\<exists>b. r3 = Inr b)")
    case False
    then have "\<exists>e. r = Inl e" and "s' \<in> {discard sf staged s1, discard sf staged s2, s3, discard sf staged s4}"
      using run 1 2 3 4 by (auto simp: finish_staged_def split: sum.splits)
    then show ?thesis using failed s3 drop[OF s1] drop[OF s2] drop[OF s4] by auto
  next
    case True
    then obtain v where v: "r1 = Inr ()" "r2 = Inr ()" "r3 = Inr v" "r4 = Inr ()" by auto
    have res: "s' = s5"
      "r = (case r5 of Inl e \<Rightarrow> Inl e | Inr _ \<Rightarrow> Inr \<lparr>to_bytes = length sent, to_sha256 = digest sent,
              to_verified = v, to_changed = True\<rparr>)"
      using run 1 2 3 4 5 v by (auto simp: finish_staged_def split: sum.splits)
    have same: "files s4 = files s2" using confirm(2)[OF v(3)] touch(6)[OF 4] by simp
    have "staged_outcome digest files staged remote sent s4 r s'"
      using promote_outcome[OF laws ne 5] confirm(2)[OF v(3)] same res
      by (cases r5) (auto simp: staged_outcome_def)
    then show ?thesis by (rule staged_outcome_only[OF s4 ne])
  qed
qed

text \<open>A staged name is the destination, less trailing slashes, with a suffix: a sibling.\<close>

lemma rfind_split: "rfind c s = Some i \<Longrightarrow> s = take i s @ c # drop (Suc i) s"
  using rfind_less id_take_nth_drop by metis

lemma rfind_last: "rfind c s = Some i \<Longrightarrow> c \<notin> set (drop (Suc i) s)"
proof (induction s arbitrary: i)
  case (Cons x xs)
  have "rfind c xs = None \<Longrightarrow> c \<notin> set xs" by (induction xs) (auto split: option.splits)
  with Cons show ?case by (auto split: option.splits if_splits)
qed simp

lemma staged_path_sibling:
  fixes remote :: str
  defines "t \<equiv> trim_end_matches slash remote"
  shows "\<exists>base. staged_path st remote = base @ ''.aissh-tmp-'' @ unique_suffix st
    \<and> (base = t \<or> (t = slash # base \<and> (\<exists>name. base = slash # name \<and> slash \<notin> set name)))"
proof (cases "rfind slash t")
  case None
  then show ?thesis by (simp add: staged_path_def Let_def t_def)
next
  case (Some i)
  have split: "t = take i t @ slash # drop (Suc i) t" using rfind_split[OF Some] .
  consider "i = 0" | "i \<noteq> 0" "take i t = ''/''" | "take i t \<noteq> []" "take i t \<noteq> ''/''"
    using rfind_less[OF Some] by (cases "i = 0"; cases "take i t = ''/''") force+
  then show ?thesis
  proof cases
    case 1
    then have "staged_path st remote = t @ ''.aissh-tmp-'' @ unique_suffix st"
      using Some split unfolding staged_path_def t_def[symmetric] by (simp add: Let_def slash_def)
    then show ?thesis by blast
  next
    case 2
    then obtain j where "i = Suc j" by (cases i) auto
    then have "staged_path st remote = (slash # drop (Suc i) t) @ ''.aissh-tmp-'' @ unique_suffix st"
      using Some 2 unfolding staged_path_def t_def[symmetric] by (simp add: Let_def slash_def)
    moreover have "t = slash # slash # drop (Suc i) t" using split 2 by (simp add: slash_def)
    ultimately show ?thesis using rfind_last[OF Some] by blast
  next
    case 3
    then obtain j where j: "i = Suc j" by (cases i) auto
    have "take i t @ slash # drop (Suc i) t @ rest = t @ rest" for rest
      using split by (metis append.assoc append_Cons)
    then have "staged_path st remote = t @ ''.aissh-tmp-'' @ unique_suffix st"
      using Some 3 j unfolding staged_path_def t_def[symmetric] by (simp add: Let_def slash_def)
    then show ?thesis by blast
  qed
qed

lemma trim_end_split: "\<exists>k. s = trim_end_matches c s @ replicate k c"
proof -
  have "takeWhile (\<lambda>x. x = c) (rev s) = replicate (length (takeWhile (\<lambda>x. x = c) (rev s))) c"
    by (metis (mono_tags, lifting) replicate_length_same set_takeWhileD)
  moreover have "s = rev (dropWhile (\<lambda>x. x = c) (rev s)) @ rev (takeWhile (\<lambda>x. x = c) (rev s))"
    by (metis rev_append rev_rev_ident takeWhile_dropWhile_id)
  ultimately show ?thesis
    unfolding trim_end_matches_def by (metis rev_replicate)
qed

lemma staged_path_differs: "staged_path st remote \<noteq> remote"
proof
  assume eq: "staged_path st remote = remote"
  let ?t = "trim_end_matches slash remote"
  obtain k where k: "remote = ?t @ replicate k slash"
    using trim_end_split by blast
  obtain base where base: "remote = base @ ''.aissh-tmp-'' @ unique_suffix st"
    "base = ?t \<or> (?t = slash # base \<and> (\<exists>name. base = slash # name \<and> slash \<notin> set name))"
    using staged_path_sibling[of st remote] eq by auto
  from base(2) show False
  proof
    assume "base = ?t"
    then have "''.aissh-tmp-'' @ unique_suffix st = replicate k slash"
      using k base(1) by (metis same_append_eq)
    then show False by (cases k) (auto simp: slash_def)
  next
    assume "?t = slash # base \<and> (\<exists>name. base = slash # name \<and> slash \<notin> set name)"
    then obtain name where "?t = slash # slash # name" "base = slash # name" "slash \<notin> set name" by blast
    then have "name @ ''.aissh-tmp-'' @ unique_suffix st = slash # name @ replicate k slash"
      using k base(1) by simp
    then show False using \<open>slash \<notin> set name\<close> by (cases name) (auto simp: slash_def)
  qed
qed

lemma write_staged_outcome:
  assumes "sftp_laws sf files" "hash_law digest verify files"
    and "write_staged digest sf st remote data mode verify s = (r, s')"
  shows "staged_outcome digest files (staged_path st remote) remote data s r s'"
proof -
  let ?p = "staged_path st remote"
  note ne = staged_path_differs[of st remote] and touch = sftp_only[OF assms(1)]
  obtain r1 s1 where 1: "sf_create sf ?p s = (r1, s1)" by fastforce
  obtain r2 s2 where 2: "sf_write sf ?p data s1 = (r2, s2)" by fastforce
  have s1: "only files {?p} s s1" using touch(1)[OF 1] .
  have s2: "only files {?p} s s2" by (rule only_trans[OF s1 touch(2)[OF 2]]) auto
  have s2': "only files {?p} s (discard sf ?p s2)" by (rule only_trans[OF s2 touch(5)]) auto
  consider "\<exists>e. r = Inl e" "s' = s1 \<or> s' = discard sf ?p s2"
    | "finish_staged digest sf ?p remote data mode verify s2 = (r, s')"
    using assms(3) 1 2 by (auto simp: write_staged_def Let_def split: sum.splits)
  then show ?thesis
  proof cases
    case 1
    then show ?thesis using staged_outcome_error[OF _ ne] s1 s2' by auto
  next
    case 2
    from finish_staged_outcome[OF assms(1,2) ne this] show ?thesis
      by (rule staged_outcome_only[OF s2 ne])
  qed
qed


lemma upload_loop_only:
  assumes "sftp_laws sf files"
  shows "upload_loop sf local p rs sent s = (r, s') \<Longrightarrow> only files {p} s s'"
proof (induction rs arbitrary: sent s)
  case (Cons x rs)
  note touch = sftp_only[OF assms]
  show ?case
  proof (cases x)
    case (Inr chunk)
    obtain r1 s1 where w: "sf_write sf p chunk s = (r1, s1)" by fastforce
    have "chunk = [] \<and> s' = s \<or> s' = discard sf p s1 \<or> upload_loop sf local p rs (sent @ chunk) s1 = (r, s')"
      using Cons.prems Inr w by (auto split: if_splits sum.splits)
    then show ?thesis
      using Cons.IH only_trans[OF touch(2)[OF w]] touch(5) by fastforce
  qed (use Cons.prems touch(5) in auto)
qed simp

lemma upload_loop_reads:
  "upload_loop sf local p rs sent s = (Inr sent', s') \<Longrightarrow>
    hash_reads rs (length sent) sent = Inr (length sent', sent')"
proof (induction rs arbitrary: sent s)
  case (Cons x rs)
  show ?case
  proof (cases x)
    case (Inr chunk)
    obtain r1 s1 where w: "sf_write sf p chunk s = (r1, s1)" by fastforce
    show ?thesis
      using Cons.prems Inr w Cons.IH[of "sent @ chunk" s1] by (auto split: if_splits sum.splits)
  qed (use Cons.prems in auto)
qed simp


lemma local_only:
  assumes "local_laws lo files"
  shows "lo_write lo p d l = (r, l') \<Longrightarrow> only files {p} l l'"
    "lo_write lo p d l = (Inr (), l') \<Longrightarrow> files l' p = map_option (\<lambda>c. c @ d) (files l p)"
    "lo_flush lo p l = (r, l') \<Longrightarrow> only files {p} l l'"
    "lo_flush lo p l = (Inr (), l') \<Longrightarrow> files l' = files l"
    "only files {p} l (local_discard lo p l)"
    "lo_create lo p l = (r, l') \<Longrightarrow> files l' = (if isl r then files l else (files l)(p := Some []))"
    "lo_rename lo p q l = (r, l') \<Longrightarrow>
       files l' = (if isl r then files l else (files l)(p := None, q := files l p))"
proof -
  have laws: "only files {p} l (snd (lo_write lo p d l))"
    "isl (fst (lo_write lo p d l)) \<or> files (snd (lo_write lo p d l)) p = map_option (\<lambda>c. c @ d) (files l p)"
    "only files (if isl (fst (lo_flush lo p l)) then {p} else {}) l (snd (lo_flush lo p l))"
    "only files {p} l (snd (lo_remove lo p l))"
    "files (snd (lo_create lo p l)) = (if isl (fst (lo_create lo p l)) then files l else (files l)(p := Some []))"
    "files (snd (lo_rename lo p q l)) = (if isl (fst (lo_rename lo p q l)) then files l
          else (files l)(p := None, q := files l p))"
    using assms unfolding local_laws_def by blast+
  show "lo_write lo p d l = (r, l') \<Longrightarrow> only files {p} l l'" using laws(1) by simp
  show "lo_write lo p d l = (Inr (), l') \<Longrightarrow> files l' p = map_option (\<lambda>c. c @ d) (files l p)"
    using laws(2) by simp
  show "lo_flush lo p l = (r, l') \<Longrightarrow> only files {p} l l'"
    using laws(3) by (auto simp: only_def split: if_splits)
  show "lo_flush lo p l = (Inr (), l') \<Longrightarrow> files l' = files l" using laws(3) by (auto simp: only_def)
  show "only files {p} l (local_discard lo p l)" using laws(4) by (simp add: local_discard_def)
  show "lo_create lo p l = (r, l') \<Longrightarrow> files l' = (if isl r then files l else (files l)(p := Some []))"
    using laws(5) by simp
  show "lo_rename lo p q l = (r, l') \<Longrightarrow>
      files l' = (if isl r then files l else (files l)(p := None, q := files l p))" using laws(6) by simp
qed

text \<open>What the reads of an open remote file deliver, up to the end or the first error.\<close>

fun delivered :: "(sftp_error + bytes) list \<Rightarrow> bytes" where
  "delivered [] = []"
| "delivered (Inl e # rs) = []"
| "delivered (Inr chunk # rs) = (if chunk = [] then [] else chunk @ delivered rs)"

lemma download_loop_outcome:
  assumes laws: "local_laws lo files"
  shows "download_loop lo remote p rs got l = (r, l') \<Longrightarrow> files l p = Some got \<Longrightarrow>
    only files {p} l l' \<and> (case r of Inl e \<Rightarrow> True
      | Inr all \<Rightarrow> all = got @ delivered rs \<and> files l' p = Some all)"
proof (induction rs arbitrary: got l)
  case (Cons x rs)
  note lo = local_only[OF laws]
  show ?case
  proof (cases x)
    case (Inr chunk)
    obtain r1 l1 where w: "lo_write lo p chunk l = (r1, l1)" by fastforce
    show ?thesis
    proof (cases "chunk = [] \<or> isl r1")
      case True
      then show ?thesis
        using Cons.prems Inr w only_trans[OF lo(1)[OF w] lo(5)[of p l1]]
        by (cases r1) (auto split: if_splits)
    next
      case False
      then have r1: "r1 = Inr ()" by (cases r1) auto
      have next_l: "download_loop lo remote p rs (got @ chunk) l1 = (r, l')" "files l1 p = Some (got @ chunk)"
        using Cons.prems Inr w r1 False lo(2)[of p chunk l l1] by auto
      show ?thesis
        using Cons.IH[OF next_l] only_trans[OF lo(1)[OF w]] Inr False by (fastforce split: sum.splits)
    qed
  qed (use Cons.prems lo(5) in auto)
qed auto

lemma download_staged_outcome:
  assumes laws: "local_laws lo files" and ne: "local_staged_path pid local \<noteq> local"
    and run: "download_staged digest sf lo pid remote local verify s l = (r, l')"
  shows "only files {local_staged_path pid local, local} l l'
    \<and> (case r of
         Inl e \<Rightarrow> files l' local = files l local
       | Inr out \<Rightarrow> (\<exists>reads. sf_open sf remote s = Inr reads
           \<and> files l' local = Some (delivered reads) \<and> files l' (local_staged_path pid local) = None
           \<and> to_sha256 out = digest (delivered reads) \<and> to_bytes out = length (delivered reads)
           \<and> (\<not> to_verified out \<or> (\<exists>hash. verify = Some hash \<and> hash remote s = Some (to_sha256 out)))))"
proof -
  let ?p = "local_staged_path pid local"
  note lo = local_only[OF laws]
  have dis: "only files {?p} l (local_discard lo ?p m)" if "only files {?p} l m" for m
    by (rule only_trans[OF that lo(5)]) auto
  have err: ?thesis if "\<exists>e. r = Inl e" "only files {?p} l l'"
  proof -
    have "files l' local = files l local" using onlyD[OF that(2)] ne by auto
    moreover have "only files {?p, local} l l'" by (rule only_trans[OF that(2) only_refl]) auto
    ultimately show ?thesis using that(1) by auto
  qed
  show ?thesis
  proof (cases "sf_open sf remote s")
    case (Inl e)
    then have "\<exists>e. r = Inl e" "l' = l" using run by (auto simp: download_staged_def Let_def)
    then show ?thesis using err by simp
  next
    case (Inr reads)
    let ?reported = "case verify of Some hash \<Rightarrow> hash remote s | None \<Rightarrow> None"
    obtain r1 l1 where 1: "lo_create lo ?p l = (r1, l1)" by fastforce
    obtain r2 l2 where 2: "download_loop lo remote ?p reads [] l1 = (r2, l2)" by fastforce
    obtain r3 l3 where 3: "lo_flush lo ?p l2 = (r3, l3)" by fastforce
    obtain r4 l4 where 4: "lo_rename lo ?p local l3 = (r4, l4)" by fastforce
    have l1: "only files {?p} l l1" using lo(6)[OF 1] by (auto simp: only_def)
    show ?thesis
    proof (cases r1)
      case (Inl e)
      then have "\<exists>e. r = Inl e" "l' = l1"
        using run \<open>sf_open sf remote s = Inr reads\<close> 1 by (auto simp: download_staged_def Let_def)
      then show ?thesis using err l1 by simp
    next
      case r1: (Inr u)
      then have "files l1 ?p = Some []" using lo(6)[OF 1] by simp
      note loop = download_loop_outcome[OF laws 2 this]
      have l2: "only files {?p} l l2" by (rule only_trans[OF l1]) (use loop in auto)
      have l3: "only files {?p} l l3" by (rule only_trans[OF l2 lo(3)[OF 3]]) auto
      consider (bad) "\<exists>e. r = Inl e" "l' \<in> {l2, local_discard lo ?p l3, l3} \<or> (l' = l4 \<and> isl r4)"
        | (good) "r2 = Inr (delivered reads)" "r3 = Inr ()" "r4 = Inr ()" "l' = l4"
          "r = Inr \<lparr>to_bytes = length (delivered reads), to_sha256 = digest (delivered reads),
             to_verified = (?reported \<noteq> None), to_changed = True\<rparr>"
          "?reported = None \<or> ?reported = Some (digest (delivered reads))"
        using run Inr 1 2 3 4 r1 loop
        by (cases r2; cases r3; cases r4; cases ?reported)
          (auto simp: download_staged_def Let_def split: if_splits)
      then show ?thesis
      proof cases
        case bad
        have "only files {?p} l l4" if "isl r4" using l3 lo(7)[OF 4] that by (simp add: only_def)
        then show ?thesis using err bad l2 l3 dis[OF l3] by auto
      next
        case good
        have "files l4 = (files l3)(?p := None, local := files l3 ?p)" using lo(7)[OF 4] good by simp
        moreover have "files l3 ?p = Some (delivered reads)"
          using lo(4)[of ?p l2 l3] 3 good loop by simp
        moreover have "only files {?p, local} l l4"
          using l3 calculation by (auto simp: only_def)
        moreover have "?reported = None \<or> (\<exists>hash. verify = Some hash \<and> hash remote s = Some (digest (delivered reads)))"
          using good(6) by (auto split: option.splits)
        ultimately show ?thesis using good(1-5) ne Inr by auto
      qed
    qed
  qed
qed


section \<open>A server in memory\<close>

text \<open>A file server whose state is the content of its files satisfies the laws.\<close>

definition mem_sftp :: "(str \<Rightarrow> bytes option) sftp" where
  "mem_sftp =
     \<lparr>sf_metadata = (\<lambda>p s. case s p of None \<Rightarrow> Inl (SftpStatus NoSuchFile ''No such file'')
        | Some d \<Rightarrow> Inr \<lparr>md_kind = File, md_len = length d, md_permissions = None, md_uid = None,
            md_gid = None, md_user = None, md_group = None, md_mtime = None\<rparr>),
      sf_open = (\<lambda>p s. case s p of None \<Rightarrow> Inl (SftpStatus NoSuchFile ''No such file'')
        | Some d \<Rightarrow> Inr [Inr d]),
      sf_handle_len = (\<lambda>p s. map_option length (s p)),
      sf_create = (\<lambda>p s. (Inr (), s(p := Some []))),
      sf_write = (\<lambda>p d s. (Inr (), s(p := map_option (\<lambda>c. c @ d) (s p)))),
      sf_flush = (\<lambda>p s. (Inr (), s)), sf_close = (\<lambda>p s. (Inr (), s)),
      sf_set_mode = (\<lambda>p m s. (Inr (), s)),
      sf_remove = (\<lambda>p s. (Inr (), s(p := None))),
      sf_rename = (\<lambda>p q s. (Inr (), s(p := None, q := s p))),
      sf_create_dir = (\<lambda>p s. (Inr (), s(p := Some [])))\<rparr>"

definition mem_local :: "(str \<Rightarrow> bytes option) local_fs" where
  "mem_local =
     \<lparr>lo_create = (\<lambda>p s. (Inr (), s(p := Some []))),
      lo_write = (\<lambda>p d s. (Inr (), s(p := map_option (\<lambda>c. c @ d) (s p)))),
      lo_flush = (\<lambda>p s. (Inr (), s)),
      lo_remove = (\<lambda>p s. (Inr (), s(p := None))),
      lo_rename = (\<lambda>p q s. (Inr (), s(p := None, q := s p)))\<rparr>"

lemma mem_laws:
  "sftp_laws mem_sftp (\<lambda>s. s)" "hash_law id (Some (\<lambda>p s. s p)) (\<lambda>s. s)" "local_laws mem_local (\<lambda>s. s)"
  by (auto simp: sftp_laws_def hash_law_def local_laws_def mem_sftp_def mem_local_def only_def)




section \<open>Directories and capped reads\<close>

text \<open>What creating directories relies on: a created path exists, and no existing path vanishes.\<close>

definition dir_laws :: "'s sftp \<Rightarrow> bool" where
  "dir_laws sf \<longleftrightarrow>
     (\<forall>p s s'. sf_create_dir sf p s = (Inr (), s') \<longrightarrow> (\<exists>m. sf_metadata sf p s' = Inr m))
   \<and> (\<forall>p q s m. sf_metadata sf q s = Inr m \<longrightarrow> (\<exists>m'. sf_metadata sf q (snd (sf_create_dir sf p s)) = Inr m'))
   \<and> (\<forall>p k q s m. sf_metadata sf q s = Inr m \<longrightarrow> (\<exists>m'. sf_metadata sf q (snd (sf_set_mode sf p k s)) = Inr m'))"

definition exists_at :: "'s sftp \<Rightarrow> str \<Rightarrow> 's \<Rightarrow> bool" where
  "exists_at sf p s \<longleftrightarrow> \<not> isl (sf_metadata sf p s)"

lemma exists_at_kept:
  assumes "dir_laws sf"
  shows "sf_create_dir sf p s = (Inr (), s') \<Longrightarrow> exists_at sf p s'"
    "sf_create_dir sf p s = (r, s') \<Longrightarrow> exists_at sf q s \<Longrightarrow> exists_at sf q s'"
    "apply_mode sf p m s = (r', s') \<Longrightarrow> exists_at sf q s \<Longrightarrow> exists_at sf q s'"
proof -
  have ex: "exists_at sf q s \<longleftrightarrow> (\<exists>m. sf_metadata sf q s = Inr m)" for q s
    by (cases "sf_metadata sf q s") (auto simp: exists_at_def)
  show "sf_create_dir sf p s = (Inr (), s') \<Longrightarrow> exists_at sf p s'"
    using assms unfolding dir_laws_def ex by blast
  show "sf_create_dir sf p s = (r, s') \<Longrightarrow> exists_at sf q s \<Longrightarrow> exists_at sf q s'"
    using assms unfolding dir_laws_def ex by (metis snd_conv)
  have "exists_at sf q s \<Longrightarrow> exists_at sf q (snd (sf_set_mode sf p k s))" for k
    using assms unfolding dir_laws_def ex by blast
  then show "apply_mode sf p m s = (r', s') \<Longrightarrow> exists_at sf q s \<Longrightarrow> exists_at sf q s'"
    by (cases m) (auto simp: apply_mode_def split: prod.splits, metis snd_conv)
qed

lemma try_stat_exists: "try_stat sf p s = Inr (Some m) \<Longrightarrow> exists_at sf p s"
  by (auto simp: try_stat_def exists_at_def split: sum.splits sftp_error.splits status_code.splits)

lemma make_dir_outcome:
  assumes laws: "dir_laws sf"
  shows "make_dir sf path parents mode s = (r, s') \<Longrightarrow>
    (\<forall>q. exists_at sf q s \<longrightarrow> exists_at sf q s') \<and> (r = Inr () \<longrightarrow> exists_at sf path s')"
proof (induction "length path" arbitrary: path parents mode s r s' rule: less_induct)
  case less
  note kept = exists_at_kept[OF laws]
  let ?up = "case (if parents then parent_of path else None) of
      Some parent \<Rightarrow> if parent \<noteq> ''/'' \<and> parent \<noteq> [] then make_dir sf parent True None s else (Inr (), s)
    | None \<Rightarrow> (Inr (), s)"
  consider (failed) e where "try_stat sf path s = Inl e" | (present) m where "try_stat sf path s = Inr (Some m)"
    | (absent) "try_stat sf path s = Inr None"
    by (cases "try_stat sf path s"; cases "projr (try_stat sf path s)") auto
  then show ?case
  proof cases
    case failed
    then show ?thesis using less.prems by (auto simp: make_dir.simps[of sf path])
  next
    case present
    then show ?thesis using less.prems try_stat_exists[OF present] by (auto simp: make_dir.simps[of sf path])
  next
    case absent
    obtain r1 s1 where up: "?up = (r1, s1)" by fastforce
    have s1: "exists_at sf q s \<Longrightarrow> exists_at sf q s1" for q
    proof (cases "\<exists>parent. parents \<and> parent_of path = Some parent \<and> parent \<noteq> ''/'' \<and> parent \<noteq> []")
      case True
      then obtain parent where parent: "parents" "parent_of path = Some parent" "parent \<noteq> ''/''" "parent \<noteq> []"
        by blast
      then have "make_dir sf parent True None s = (r1, s1)" using up by simp
      then show "exists_at sf q s \<Longrightarrow> exists_at sf q s1"
        using less.hyps[OF parent_of_shorter[OF parent(2,3)]] by blast
    next
      case False
      then have "s1 = s" using up by (auto split: option.splits if_splits)
      then show "exists_at sf q s \<Longrightarrow> exists_at sf q s1" by simp
    qed
    obtain r2 s2 where mk: "sf_create_dir sf path s1 = (r2, s2)" by fastforce
    have s2: "exists_at sf q s \<Longrightarrow> exists_at sf q s2" for q using kept(2)[OF mk] s1 by blast
    have run: "make_dir sf path parents mode s = (case r1 of Inl e \<Rightarrow> (Inl e, s1) | Inr _ \<Rightarrow>
        (case r2 of Inr _ \<Rightarrow> apply_mode sf path mode s2
         | Inl error \<Rightarrow> (case try_stat sf path s2 of Inl e \<Rightarrow> (Inl e, s2)
             | Inr None \<Rightarrow> (Inl (sftp_error_text error path), s2)
             | Inr (Some _) \<Rightarrow> apply_mode sf path mode s2)))"
      unfolding make_dir.simps[of sf path parents mode s] absent using up mk
      by (simp split: sum.split)
    consider "\<exists>e. r = Inl e" "s' = s1 \<or> s' = s2"
      | "apply_mode sf path mode s2 = (r, s')" "exists_at sf path s2"
    proof (cases r1)
      case (Inl e)
      then show ?thesis using that(1) run less.prems by auto
    next
      case (Inr u)
      show ?thesis
      proof (cases r2)
        case (Inr v)
        then show ?thesis using that(2) run less.prems \<open>r1 = Inr u\<close> mk kept(1)[of path s1 s2] by auto
      next
        case (Inl e)
        then show ?thesis
          using that run less.prems \<open>r1 = Inr u\<close> try_stat_exists[of sf path s2]
          by (cases "try_stat sf path s2"; cases "projr (try_stat sf path s2)") auto
      qed
    qed
    then show ?thesis
    proof cases
      case 1
      then show ?thesis using s1 s2 by auto
    next
      case 2
      then show ?thesis using kept(3)[OF 2(1)] s2 by blast
    qed
  qed
qed

text \<open>
  Creating a directory, with or without its parents, succeeds only when the path exists
  afterwards, and never makes an existing path disappear.
\<close>

theorem make_dir_creates:
  assumes "dir_laws sf" and "make_dir sf path parents mode s = (r, s')"
  shows "(isl r \<or> exists_at sf path s') \<and> {q. exists_at sf q s} \<subseteq> {q. exists_at sf q s'}"
  using make_dir_outcome[OF assms] by (cases r) auto

theorem make_dir_creates_witness:
  "exists_at mem_sftp ''a/b'' (snd (make_dir mem_sftp ''a/b'' True None (\<lambda>_. None)))
   \<and> exists_at mem_sftp ''a'' (snd (make_dir mem_sftp ''a/b'' True None (\<lambda>_. None)))"
proof -
  have laws: "dir_laws mem_sftp"
    by (auto simp: dir_laws_def mem_sftp_def split: option.splits)
  have up: "parent_of ''a/b'' = Some ''a''" "parent_of ''a'' = None"
    by (simp_all add: parent_of_def trim_end_matches_def slash_def Let_def)
  have run: "make_dir mem_sftp ''a/b'' True None (\<lambda>_. None) =
      (Inr (), (\<lambda>_. None)(''a'' := Some [], ''a/b'' := Some []))"
    by (simp add: make_dir.simps[of _ "''a/b''"] make_dir.simps[of _ "''a''"] up mem_sftp_def try_stat_def
        apply_mode_def)
  show ?thesis
    unfolding run snd_conv using make_dir_creates[OF laws run] by (simp add: exists_at_def mem_sftp_def)
qed

lemma read_limited_prefix: "read_limited room rs = Inr d \<Longrightarrow> d = take room (delivered rs)"
proof (induction rs arbitrary: room d)
  case (Cons r rs)
  show ?case
  proof (cases r)
    case (Inr chunk)
    obtain x where x: "room = 0 \<or> chunk = [] \<or> (read_limited (room - length chunk) rs = Inr x \<and> d = take room chunk @ x)"
      using Cons.prems Inr by (cases "read_limited (room - length chunk) rs") (auto split: if_splits)
    then show ?thesis using Cons Inr by (auto split: if_splits)
  qed (use Cons.prems in \<open>auto split: if_splits\<close>)
qed simp

text \<open>
  A capped read returns the first bytes the file delivers, as many as the cap allows, and its
  truncation flag compares the reported size with what was returned.
\<close>

theorem read_capped_prefix:
  assumes "read_capped sf path max_bytes s = Inr (d, sz, truncated)"
  shows "\<exists>reads. sf_open sf path s = Inr reads \<and> d = take max_bytes (delivered reads)
    \<and> (truncated \<longleftrightarrow> sz > length d) \<and> sz = (case sf_handle_len sf path s of Some n \<Rightarrow> n | None \<Rightarrow> 0)"
  using assms read_limited_prefix by (auto simp: read_capped_def Let_def split: sum.splits)

theorem read_capped_prefix_witness:
  "read_capped mem_sftp ''f'' 2 (\<lambda>_. Some ''abc'') = Inr (''ab'', 3, True)
   \<and> (\<exists>reads. sf_open mem_sftp ''f'' (\<lambda>_. Some ''abc'') = Inr reads \<and> ''ab'' = take 2 (delivered reads))"
proof -
  have run: "read_capped mem_sftp ''f'' 2 (\<lambda>_. Some ''abc'') = Inr (''ab'', 3, True)"
    by (simp add: read_capped_def mem_sftp_def)
  show ?thesis using read_capped_prefix[OF run] run by blast
qed

end
