(* ===== verification/Session_Files.thy ===== *)
theory Session_Files
  imports Session_Runs File_Transfer
begin

text \<open>
  The file operations of the session manager (\<open>crates/session/src/lib.rs\<close>). The remote host is
  a record of the calls the code makes on a connection: opening the SFTP subsystem, running a
  helper command to its end, and feeding bytes to one. A helper that only reads (a digest, a
  size, the head of a file) is asked for its answer and leaves the host as it was. A handler
  that connects twice takes two worlds.
\<close>

section \<open>Helper commands\<close>

datatype fed = FedOpenFailed str | FedWriteFailed str | FedEofFailed str | FedTimedOut | FedDone "channel_msg list"

record 's remote =
  re_sftp :: "'s sftp"
  re_open_sftp :: "nat \<Rightarrow> str + unit"
  re_exec :: "nat \<Rightarrow> str \<Rightarrow> 's \<Rightarrow> (str + channel_msg list) \<times> 's"
  re_feed :: "nat \<Rightarrow> str \<Rightarrow> bytes \<Rightarrow> 's \<Rightarrow> fed \<times> 's"
  re_digest :: "bytes \<Rightarrow> str"

definition HELPER_OUTPUT_BYTES :: nat where
  "HELPER_OUTPUT_BYTES = 64 * 1024"

definition APPEND_READ_LIMIT :: nat where
  "APPEND_READ_LIMIT = 8 * 1024 * 1024"

definition debug_exit :: "nat option \<Rightarrow> str" where
  "debug_exit e = (case e of None \<Rightarrow> ''None'' | Some n \<Rightarrow> ''Some('' @ show_nat n @ '')'')"

definition helper_failed :: "str \<Rightarrow> collected \<Rightarrow> error_payload" where
  "helper_failed what c =
     (let detail = trim (from_utf8_lossy (co_stderr c)) in
      new_error ''REMOTE_COMMAND_FAILED''
        (if detail = [] then what @ '' exited with '' @ debug_exit (co_exit c) else detail))"

definition exec_helper :: "'s remote \<Rightarrow> nat \<Rightarrow> str \<Rightarrow> nat \<Rightarrow> 's \<Rightarrow> bytes api_result \<times> 's" where
  "exec_helper re h command_line limit s =
     (case re_exec re h command_line s of
        (Inl e, s') \<Rightarrow> (Inl (classify_error e), s')
      | (Inr msgs, s') \<Rightarrow>
          (let c = collect limit msgs in
           if co_exit c \<noteq> Some 0 then (Inl (helper_failed ''helper command'' c), s')
           else (Inr (co_stdout c), s')))"

definition hash_command :: "str \<Rightarrow> bool \<Rightarrow> str" where
  "hash_command path sudo =
     (let prefix = (if sudo then ''sudo -n '' else []);
          quoted = shell_quote path
      in ''if command -v sha256sum >/dev/null 2>&1; then '' @ prefix @ ''sha256sum -- '' @ quoted
         @ ''; elif command -v shasum >/dev/null 2>&1; then '' @ prefix @ ''shasum -a 256 -- '' @ quoted
         @ ''; else exit 3; fi'')"

definition remote_sha256 :: "'s remote \<Rightarrow> nat \<Rightarrow> str \<Rightarrow> bool \<Rightarrow> 's \<Rightarrow> str option" where
  "remote_sha256 re h path sudo s =
     (case fst (exec_helper re h (hash_command path sudo) HELPER_OUTPUT_BYTES s) of
        Inl e \<Rightarrow> None
      | Inr output \<Rightarrow>
          if \<not> valid_utf8 output then None
          else (case split_whitespace output of
                  [] \<Rightarrow> None
                | d # _ \<Rightarrow> if length d = 64 then Some (to_ascii_lowercase d) else None))"

text \<open>\<open>u64::from_str\<close>: an optional plus sign and decimal digits, within 64 bits.\<close>

definition parse_u64 :: "str \<Rightarrow> nat option" where
  "parse_u64 v =
     (let ds = (case v of c # cs \<Rightarrow> if c = CHR ''+'' then cs else v | [] \<Rightarrow> []);
          n = foldl (\<lambda>n d. 10 * n + (bval d - 48)) 0 ds
      in if ds \<noteq> [] \<and> list_all is_ascii_digit ds \<and> n < 2 ^ 64 then Some n else None)"

definition size_command :: "str \<Rightarrow> str" where
  "size_command path = ''sudo -n wc -c -- '' @ shell_quote path"

definition sudo_file_size :: "'s remote \<Rightarrow> nat \<Rightarrow> str \<Rightarrow> 's \<Rightarrow> nat option api_result" where
  "sudo_file_size re h path s =
     (case fst (exec_helper re h (size_command path) HELPER_OUTPUT_BYTES s) of
        Inl e \<Rightarrow> Inl e
      | Inr output \<Rightarrow>
          Inr (case split_whitespace (from_utf8_lossy output) of [] \<Rightarrow> None | v # _ \<Rightarrow> parse_u64 v))"

definition head_command :: "str \<Rightarrow> nat \<Rightarrow> str" where
  "head_command path max_bytes = ''sudo -n head -c '' @ show_nat max_bytes @ '' -- '' @ shell_quote path"

definition sudo_read_chunk :: "'s remote \<Rightarrow> nat \<Rightarrow> str \<Rightarrow> nat \<Rightarrow> 's \<Rightarrow> bytes api_result" where
  "sudo_read_chunk re h path max_bytes s =
     fst (exec_helper re h (head_command path max_bytes) max_bytes s)"

definition tee_command :: "str \<Rightarrow> bool \<Rightarrow> str" where
  "tee_command path append_mode =
     ''sudo -n tee '' @ (if append_mode then ''-a '' else []) @ ''-- '' @ shell_quote path @ '' > /dev/null''"

definition sudo_write :: "'s remote \<Rightarrow> nat \<Rightarrow> str \<Rightarrow> bytes \<Rightarrow> bool \<Rightarrow> 's \<Rightarrow> unit api_result \<times> 's" where
  "sudo_write re h path data append_mode s =
     (case re_feed re h (tee_command path append_mode) data s of
        (FedOpenFailed e, s') \<Rightarrow> (Inl (classify_error e), s')
      | (FedWriteFailed e, s') \<Rightarrow> (Inl (classify_error e), s')
      | (FedEofFailed e, s') \<Rightarrow> (Inl (classify_error e), s')
      | (FedTimedOut, s') \<Rightarrow>
          (Inl (new_error ''REMOTE_TIMEOUT'' ''the privileged write did not finish in time''), s')
      | (FedDone msgs, s') \<Rightarrow>
          (let c = collect HELPER_OUTPUT_BYTES msgs in
           if co_exit c \<noteq> Some 0 then (Inl (helper_failed ''privileged write'' c), s')
           else (Inr (), s')))"

definition ignore_output :: "bytes api_result \<times> 's \<Rightarrow> unit api_result \<times> 's" where
  "ignore_output p = map_prod (map_sum id (\<lambda>_. ())) id p"

definition mkdir_command :: "str \<Rightarrow> str" where
  "mkdir_command path = ''sudo -n mkdir -p -- '' @ shell_quote path"

definition sudo_make_dir :: "'s remote \<Rightarrow> nat \<Rightarrow> str \<Rightarrow> 's \<Rightarrow> unit api_result \<times> 's" where
  "sudo_make_dir re h path s =
     ignore_output (exec_helper re h (mkdir_command path) HELPER_OUTPUT_BYTES s)"

definition chmod_command :: "str \<Rightarrow> nat \<Rightarrow> str" where
  "chmod_command path mode = ''sudo -n chmod '' @ show_base 8 mode @ '' -- '' @ shell_quote path"

definition sudo_chmod :: "'s remote \<Rightarrow> nat \<Rightarrow> str \<Rightarrow> nat \<Rightarrow> 's \<Rightarrow> unit api_result \<times> 's" where
  "sudo_chmod re h path mode s =
     ignore_output (exec_helper re h (chmod_command path mode) HELPER_OUTPUT_BYTES s)"

section \<open>Paths and outcomes\<close>

text \<open>\<open>home\<close> is the home directory, or the text of the error of looking it up.\<close>

definition local_path_for :: "str + str \<Rightarrow> str \<Rightarrow> str api_result" where
  "local_path_for home v =
     (let trimmed = trim v;
          checked = (\<lambda>path. if starts_with path ''/'' then Inr path
            else Inl (new_error ''INVALID_ARGUMENT''
              (''local_path must be absolute or start with ~: '' @ from_utf8_lossy path)))
      in if trimmed = [] then Inl (new_error ''INVALID_ARGUMENT'' ''local_path must not be empty'')
         else if trimmed = ''~'' \<or> starts_with trimmed ''~/'' \<or> starts_with trimmed [CHR ''~'', CHR 0x5C]
         then (case home of
                 Inl e \<Rightarrow> Inl (new_error ''LOCAL_IO_ERROR'' (''cannot expand ~: '' @ e))
               | Inr dir \<Rightarrow>
                   checked (join_path dir
                     (dropWhile (\<lambda>c. c \<in> {CHR ''/'', CHR 0x5C}) (dropWhile (\<lambda>c. c = CHR ''~'') trimmed))))
         else checked trimmed)"

definition to_file_outcome :: "str \<Rightarrow> transfer_outcome \<Rightarrow> nat option \<Rightarrow> str option \<Rightarrow> file_outcome" where
  "to_file_outcome path out mode local =
     \<lparr>fo_path = path, fo_bytes = to_bytes out, fo_sha256 = Some (to_sha256 out),
      fo_verified = to_verified out, fo_changed = to_changed out, fo_mode = mode,
      fo_local_path = map_option from_utf8_lossy local\<rparr>"

section \<open>The operations\<close>

definition sftp_channel :: "'s remote \<Rightarrow> world \<Rightarrow> str \<Rightarrow> manager \<Rightarrow> nat api_result \<times> manager" where
  "sftp_channel re w session_id m =
     (case the_runtime w m session_id of
        Inl e \<Rightarrow> (Inl e, m)
      | Inr rt \<Rightarrow>
        (case connection_for w rt m of
           (Inl e, m1) \<Rightarrow> (Inl e, m1)
         | (Inr h, m1) \<Rightarrow>
           (case re_open_sftp re h of
              Inr _ \<Rightarrow> (Inr h, m1)
            | Inl e \<Rightarrow> (Inl (classify_error e), discard_connection session_id m1))))"

definition connected :: "world \<Rightarrow> str \<Rightarrow> manager \<Rightarrow> nat api_result \<times> manager" where
  "connected w session_id m =
     (case the_runtime w m session_id of
        Inl e \<Rightarrow> (Inl e, m)
      | Inr rt \<Rightarrow> connection_for w rt m)"

definition file_stat :: "'s remote \<Rightarrow> world \<Rightarrow> str \<Rightarrow> str \<Rightarrow> bool \<Rightarrow> 's \<Rightarrow> manager
    \<Rightarrow> file_stat_info api_result \<times> manager" where
  "file_stat re w session_id remote_path hash s m =
     (case sftp_channel re w session_id m of
        (Inl e, m1) \<Rightarrow> (Inl e, m1)
      | (Inr h, m1) \<Rightarrow>
        (case stat (re_sftp re) remote_path s of
           Inl e \<Rightarrow> (Inl (classify_error e), m1)
         | Inr md \<Rightarrow>
           (let kind = (case md_kind md of Directory \<Rightarrow> Directory | File \<Rightarrow> File | _ \<Rightarrow> OtherKind)
            in (Inr \<lparr>fs_path = remote_path, fs_kind = kind, fs_size = md_len md,
                  fs_mode = md_permissions md, fs_uid = md_uid md, fs_gid = md_gid md,
                  fs_user = md_user md, fs_group = md_group md,
                  fs_modified_at = map_option (\<lambda>t. t * 1000000000) (md_mtime md),
                  fs_sha256 = (if hash \<and> kind = File then remote_sha256 re h remote_path False s else None)\<rparr>,
                m1))))"

definition file_read :: "'s remote \<Rightarrow> world \<Rightarrow> world \<Rightarrow> str \<Rightarrow> str \<Rightarrow> nat \<Rightarrow> bool \<Rightarrow> 's \<Rightarrow> manager
    \<Rightarrow> file_content_info api_result \<times> manager" where
  "file_read re w w2 session_id remote_path max_bytes sudo s m =
     (let limit = clamp max_bytes 1 MAX_READ_BYTES in
      case connected w session_id m of
        (Inl e, m1) \<Rightarrow> (Inl e, m1)
      | (Inr h, m1) \<Rightarrow>
        (let sha = (if sudo then remote_sha256 re h remote_path True s else None);
             (r, m2) =
               (if sudo
                then (case sudo_file_size re h remote_path s of
                        Inl e \<Rightarrow> (Inl e, m1)
                      | Inr known \<Rightarrow>
                        (case sudo_read_chunk re h remote_path limit s of
                           Inl e \<Rightarrow> (Inl e, m1)
                         | Inr d \<Rightarrow>
                             (Inr (d, (case known of None \<Rightarrow> length d | Some n \<Rightarrow> n),
                                   (case known of None \<Rightarrow> False | Some n \<Rightarrow> n > length d)), m1)))
                else (case sftp_channel re w2 session_id m1 of
                        (Inl e, m2) \<Rightarrow> (Inl e, m2)
                      | (Inr _, m2) \<Rightarrow> (map_err classify_error (read_capped (re_sftp re) remote_path limit s), m2)))
         in case r of
              Inl e \<Rightarrow> (Inl e, m2)
            | Inr (d, total_size, truncated) \<Rightarrow>
                (Inr \<lparr>fc_path = remote_path, fc_size = total_size, fc_bytes_returned = length d,
                      fc_truncated = truncated, fc_is_utf8 = valid_utf8 d,
                      fc_sha256 = (if truncated then None else sha), fc_data = d\<rparr>, m2)))"

definition verify_failed :: "str \<Rightarrow> error_payload" where
  "verify_failed remote_path =
     new_error ''TRANSFER_VERIFY_FAILED'' (remote_path @ '' does not match the bytes that were sent'')"

definition append_too_large :: "str \<Rightarrow> nat \<Rightarrow> error_payload" where
  "append_too_large remote_path n =
     new_error ''INVALID_ARGUMENT'' (remote_path @ '' is '' @ show_nat n @ '' bytes, above the ''
       @ show_nat APPEND_READ_LIMIT @ '' byte in-place append limit; upload the full replacement instead'')"

definition exec_hash :: "'s remote \<Rightarrow> nat \<Rightarrow> 's remote_hash" where
  "exec_hash re h = (\<lambda>p s. remote_sha256 re h p False s)"

definition ensure_parent :: "'s remote \<Rightarrow> str \<Rightarrow> bool \<Rightarrow> 's \<Rightarrow> (str + unit) \<times> 's" where
  "ensure_parent re remote_path create_dirs s =
     (case (if create_dirs then parent_of remote_path else None) of
        None \<Rightarrow> (Inr (), s)
      | Some parent \<Rightarrow> make_dir (re_sftp re) parent True None s)"

definition sudo_parent :: "'s remote \<Rightarrow> nat \<Rightarrow> str \<Rightarrow> bool \<Rightarrow> 's \<Rightarrow> unit api_result \<times> 's" where
  "sudo_parent re h remote_path create_dirs s =
     (case (if create_dirs then parent_of remote_path else None) of
        None \<Rightarrow> (Inr (), s)
      | Some parent \<Rightarrow> sudo_make_dir re h parent s)"

text \<open>The privileged branch of \<open>file_write\<close>; a failing \<open>chmod\<close> is only logged.\<close>

definition sudo_file_write :: "'s remote \<Rightarrow> nat \<Rightarrow> str \<Rightarrow> bytes \<Rightarrow> bool \<Rightarrow> bool \<Rightarrow> nat option \<Rightarrow> 's
    \<Rightarrow> file_outcome api_result \<times> 's" where
  "sudo_file_write re h remote_path data append_mode create_dirs mode s =
     (case sudo_parent re h remote_path create_dirs s of
        (Inl e, s1) \<Rightarrow> (Inl e, s1)
      | (Inr _, s1) \<Rightarrow>
        (case sudo_write re h remote_path data append_mode s1 of
           (Inl e, s2) \<Rightarrow> (Inl e, s2)
         | (Inr _, s2) \<Rightarrow>
           (let s3 = (case mode of None \<Rightarrow> s2 | Some v \<Rightarrow> snd (sudo_chmod re h remote_path v s2))
            in if remote_sha256 re h remote_path True s3 = Some (re_digest re data)
               then (Inr \<lparr>fo_path = remote_path, fo_bytes = length data, fo_sha256 = Some (re_digest re data),
                       fo_verified = True, fo_changed = True, fo_mode = mode, fo_local_path = None\<rparr>, s3)
               else (Inl (verify_failed remote_path), s3))))"

text \<open>The unprivileged branch, on an open SFTP channel: an append is a verified rewrite.\<close>

definition sftp_file_write :: "'s remote \<Rightarrow> nat \<Rightarrow> stamp \<Rightarrow> str \<Rightarrow> bytes \<Rightarrow> bool \<Rightarrow> bool \<Rightarrow> nat option \<Rightarrow> 's
    \<Rightarrow> file_outcome api_result \<times> 's" where
  "sftp_file_write re h st remote_path data append_mode create_dirs mode s =
     (case ensure_parent re remote_path create_dirs s of
        (Inl e, s1) \<Rightarrow> (Inl (classify_error e), s1)
      | (Inr _, s1) \<Rightarrow>
        (case (if append_mode
               then (case read_capped (re_sftp re) remote_path APPEND_READ_LIMIT s1 of
                       Inl e \<Rightarrow> Inl (classify_error e)
                     | Inr (existing, n, _) \<Rightarrow>
                         if n > length existing then Inl (append_too_large remote_path n)
                         else Inr (existing @ data))
               else Inr data) of
           Inl e \<Rightarrow> (Inl e, s1)
         | Inr content \<Rightarrow>
           (case write_staged (re_digest re) (re_sftp re) st remote_path content mode
                   (Some (exec_hash re h)) s1 of
              (Inl e, s2) \<Rightarrow> (Inl (classify_error e), s2)
            | (Inr out, s2) \<Rightarrow> (Inr (to_file_outcome remote_path out mode None), s2))))"

definition file_write :: "'s remote \<Rightarrow> world \<Rightarrow> world \<Rightarrow> stamp \<Rightarrow> str \<Rightarrow> str \<Rightarrow> bytes \<Rightarrow> bool \<Rightarrow> bool
    \<Rightarrow> nat option \<Rightarrow> bool \<Rightarrow> bool \<Rightarrow> 's \<Rightarrow> manager \<Rightarrow> file_outcome api_result \<times> manager \<times> 's" where
  "file_write re w w2 st session_id remote_path data append_mode create_dirs mode sudo if_changed s m =
     (case connected w session_id m of
        (Inl e, m1) \<Rightarrow> (Inl e, m1, s)
      | (Inr h, m1) \<Rightarrow>
        if if_changed \<and> \<not> append_mode \<and> remote_sha256 re h remote_path sudo s = Some (re_digest re data)
        then (Inr \<lparr>fo_path = remote_path, fo_bytes = length data, fo_sha256 = Some (re_digest re data),
                fo_verified = True, fo_changed = False, fo_mode = mode, fo_local_path = None\<rparr>, m1, s)
        else if sudo
        then (case sudo_file_write re h remote_path data append_mode create_dirs mode s of
                (r, s') \<Rightarrow> (r, m1, s'))
        else (case sftp_channel re w2 session_id m1 of
                (Inl e, m2) \<Rightarrow> (Inl e, m2, s)
              | (Inr _, m2) \<Rightarrow>
                (case sftp_file_write re h st remote_path data append_mode create_dirs mode s of
                   (r, s') \<Rightarrow> (r, m2, s'))))"

text \<open>The local side of a transfer.\<close>

record 'l local_env =
  le_fs :: "'l local_fs"
  le_exists :: "str \<Rightarrow> 'l \<Rightarrow> bool"
  le_create_dirs :: "str \<Rightarrow> 'l \<Rightarrow> (io_error + unit) \<times> 'l"
  le_open :: "str \<Rightarrow> 'l \<Rightarrow> io_error + (io_error + bytes) list"
  le_home :: "str + str"
  le_pid :: nat

definition file_upload :: "'s remote \<Rightarrow> 'l local_env \<Rightarrow> world \<Rightarrow> stamp \<Rightarrow> str \<Rightarrow> str \<Rightarrow> str \<Rightarrow> bool \<Rightarrow> nat option
    \<Rightarrow> bool \<Rightarrow> 's \<Rightarrow> 'l \<Rightarrow> manager \<Rightarrow> file_outcome api_result \<times> manager \<times> 's" where
  "file_upload re le w st session_id local_path remote_path create_dirs mode verify s l m =
     (case local_path_for (le_home le) local_path of
        Inl e \<Rightarrow> (Inl e, m, s)
      | Inr local \<Rightarrow>
        (case sftp_channel re w session_id m of
           (Inl e, m1) \<Rightarrow> (Inl e, m1, s)
         | (Inr h, m1) \<Rightarrow>
           (case ensure_parent re remote_path create_dirs s of
              (Inl e, s1) \<Rightarrow> (Inl (classify_error e), m1, s1)
            | (Inr _, s1) \<Rightarrow>
              (case upload_staged (re_digest re) (re_sftp re) (le_open le local l) local st remote_path mode
                      (if verify then Some (exec_hash re h) else None) s1 of
                 (Inl e, s2) \<Rightarrow> (Inl (classify_error e), m1, s2)
               | (Inr out, s2) \<Rightarrow> (Inr (to_file_outcome remote_path out mode (Some local)), m1, s2)))))"

definition file_download :: "'s remote \<Rightarrow> 'l local_env \<Rightarrow> world \<Rightarrow> str \<Rightarrow> str \<Rightarrow> str \<Rightarrow> bool \<Rightarrow> bool \<Rightarrow> bool
    \<Rightarrow> 's \<Rightarrow> 'l \<Rightarrow> manager \<Rightarrow> file_outcome api_result \<times> manager \<times> 'l" where
  "file_download re le w session_id remote_path local_path overwrite create_dirs verify s l m =
     (case local_path_for (le_home le) local_path of
        Inl e \<Rightarrow> (Inl e, m, l)
      | Inr local \<Rightarrow>
        if le_exists le local l \<and> \<not> overwrite
        then (Inl (new_error ''FILE_EXISTS''
               (from_utf8_lossy local @ '' already exists; pass overwrite=true to replace it'')), m, l)
        else
          (case (case (if create_dirs then path_parent local else None) of
                   None \<Rightarrow> (Inr (), l)
                 | Some parent \<Rightarrow>
                     if parent = [] then (Inr (), l)
                     else (case le_create_dirs le parent l of
                             (Inl e, l1) \<Rightarrow> (Inl (classify_error (local_error e parent)), l1)
                           | (Inr _, l1) \<Rightarrow> (Inr (), l1))) of
             (Inl e, l1) \<Rightarrow> (Inl e, m, l1)
           | (Inr _, l1) \<Rightarrow>
             (case sftp_channel re w session_id m of
                (Inl e, m1) \<Rightarrow> (Inl e, m1, l1)
              | (Inr h, m1) \<Rightarrow>
                (case download_staged (re_digest re) (re_sftp re) (le_fs le) (le_pid le) remote_path local
                        (if verify then Some (exec_hash re h) else None) s l1 of
                   (Inl e, l2) \<Rightarrow> (Inl (classify_error e), m1, l2)
                 | (Inr out, l2) \<Rightarrow> (Inr (to_file_outcome remote_path out None (Some local)), m1, l2)))))"

definition file_mkdir :: "'s remote \<Rightarrow> world \<Rightarrow> str \<Rightarrow> str \<Rightarrow> bool \<Rightarrow> nat option \<Rightarrow> 's \<Rightarrow> manager
    \<Rightarrow> unit api_result \<times> manager \<times> 's" where
  "file_mkdir re w session_id remote_path parents mode s m =
     (case sftp_channel re w session_id m of
        (Inl e, m1) \<Rightarrow> (Inl e, m1, s)
      | (Inr _, m1) \<Rightarrow>
        (case make_dir (re_sftp re) remote_path parents mode s of
           (r, s1) \<Rightarrow> (map_err classify_error r, m1, s1)))"

section \<open>File operations and the session machine\<close>

lemma machine_connected:
  assumes "machine_inv sick (m, ts)"
  shows "machine_inv sick (snd (connected w i m), ts)"
  using assms machine_connection_for[OF assms, of i]
  by (simp add: connected_def the_runtime_def split: option.split)

lemma machine_sftp_channel:
  assumes "machine_inv sick (m, ts)"
  shows "machine_inv sick (snd (sftp_channel re w i m), ts)"
proof (cases "lookup m i")
  case (Some rt)
  obtain r m1 where conn: "connection_for w rt m = (r, m1)" by fastforce
  then have "machine_inv sick (m1, ts)" using machine_connection_for[OF assms Some, of w] by simp
  then show ?thesis
    using Some conn machine_discard[of sick m1 ts i]
    by (auto simp: sftp_channel_def the_runtime_def split: sum.split)
qed (use assms in \<open>simp add: sftp_channel_def the_runtime_def\<close>)

text \<open>The managers the file operations can end with.\<close>

lemma file_managers:
  "snd (file_stat re w i p hash s m) = snd (sftp_channel re w i m)"
  "snd (file_read re w w2 i p n sudo s m) \<in> {snd (connected w i m), snd (sftp_channel re w2 i (snd (connected w i m)))}"
  "fst (snd (file_write re w w2 st i p d am cd mode sudo ic s m))
     \<in> {snd (connected w i m), snd (sftp_channel re w2 i (snd (connected w i m)))}"
  "fst (snd (file_upload re le w st i lp p cd mode v s l m)) \<in> {m, snd (sftp_channel re w i m)}"
  "fst (snd (file_download re le w i p lp ov cd v s l m)) \<in> {m, snd (sftp_channel re w i m)}"
  "fst (snd (file_mkdir re w i p ps mode s m)) = snd (sftp_channel re w i m)"
proof -
  obtain r1 m1 where 1: "connected w i m = (r1, m1)" by fastforce
  obtain r2 m2 where 2: "sftp_channel re w2 i m1 = (r2, m2)" by fastforce
  obtain r3 m3 where 3: "sftp_channel re w i m = (r3, m3)" by fastforce
  show "snd (file_read re w w2 i p n sudo s m) \<in> {snd (connected w i m), snd (sftp_channel re w2 i (snd (connected w i m)))}"
    by (cases r1; cases r2; cases sudo)
      (simp_all add: file_read_def 1 2 Let_def split: sum.split prod.split)
  show "fst (snd (file_write re w w2 st i p d am cd mode sudo ic s m))
     \<in> {snd (connected w i m), snd (sftp_channel re w2 i (snd (connected w i m)))}"
    by (cases r1; cases r2; cases sudo) (simp_all add: file_write_def 1 2 split: prod.split)
  show "snd (file_stat re w i p hash s m) = snd (sftp_channel re w i m)"
    "fst (snd (file_mkdir re w i p ps mode s m)) = snd (sftp_channel re w i m)"
    by (cases r3; simp add: file_stat_def file_mkdir_def 3 Let_def split: sum.split prod.split)+
  show "fst (snd (file_upload re le w st i lp p cd mode v s l m)) \<in> {m, snd (sftp_channel re w i m)}"
    "fst (snd (file_download re le w i p lp ov cd v s l m)) \<in> {m, snd (sftp_channel re w i m)}"
    by (cases r3; simp add: file_upload_def file_download_def 3 split: sum.split prod.split)+
qed

section \<open>Appending\<close>

lemma append_result:
  assumes open_file: "sf_open (re_sftp re) path s = Inr reads"
    and run: "sftp_file_write re h st path data True False mode s = (Inr out, s')"
  obtains o' where "write_staged (re_digest re) (re_sftp re) st path (take APPEND_READ_LIMIT (delivered reads) @ data)
      mode (Some (exec_hash re h)) s = (Inr o', s')" "out = to_file_outcome path o' mode None"
    "case sf_handle_len (re_sftp re) path s of None \<Rightarrow> True
      | Some n \<Rightarrow> n \<le> length (take APPEND_READ_LIMIT (delivered reads))"
proof -
  obtain d n trunc where rc: "read_capped (re_sftp re) path APPEND_READ_LIMIT s = Inr (d, n, trunc)" "n \<le> length d"
    using run by (auto simp: sftp_file_write_def ensure_parent_def split: sum.splits prod.splits if_splits)
  then have d: "d = take APPEND_READ_LIMIT (delivered reads)"
    "n = (case sf_handle_len (re_sftp re) path s of None \<Rightarrow> 0 | Some n \<Rightarrow> n)"
    using open_file read_limited_prefix by (auto simp: read_capped_def Let_def split: sum.splits)
  then show ?thesis
    using run rc that
    by (auto simp: sftp_file_write_def ensure_parent_def split: sum.splits prod.splits option.splits if_splits)
qed

text \<open>
  C22: An append that the server can size is complete: when it succeeds, the outcome carries the
  digest of the old content followed by the new bytes, and if it is marked verified the remote
  file has that digest; only the staged file and the destination are touched.
\<close>

theorem append_complete:
  assumes "sftp_laws (re_sftp re) files" "hash_law (re_digest re) (Some (exec_hash re h)) files"
    and "sf_open (re_sftp re) path s = Inr reads"
    and "sf_handle_len (re_sftp re) path s = Some (length (delivered reads))"
    and "sftp_file_write re h st path data True False mode s = (Inr out, s')"
  shows "fo_sha256 out = Some (re_digest re (delivered reads @ data))
    \<and> fo_bytes out = length (delivered reads @ data)
    \<and> only files {staged_path st path, path} s s'
    \<and> (\<not> fo_verified out \<or> (\<exists>d. files s' path = Some d \<and> re_digest re d = re_digest re (delivered reads @ data)))"
proof -
  obtain o' where o': "write_staged (re_digest re) (re_sftp re) st path (take APPEND_READ_LIMIT (delivered reads) @ data)
      mode (Some (exec_hash re h)) s = (Inr o', s')" "out = to_file_outcome path o' mode None"
    "length (delivered reads) \<le> length (take APPEND_READ_LIMIT (delivered reads))"
    using append_result[OF assms(3,5)] assms(4) by auto
  then have "take APPEND_READ_LIMIT (delivered reads) = delivered reads" by simp
  with write_staged_outcome[OF assms(1,2) o'(1)] o'(2) show ?thesis
    by (auto simp: staged_outcome_def to_file_outcome_def)
qed

text \<open>A host in memory that serves files and has no shell.\<close>

definition mem_remote :: "(str \<Rightarrow> bytes option) remote" where
  "mem_remote = \<lparr>re_sftp = mem_sftp, re_open_sftp = (\<lambda>_. Inr ()),
     re_exec = (\<lambda>h c s. (Inl ''no shell'', s)), re_feed = (\<lambda>h c d s. (FedOpenFailed ''no shell'', s)),
     re_digest = id\<rparr>"

lemma mem_remote_hash: "exec_hash mem_remote h = (\<lambda>p s. None)"
  by (simp add: exec_hash_def remote_sha256_def exec_helper_def mem_remote_def fun_eq_iff)

lemma mem_staged:
  assumes "staged \<noteq> path"
  shows "finish_staged id mem_sftp staged path d None (Some (\<lambda>p s. None)) (files(staged := Some d, path := Some c)) =
    (Inr \<lparr>to_bytes = length d, to_sha256 = d, to_verified = False, to_changed = True\<rparr>,
     files(staged := None, path := Some d))"
  using assms
  by (auto simp: finish_staged_def mem_sftp_def confirm_def apply_mode_def promote_def try_stat_def fun_eq_iff)

lemma mem_write_staged:
  "write_staged id mem_sftp st path d None (Some (\<lambda>p s. None)) (files(path := Some c)) =
    (Inr \<lparr>to_bytes = length d, to_sha256 = d, to_verified = False, to_changed = True\<rparr>,
     files(staged_path st path := None, path := Some d))"
proof -
  note ne = staged_path_differs[of st path]
  have "(files(path := Some c, staged_path st path := Some d)) = files(staged_path st path := Some d, path := Some c)"
    using ne by (auto simp: fun_eq_iff)
  then have "write_staged id mem_sftp st path d None (Some (\<lambda>p s. None)) (files(path := Some c)) =
      finish_staged id mem_sftp (staged_path st path) path d None (Some (\<lambda>p s. None))
        (files(staged_path st path := Some d, path := Some c))"
    by (simp add: write_staged_def Let_def mem_sftp_def)
  then show ?thesis using mem_staged[OF ne] by simp
qed

theorem append_complete_witness:
  "\<exists>out s'. sftp_file_write mem_remote 0 (1, 2, 3) ''/f'' ''c'' True False None ((\<lambda>_. None)(''/f'' := Some ''ab'')) = (Inr out, s')
     \<and> fo_sha256 out = Some ''abc''"
proof -
  let ?s = "(\<lambda>_. None)(''/f'' := Some ''ab'')"
  have read: "read_capped mem_sftp ''/f'' APPEND_READ_LIMIT ?s = Inr (''ab'', 2, False)"
    by (simp add: read_capped_def mem_sftp_def APPEND_READ_LIMIT_def)
  obtain out s' where run: "sftp_file_write mem_remote 0 (1, 2, 3) ''/f'' ''c'' True False None ?s = (Inr out, s')"
    using mem_write_staged[of "(1, 2, 3)" "''/f''" "''abc''" "\<lambda>_. None" "''ab''"] read mem_remote_hash[of 0]
    by (simp add: sftp_file_write_def ensure_parent_def mem_remote_def)
  have "sf_open (re_sftp mem_remote) ''/f'' ?s = Inr [Inr ''ab'']"
    "sf_handle_len (re_sftp mem_remote) ''/f'' ?s = Some (length (delivered [Inr ''ab'']))"
    "sftp_laws (re_sftp mem_remote) (\<lambda>s. s)" "hash_law (re_digest mem_remote) (Some (exec_hash mem_remote 0)) (\<lambda>s. s)"
    using mem_laws(1) mem_remote_hash[of 0] by (simp_all add: mem_remote_def mem_sftp_def hash_law_def)
  with append_complete[OF this(3,4,1,2) run] run show ?thesis by (auto simp: mem_remote_def)
qed

text \<open>
  When the server does not answer the size query of the open file, an append to a file longer
  than the limit of 8 MiB is reported as a success and cuts the file: what is beyond the limit
  is lost, because the size is then taken to be zero and the check for a file that is too long
  passes.
\<close>

theorem append_truncates:
  "let re = mem_remote\<lparr>re_sftp := mem_sftp\<lparr>sf_handle_len := (\<lambda>_ _. None)\<rparr>\<rparr>;
       old = replicate (Suc APPEND_READ_LIMIT) (CHR ''x'');
       result = sftp_file_write re 0 (1, 2, 3) ''/f'' ''y'' True False None ((\<lambda>_. None)(''/f'' := Some old))
   in \<not> isl (fst result) \<and> snd result ''/f'' = Some (replicate APPEND_READ_LIMIT (CHR ''x'') @ ''y'')"
proof -
  let ?sf = "mem_sftp\<lparr>sf_handle_len := (\<lambda>_ _. None)\<rparr>"
  let ?re = "mem_remote\<lparr>re_sftp := ?sf\<rparr>"
  let ?old = "replicate (Suc APPEND_READ_LIMIT) (CHR ''x'')" and ?kept = "replicate APPEND_READ_LIMIT (CHR ''x'')"
  let ?s = "(\<lambda>_. None)(''/f'' := Some ?old)"
  have pos: "APPEND_READ_LIMIT \<noteq> 0" by (simp add: APPEND_READ_LIMIT_def)
  have "read_capped ?sf ''/f'' APPEND_READ_LIMIT ?s = Inr (?kept, 0, False)"
    using pos take_replicate[of APPEND_READ_LIMIT "Suc APPEND_READ_LIMIT" "CHR ''x''"]
    by (simp add: read_capped_def mem_sftp_def)
  moreover have "exec_hash ?re 0 = (\<lambda>p s. None)" using mem_remote_hash[of 0]
    by (simp add: exec_hash_def remote_sha256_def exec_helper_def mem_remote_def)
  moreover have "write_staged id ?sf st p d None (Some (\<lambda>p s. None)) s =
      write_staged id mem_sftp st p d None (Some (\<lambda>p s. None)) s" for st p d s
    using staged_path_differs[of st p]
    by (cases "s p")
      (simp_all add: write_staged_def finish_staged_def confirm_def apply_mode_def promote_def try_stat_def Let_def mem_sftp_def)
  ultimately have "sftp_file_write ?re 0 (1, 2, 3) ''/f'' ''y'' True False None ?s =
      (case write_staged id mem_sftp (1, 2, 3) ''/f'' (?kept @ ''y'') None (Some (\<lambda>p s. None)) ?s of
         (Inl e, s2) \<Rightarrow> (Inl (classify_error e), s2)
       | (Inr out, s2) \<Rightarrow> (Inr (to_file_outcome ''/f'' out None None), s2))"
    by (simp add: sftp_file_write_def ensure_parent_def mem_remote_def)
  then show ?thesis
    using mem_write_staged[of "(1, 2, 3)" "''/f''" "?kept @ ''y''" "\<lambda>_. None" ?old] by (simp add: Let_def)
qed

section \<open>Privileged writes\<close>

text \<open>
  A privileged write compares the digest of the whole remote file with the digest of the bytes
  that were sent. So an append to a file that was not empty puts its bytes in place and is then
  reported as TRANSFER_VERIFY_FAILED, and so is every privileged write on a host without a
  hashing tool, where an unprivileged transfer is only marked as unverified.
\<close>

theorem sudo_write_reports_failure:
  assumes "re_feed re h (tee_command path append_mode) data s = (FedDone msgs, s')"
    and "co_exit (collect HELPER_OUTPUT_BYTES msgs) = Some 0"
    and "remote_sha256 re h path True s' = None
      \<or> (append_mode \<and> files s path = Some old \<and> files s' path = Some (old @ data)
         \<and> remote_sha256 re h path True s' = Some (re_digest re (old @ data))
         \<and> re_digest re (old @ data) \<noteq> re_digest re data)"
  shows "sudo_file_write re h path data append_mode False None s = (Inl (verify_failed path), s')"
  using assms by (auto simp: sudo_file_write_def sudo_parent_def sudo_write_def Let_def)

text \<open>A host whose shell appends and hashes one file; its digest is the length in unary.\<close>

definition unary_digest :: "bytes \<Rightarrow> str" where
  "unary_digest d = replicate (64 - min 64 (length d)) (CHR ''0'') @ replicate (min 64 (length d)) (CHR ''1'')"

definition shell_remote :: "(str \<Rightarrow> bytes option) remote" where
  "shell_remote = \<lparr>re_sftp = mem_sftp, re_open_sftp = (\<lambda>_. Inr ()),
     re_exec = (\<lambda>h c s. (Inr [MsgData (unary_digest (the (s ''/f''))), MsgExitStatus 0, MsgClose], s)),
     re_feed = (\<lambda>h c d s. (FedDone [MsgExitStatus 0, MsgClose], s(''/f'' := Some (the (s ''/f'') @ d)))),
     re_digest = unary_digest\<rparr>"

lemma unary_digest_text: "valid_utf8 (unary_digest ''abc'')" "split_whitespace (unary_digest ''abc'') = [unary_digest ''abc'']"
  "to_ascii_lowercase (unary_digest ''abc'') = unary_digest ''abc''" "length (unary_digest ''abc'') = 64"
  by code_simp+

theorem sudo_write_reports_failure_witness:
  "fst (sudo_file_write shell_remote 0 ''/f'' ''c'' True False None (\<lambda>_. Some ''ab'')) = Inl (verify_failed ''/f'')"
proof -
  let ?s' = "(\<lambda>_. Some ''ab'')(''/f'' := Some ''abc'')"
  have feed: "re_feed shell_remote 0 (tee_command ''/f'' True) ''c'' (\<lambda>_. Some ''ab'') = (FedDone [MsgExitStatus 0, MsgClose], ?s')"
    by (simp add: shell_remote_def)
  have zero: "co_exit (collect HELPER_OUTPUT_BYTES [MsgExitStatus 0, MsgClose]) = Some 0"
    by (simp add: collect_def collect_loop.simps collect_event_def)
  have "remote_sha256 shell_remote 0 ''/f'' True ?s' = Some (unary_digest ''abc'')"
    using unary_digest_text
    by (simp add: remote_sha256_def exec_helper_def shell_remote_def Let_def collect_def collect_loop.simps
        collect_event_def HELPER_OUTPUT_BYTES_def)
  moreover have "unary_digest ''abc'' \<noteq> unary_digest ''c''" by code_simp
  ultimately show ?thesis
    using sudo_write_reports_failure[OF feed zero, of "\<lambda>s. s" "''ab''"] by (simp add: shell_remote_def)
qed

section \<open>Downloads\<close>

text \<open>
  C23: A download never replaces a local file unless the caller asked for it, and it appears
  complete or not at all: after an error the destination is as before, after a success it holds
  exactly the bytes the remote file delivered, with their digest in the outcome.
\<close>

theorem file_download_safe:
  assumes laws: "local_laws (le_fs le) files" and dirs: "\<And>p l. files (snd (le_create_dirs le p l)) = files l"
    and seen: "\<And>p l. files l p \<noteq> None \<Longrightarrow> le_exists le p l"
    and path: "local_path_for (le_home le) local_path = Inr local" "local_staged_path (le_pid le) local \<noteq> local"
    and run: "file_download re le w i remote_path local_path overwrite create_dirs verify s l m = (r, m', l')"
  shows "only files {local_staged_path (le_pid le) local, local} l l'
    \<and> (case r of
         Inl e \<Rightarrow> files l' local = files l local
       | Inr out \<Rightarrow> (overwrite \<or> files l local = None)
           \<and> (\<exists>reads. sf_open (re_sftp re) remote_path s = Inr reads \<and> files l' local = Some (delivered reads)
                \<and> fo_sha256 out = Some (re_digest re (delivered reads)) \<and> fo_bytes out = length (delivered reads)))"
proof (cases "le_exists le local l \<and> \<not> overwrite")
  case True
  then show ?thesis using run path(1) by (auto simp: file_download_def)
next
  case False
  define l1 where "l1 = snd (case (if create_dirs then path_parent local else None) of
      None \<Rightarrow> (Inr (), l)
    | Some parent \<Rightarrow> if parent = [] then (Inr (), l)
        else (case le_create_dirs le parent l of (Inl e, l1) \<Rightarrow> (Inl (classify_error (local_error e parent)), l1)
              | (Inr _, l1) \<Rightarrow> (Inr (), l1)))"
  have same: "files l1 = files l"
    using dirs by (auto simp: l1_def split: option.split prod.split sum.split) (metis snd_conv)+
  consider (err) e where "r = Inl e" "l' = l1"
    | (dl) h r' where "download_staged (re_digest re) (re_sftp re) (le_fs le) (le_pid le) remote_path local
        (if verify then Some (exec_hash re h) else None) s l1 = (r', l')"
      "r = (case r' of Inl e \<Rightarrow> Inl (classify_error e) | Inr out \<Rightarrow> Inr (to_file_outcome remote_path out None (Some local)))"
    using run path(1) False by (auto simp: file_download_def l1_def split: option.splits if_splits prod.splits sum.splits)
  then show ?thesis
  proof cases
    case err
    then show ?thesis using same by (simp add: only_def)
  next
    case dl
    have "overwrite \<or> files l local = None" using False seen by blast
    then show ?thesis
      using download_staged_outcome[OF laws path(2) dl(1)] dl(2) same
      by (auto simp: only_def to_file_outcome_def split: sum.splits)
  qed
qed

definition mem_env :: "(str \<Rightarrow> bytes option) local_env" where
  "mem_env = \<lparr>le_fs = mem_local, le_exists = (\<lambda>p l. l p \<noteq> None), le_create_dirs = (\<lambda>p l. (Inr (), l)),
     le_open = (\<lambda>p l. Inr []), le_home = Inr ''/home/me'', le_pid = 7\<rparr>"

theorem file_download_safe_witness:
  "\<exists>out m' l'. file_download mem_remote mem_env (run_world ''x'') ''u'' ''/a'' ''/b'' False False False
       (\<lambda>p. if p = ''/a'' then Some ''hi'' else None) (\<lambda>_. None) run_ready = (Inr out, m', l')
     \<and> l' ''/b'' = Some ''hi''"
proof -
  let ?s = "\<lambda>p. if p = ''/a'' then Some ''hi'' else None"
  have path: "local_path_for (Inr ''/home/me'') ''/b'' = Inr ''/b''"
    by (simp add: local_path_for_def Let_def) code_simp
  have ne: "local_staged_path 7 ''/b'' \<noteq> ''/b''"
    by (simp add: local_staged_path_def path_file_name_def path_parent_def trim_end_matches_def ends_with_def
        slash_def Let_def from_utf8_lossy.simps bval_def show_nat_def show_base.simps)
  have conn: "sftp_channel mem_remote (run_world ''x'') ''u'' run_ready = (Inr 7, run_ready)"
    by (simp add: sftp_channel_def the_runtime_def run_ready_session connection_for_def mem_remote_def run_world_def)
  obtain out l' where dl: "download_staged id mem_sftp mem_local 7 ''/a'' ''/b'' None ?s (\<lambda>_. None) = (Inr out, l')"
    using ne by (auto simp: download_staged_def Let_def mem_sftp_def mem_local_def)
  have run: "file_download mem_remote mem_env (run_world ''x'') ''u'' ''/a'' ''/b'' False False False ?s (\<lambda>_. None) run_ready =
      (Inr (to_file_outcome ''/a'' out None (Some ''/b'')), run_ready, l')"
    using path conn dl by (simp add: file_download_def mem_env_def mem_remote_def)
  have "l' ''/b'' = Some ''hi''"
    using file_download_safe[of mem_env "\<lambda>l. l" "''/b''" "''/b''", OF _ _ _ _ _ run] mem_laws(3) path ne
    by (auto simp: mem_env_def mem_remote_def mem_sftp_def)
  then show ?thesis using run by blast
qed

section \<open>Paths in privileged commands\<close>

lemma show_base_plain: "2 \<le> b \<Longrightarrow> b \<le> 10 \<Longrightarrow> list_all plain (show_base b n) \<and> show_base b n \<noteq> []"
proof (induction b n rule: show_base.induct)
  case (1 b n)
  have digit: "plain (char_of (48 + k))" if "k < 10" for k :: nat
    using that by (simp add: plain_def is_ascii_digit_def bval_def)
  show ?case
  proof (cases "n < b")
    case True
    then show ?thesis using digit "1.prems" by (simp add: show_base.simps[of b n])
  next
    case False
    have "n mod b < b" using "1.prems" by simp
    then have "n mod b < 10" using "1.prems" by linarith
    then show ?thesis using False 1 digit by (simp add: show_base.simps[of b n])
  qed
qed

lemma sh_lex_number:
  assumes "2 \<le> b" "b \<le> 10"
  shows "sh_lex None False (show_base b n @ CHR '' '' # rest) = map_option ((#) (ShWord (show_base b n))) (sh_lex None False rest)"
  using sh_lex_word show_base_plain[OF assms] by blast

lemma sh_lex_last: "sh_lex None False (shell_quote v) = Some [ShWord v]"
  using sh_lex_shell_quote[of None v "[]"] by (simp add: flush_def so_far_def)

text \<open>
  A path reaches the privileged helper commands as one argument, whatever bytes it holds: the
  shell reads the command, its options, a double dash and then the path as it was given.
\<close>

theorem sudo_commands_quote:
  "sh_lex None False (size_command path) = Some (map ShWord [''sudo'', ''-n'', ''wc'', ''-c'', ''--'', path])
   \<and> sh_lex None False (head_command path n) =
     Some (map ShWord [''sudo'', ''-n'', ''head'', ''-c'', show_nat n, ''--'', path])
   \<and> sh_lex None False (mkdir_command path) = Some (map ShWord [''sudo'', ''-n'', ''mkdir'', ''-p'', ''--'', path])
   \<and> sh_lex None False (chmod_command path n) =
     Some (map ShWord [''sudo'', ''-n'', ''chmod'', show_base 8 n, ''--'', path])
   \<and> (\<exists>pre. tee_command path append_mode = pre @ '' > /dev/null'' \<and> sh_lex None False pre =
     Some (map ShWord ([''sudo'', ''-n'', ''tee''] @ (if append_mode then [''-a''] else []) @ [''--'', path])))"
proof -
  have "list_all plain ''sudo''" "list_all plain ''-n''" "list_all plain ''wc''" "list_all plain ''-c''" "list_all plain ''--''"
    "list_all plain ''head''" "list_all plain ''mkdir''" "list_all plain ''-p''" "list_all plain ''chmod''"
    "list_all plain ''tee''" "list_all plain ''-a''"
    by (simp_all add: sh_lex_simps)
  note word = this[THEN sh_lex_word[OF _ list.distinct(2)], simplified]
  let ?pre = "''sudo -n tee '' @ (if append_mode then ''-a '' else []) @ ''-- '' @ shell_quote path"
  have "sh_lex None False ?pre =
      Some (map ShWord ([''sudo'', ''-n'', ''tee''] @ (if append_mode then [''-a''] else []) @ [''--'', path]))"
    by (cases append_mode) (simp_all add: word sh_lex_last)
  moreover have "tee_command path append_mode = ?pre @ '' > /dev/null''" by (simp add: tee_command_def)
  ultimately have tee: "\<exists>pre. tee_command path append_mode = pre @ '' > /dev/null'' \<and> sh_lex None False pre =
      Some (map ShWord ([''sudo'', ''-n'', ''tee''] @ (if append_mode then [''-a''] else []) @ [''--'', path]))" by blast
  have "sh_lex None False (size_command path) = Some (map ShWord [''sudo'', ''-n'', ''wc'', ''-c'', ''--'', path])"
    "sh_lex None False (head_command path n) = Some (map ShWord [''sudo'', ''-n'', ''head'', ''-c'', show_nat n, ''--'', path])"
    "sh_lex None False (mkdir_command path) = Some (map ShWord [''sudo'', ''-n'', ''mkdir'', ''-p'', ''--'', path])"
    "sh_lex None False (chmod_command path n) = Some (map ShWord [''sudo'', ''-n'', ''chmod'', show_base 8 n, ''--'', path])"
    by (simp_all add: size_command_def head_command_def mkdir_command_def chmod_command_def word sh_lex_last
        sh_lex_number show_nat_def)
  then show ?thesis using tee by blast
qed

end
