(* ===== verification/Session_Store.thy ===== *)
theory Session_Store
  imports Session_Runs
begin

text \<open>
  What the session machine does to its database: every step of it, requests and tasks alike, is a
  sequence of calls of the methods of \<open>Storage\<close>, made as those methods ask for, so that what the
  store guarantees under every sequence of its calls holds for the machine.
\<close>

section \<open>Calls of the store\<close>

definition writes :: "bool \<Rightarrow> manager \<Rightarrow> manager \<Rightarrow> bool" where
  "writes sick m m' \<longleftrightarrow> (storage_step sick)\<^sup>*\<^sup>* (mg_storage m) (mg_storage m')"

lemma writes_refl [writes]: "mg_storage m' = mg_storage m \<Longrightarrow> writes sick m m'"
  by (simp add: writes_def)

lemma writes_trans: "writes sick m m1 \<Longrightarrow> writes sick m1 m2 \<Longrightarrow> writes sick m m2"
  unfolding writes_def by (rule rtranclp_trans)

lemma writes_step [writes]: "storage_step sick (mg_storage m) st \<Longrightarrow> mg_storage m' = st \<Longrightarrow> writes sick m m'"
  by (simp add: writes_def r_into_rtranclp)

lemma writes_upsert [writes]: "writes sick m (snd (upsert_info rt m))"
  by (rule writes_step[OF step_upsert]) (simp add: upsert_info_eq)

lemma writes_put [simp]:
  "writes sick m (put_runtime rt m') = writes sick m m'" "writes sick (put_runtime rt m) m' = writes sick m m'"
  "writes sick m (m'\<lparr>mg_cancelled := cs\<rparr>) = writes sick m m'" "writes sick (m\<lparr>mg_cancelled := cs\<rparr>) m' = writes sick m m'"
  by (simp_all add: writes_def)

lemma writes_discard [simp]: "writes sick m (discard_connection i m') = writes sick m m'"
  by (auto simp: discard_connection_def split: option.split)

lemma writes_connection [writes]: "writes sick m (snd (connection_for w rt m))"
proof -
  have "writes sick m (snd (connect_runtime w rt m))"
    by (auto simp: connect_runtime_def Let_def split: option.split sum.split prod.split intro: writes)
  then show ?thesis
    by (auto simp: connection_for_def split: option.split sum.split prod.split intro: writes)
qed

lemma writes_dial_end [writes]: "writes sick m (snd (dial_end w i t n m))"
  by (auto simp: dial_end_def Let_def split: option.split sum.split intro: writes)

lemma writes_close [writes]: "writes sick m (snd (close w i m))"
proof -
  have "writes sick m (snd (upsert_info rt (m\<lparr>mg_cancelled := cs\<rparr>)))" for rt cs
    using writes_upsert[of sick "m\<lparr>mg_cancelled := cs\<rparr>" rt] by simp
  then show ?thesis
    by (auto simp: close_def the_runtime_def Let_def case_prod_unfold split: option.split intro: writes)
qed

lemma writes_create_begin [writes]:
  assumes "create_begin w target_id purpose client m = (r, m')"
  shows "writes sick m m'"
proof -
  have up: "storage_step sick (mg_storage m) st" if "upsert_session info (mg_storage m) = (r1, st)" for info r1 st
    using step_upsert[of sick "mg_storage m" info] that by simp
  show ?thesis
    using assms
    by (auto simp: create_begin_def Let_def writes_def split: option.splits prod.splits sum.splits dest!: up)
qed

lemma writes_create_finish [writes]: "writes sick m (snd (create_finish w i t m))"
  by (auto simp: create_finish_def Let_def case_result_snd split: option.split sum.split intro: writes)

lemma writes_reap [writes]: "writes sick m (reap_idle w m)"
proof -
  let ?f = "\<lambda>i m'. case lookup m' i of None \<Rightarrow> m' | Some rt \<Rightarrow>
      if idle_since (w_clock w 1) (cf_idle_timeout_seconds (mg_config m)) rt then snd (close w i m') else m'"
  have "writes sick m1 (fold ?f is m1)" for "is" m1
  proof (induction "is" arbitrary: m1)
    case (Cons i "is")
    have "writes sick m1 (?f i m1)" by (auto split: option.split intro: writes)
    then show ?case using Cons.IH writes_trans by fastforce
  qed (simp add: writes)
  then show ?thesis
    unfolding reap_idle_def Let_def by (rule writes_trans[rotated]) (rule writes_step[OF step_cleanup], simp)
qed

lemma writes_register [writes]: "writes sick m (snd (register_exec w i c background d m))"
  by (auto simp: register_exec_def case_result_snd split: option.split intro: writes)

lemma writes_insert:
  assumes "insert_command (new_command w i text_of) (mg_storage m) = (r, st)"
  shows "writes sick m (m\<lparr>mg_storage := st\<rparr>)"
  using step_insert[of "new_command w i text_of" sick "mg_storage m"] assms
  by (intro writes_step) (simp_all add: new_command_def)

lemma writes_start_exec [writes]:
  assumes run: "start_exec w i text_of cwd env seconds background m = (r, m')"
  shows "writes sick m m'"
  using run
proof (cases rule: start_exec_cases)
  case (insert e rt m1 e')
  then show ?thesis
    using writes_trans[OF writes_connection writes_insert] by metis
next
  case (started rt m1 h st d)
  have "writes sick m m1" using writes_connection[of sick m w rt] started(3) by simp
  moreover have "writes sick m1 (m1\<lparr>mg_storage := st\<rparr>)" by (rule writes_insert) (rule started(4))
  moreover have "writes sick (m1\<lparr>mg_storage := st\<rparr>) m'"
    using writes_register[of sick "m1\<lparr>mg_storage := st\<rparr>" w i "new_command w i text_of" background d] started(5) by simp
  ultimately show ?thesis by (blast intro: writes_trans)
qed (simp_all add: writes)

lemma writes_shell_open [writes]:
  assumes "shell_open w i cols rows term_name m = (r, m')"
  shows "writes sick m m'"
proof -
  have "writes sick m (snd (shell_open w i cols rows term_name m))"
  proof (cases "lookup m i")
    case (Some rt)
    obtain r1 m1 where conn: "connection_for w rt m = (r1, m1)" by fastforce
    then have "writes sick m m1" using writes_connection[of sick m w rt] by simp
    then have "writes sick m (snd (upsert_info q m1))" "writes sick m m1" for q
      using writes_upsert writes_trans by blast+
    then show ?thesis
      using Some conn
      by (auto simp: shell_open_def the_runtime_def Let_def case_result_snd split: sum.split option.split intro: writes)
  qed (simp add: shell_open_def the_runtime_def writes)
  then show ?thesis using assms by simp
qed

lemma writes_record:
  assumes "event_command_ok (recorded now c k d rt) (mg_storage m)"
    and "record_event now c k d rt (mg_storage m) = (rt', st')"
  shows "writes sick m ((put_runtime rt' m)\<lparr>mg_storage := st'\<rparr>)"
proof -
  obtain res e st1 where app: "append_event (recorded now c k d rt) (mg_storage m) = (res, e, st1)"
    by (cases "append_event (recorded now c k d rt) (mg_storage m)") auto
  have "st' = st1" by (cases rule: record_event_cases[OF assms(2) app]) simp_all
  then show ?thesis
    using step_append[OF assms(1), of sick] app by (intro writes_step) simp_all
qed

lemma writes_pty_data [writes]: "writes sick m (pty_data w i d m)"
  using writes_record[of _ None Pty d _ m]
  by (auto simp: pty_data_def event_command_ok_def recorded_def split: option.split prod.split intro: writes)

lemma writes_exec_event:
  assumes inv: "machine_inv sick (m, ts)" and task: "T_Exec i c x b \<in> set ts"
    and run: "exec_event w i c x ev m = (x', m')"
  shows "writes sick m m'"
proof (cases "lookup m i")
  case (Some rt)
  have ok: "event_command_ok (recorded n (Some (ci_id c)) k d rt) (mg_storage m)" for n k d
    by (rule task_event_ok[OF inv task Some])
  then have "writes sick m (case record_event n (Some (ci_id c)) k d rt (mg_storage m) of
      (rt', st') \<Rightarrow> (put_runtime rt' m)\<lparr>mg_storage := st'\<rparr>)" for n k d
    using writes_record[OF ok] by (auto split: prod.split)
  then show ?thesis
    using run Some by (auto simp: exec_event_def Let_def writes_refl split: channel_event.splits)
qed (use run in \<open>auto simp: exec_event_def Let_def writes_refl split: channel_event.splits\<close>)

lemma writes_exec_end [writes]: "writes sick m (run_exec_end w i c x b why m)"
proof (cases "lookup m i")
  case (Some rt)
  define m1 where "m1 = m\<lparr>mg_storage := snd (update_command (finished_command w c x why rt (mg_storage m)) (mg_storage m))\<rparr>"
  obtain rt' where rt': "run_exec_end w i c x b why m = put_runtime rt' m1 \<or> run_exec_end w i c x b why m = snd (upsert_info rt' m1)"
    using run_exec_end_runtime[OF Some m1_def] by blast
  have "writes sick m m1" unfolding m1_def by (rule writes_step[OF step_update]) simp
  then show ?thesis using rt' writes_trans[OF _ writes_upsert] by (auto simp: writes)
qed (simp add: run_exec_end_def writes)

lemma writes_pty_end [writes]: "writes sick m (run_pty_end w i p m)"
  by (auto simp: run_pty_end_def Let_def split: option.split intro: writes)

lemma writes_shell_write [writes]: "writes sick m (snd (shell_write w i d m))"
  by (auto simp: shell_write_def the_runtime_def split: option.split foreground.split sum.split intro: writes)

lemma writes_shell_close [writes]: "writes sick m (snd (shell_close w i m))"
  by (auto simp: shell_close_def the_runtime_def split: option.split intro: writes)

lemma writes_fault [writes]: "writes True m (m\<lparr>mg_storage := (mg_storage m)\<lparr>st_fault := f\<rparr>\<rparr>)"
  by (rule writes_step[OF step_fault]) simp_all

section \<open>The machine refines the store\<close>

lemma mg_step_writes:
  assumes "mg_step sick s s'" "machine_inv sick s"
  shows "(storage_step sick)\<^sup>*\<^sup>* (mg_storage (fst s)) (mg_storage (fst s'))"
proof -
  obtain m ts where s: "s = (m, ts)" by fastforce
  have "writes sick m (fst s')"
    using assms unfolding s
    by (elim mg_stepE)
      (auto intro: writes writes_exec_event simp: command_cancel_def reload_config_def split: sum.split)
  then show ?thesis by (simp add: s writes_def)
qed

interpretation msim: step_simulation "fresh_machine sick" "mg_step sick" "machine_inv sick"
  "\<lambda>s. mg_storage (fst s)" "storage_step sick" for sick
  by unfold_locales (rule mg_step_writes)

text \<open>
  C38: The session manager uses its database as the store asks to be used: whatever requests,
  tasks and faults of the database come in whatever order, what happens to the tables is a
  sequence of calls of the store's methods, in which a new command has no output yet and an event
  names a command of its own session. What the store guarantees under every such sequence therefore holds
  in every state of the machine; in particular, as long as no statement was refused, the byte
  columns of sessions and commands are exactly the payloads recorded for them.
\<close>

theorem machine_refines_store:
  assumes "fresh_machine sick s" "(mg_step sick)\<^sup>*\<^sup>* s (m, ts)"
  shows "(storage_step sick)\<^sup>*\<^sup>* (mg_storage (fst s)) (mg_storage m)
    \<and> (if \<not> sick \<and> st_exact (mg_storage (fst s)) then st_exact (mg_storage m) else True)"
proof -
  have run: "(storage_step sick)\<^sup>*\<^sup>* (mg_storage (fst s)) (mg_storage m)"
    using msim.reachable_simulates[OF assms] by simp
  have "store_ok False (mg_storage (fst s))" if "\<not> sick" "st_exact (mg_storage (fst s))"
    using that assms(1) by (auto simp: fresh_machine_def new_manager_def store_ok_def)
  then show ?thesis
    using run store.run_inv[of False] by (auto simp: store_ok_def)
qed

theorem machine_refines_store_witness: "st_exact (mg_storage run_busy)"
proof -
  have "st_exact (mg_storage run_manager)"
    using st_exact_open[of 1] by (simp add: run_manager_def new_manager_def)
  then show ?thesis using machine_refines_store[OF run_fresh[of False] run_to_busy] by simp
qed

end
