(* ===== verification/Daemon.thy ===== *)
theory Daemon
  imports Session_Files Session_Store
begin

text \<open>
  The daemon (\<open>apps/daemon/src/main.rs\<close>) and its endpoint (\<open>crates/ipc/src/unix.rs\<close>). A client
  connection is a byte stream of request frames; \<open>dispatch\<close> is the match of \<open>serve_client\<close>, one
  equation per request. What may happen during one request is a record \<open>moment\<close>: the worlds of
  its calls and, for a blocking read, the rounds it goes through; an answer that is still
  awaited is \<open>None\<close>. The requests are shown to be runs of the session machine.
\<close>

section \<open>The endpoint\<close>

text \<open>
  What the platform answers while binding: whether the socket file exists, how connecting to it
  ends, and whether it can be removed and bound.
\<close>

record socket_answers =
  sa_exists :: bool
  sa_connect :: "io_error + unit"
  sa_remove :: "io_error + unit"
  sa_bind :: "io_error + unit"

datatype socket_call = SockConnect | SockRemove | SockBind

definition bind :: "str \<Rightarrow> socket_answers \<Rightarrow> (io_error + unit) \<times> socket_call list" where
  "bind endpoint_path a =
     (let bound = (\<lambda>calls. case sa_bind a of
            Inl e \<Rightarrow> (Inl (io_err (io_kind e) (''cannot bind daemon socket '' @ endpoint_path @ '': '' @ io_message e)),
                      calls @ [SockBind])
          | Inr _ \<Rightarrow> (Inr (), calls @ [SockBind]))
      in if sa_exists a
         then (case sa_connect a of
                 Inr _ \<Rightarrow> (Inl (io_err AddrInUse (''aisshd is already running at '' @ endpoint_path)), [SockConnect])
               | Inl e \<Rightarrow>
                   if io_kind e \<in> {ConnectionRefused, NotFound}
                   then (case sa_remove a of
                           Inl e' \<Rightarrow> (Inl (io_err (io_kind e')
                              (''cannot remove stale socket '' @ endpoint_path @ '': '' @ io_message e')),
                              [SockConnect, SockRemove])
                         | Inr _ \<Rightarrow> bound [SockConnect, SockRemove])
                   else (Inl (io_err (io_kind e)
                           (''cannot inspect existing socket '' @ endpoint_path @ '': '' @ io_message e)), [SockConnect]))
         else bound [])"

definition same_user :: "nat \<Rightarrow> io_error + nat \<Rightarrow> io_error + bool" where
  "same_user euid peer_uid = map_sum id (\<lambda>u. u = euid) peer_uid"

text \<open>An accepted connection is served only when its peer is known to be the same user.\<close>

definition admit :: "nat \<Rightarrow> io_error + nat \<Rightarrow> bool" where
  "admit euid peer_uid = (case same_user euid peer_uid of Inr True \<Rightarrow> True | _ \<Rightarrow> False)"

section \<open>Starting\<close>

text \<open>
  The state the daemon starts from, after it has read its configuration and bound its endpoint:
  the tables of the database, sessions left open marked interrupted and old ones removed. The
  first argument says which statements the engine refuses.
\<close>

definition start_manager :: "sql_faults \<Rightarrow> config \<Rightarrow> paths \<Rightarrow> session_row list \<Rightarrow> command_row list \<Rightarrow> event_row list
    \<Rightarrow> time \<Rightarrow> time \<Rightarrow> storage_error + manager" where
  "start_manager f c ps ss cs es now now' =
     (case interrupt_unfinished now ((open_storage ss cs es (cf_recording_limit_mib c))\<lparr>st_fault := f\<rparr>) of
        (Inl e, st) \<Rightarrow> Inl e
      | (Inr _, st) \<Rightarrow>
        (case cleanup now' (cf_retention_days c) st of
           (Inl e, st') \<Rightarrow> Inl e
         | (Inr _, st') \<Rightarrow> Inr (new_manager c ps st')))"

section \<open>Requests\<close>

record ('s, 'l) platform =
  pl_remote :: "'s remote"
  pl_local :: "'l local_env"
  pl_version :: str
  pl_display :: "config_error \<Rightarrow> str"

record moment =
  mo_world :: world
  mo_world2 :: world
  mo_rounds :: "poll_round list"
  mo_stamp :: stamp
  mo_loaded :: "config_error + config"

record ('s, 'l) host =
  ho_manager :: manager
  ho_tasks :: "task list"
  ho_remote :: 's
  ho_local :: 'l

definition create_request :: "world \<Rightarrow> world \<Rightarrow> str \<Rightarrow> str \<Rightarrow> str \<Rightarrow> manager \<Rightarrow> session_info api_result \<times> manager" where
  "create_request w w2 target_id purpose client_name m =
     (case create_begin w target_id purpose client_name m of
        (Inl e, m1) \<Rightarrow> (Inl e, m1)
      | (Inr (info, t), m1) \<Rightarrow> create_finish w2 (si_id info) t m1)"

definition exec_request :: "world \<Rightarrow> str \<Rightarrow> str \<Rightarrow> str option \<Rightarrow> env_map \<Rightarrow> nat option \<Rightarrow> bool
    \<Rightarrow> machine \<Rightarrow> command_info api_result \<times> machine" where
  "exec_request w i command_text cwd env timeout_seconds background s =
     (case start_exec w i command_text cwd env timeout_seconds background (fst s) of
        (Inl e, m') \<Rightarrow> (Inl e, (m', snd s))
      | (Inr (c, deadline), m') \<Rightarrow> (Inr c, (m', T_Exec i c None background # snd s)))"

definition shell_request :: "world \<Rightarrow> str \<Rightarrow> nat \<Rightarrow> nat \<Rightarrow> str \<Rightarrow> machine \<Rightarrow> session_info api_result \<times> machine" where
  "shell_request w i cols rows term_name s =
     (case shell_open w i cols rows term_name (fst s) of
        (Inl e, m') \<Rightarrow> (Inl e, (m', snd s))
      | (Inr info, m') \<Rightarrow> (Inr info, (m', T_Pty i (w_uuid w) # snd s)))"

definition events_receiver :: "str \<Rightarrow> manager \<Rightarrow> bool" where
  "events_receiver command_id m \<longleftrightarrow>
     (case command command_id (mg_storage m) of
        Inr (Some c) \<Rightarrow> lookup m (ci_session_id c) \<noteq> None
      | _ \<Rightarrow> False)"

definition poll_request :: "world \<Rightarrow> poll_round list \<Rightarrow> str \<Rightarrow> nat \<Rightarrow> nat \<Rightarrow> nat \<Rightarrow> manager
    \<Rightarrow> response_data api_result option" where
  "poll_request w rounds command_id after max_bytes wait_seconds m =
     map_option (map_sum id (\<lambda>p. events_response (Some (pp_command p)) [] (pp_events p) after (pp_more p)
         (pp_warnings p) (pp_progress p)))
       (command_poll (w_debug w) (events_receiver command_id m) (w_clock w 0) (poll_budget wait_seconds)
          command_id after (clamp max_bytes 1 MAX_READ_BYTES) rounds)"

definition read_request :: "world \<Rightarrow> poll_round list \<Rightarrow> str \<Rightarrow> nat \<Rightarrow> nat \<Rightarrow> nat \<Rightarrow> manager
    \<Rightarrow> response_data api_result option" where
  "read_request w rounds session_id after max_bytes wait_seconds m =
     map_option (map_sum id (\<lambda>p. events_response None (sp_commands p) (sp_events p) after (sp_more p) []
         (sp_progress p)))
       (shell_read (w_debug w) \<lparr>pr_lookup = lookup m, pr_storage = mg_storage m, pr_now = w_clock w 0,
            pr_changed = False\<rparr> session_id after max_bytes wait_seconds rounds)"

definition protocol_mismatch :: "nat \<Rightarrow> error_payload" where
  "protocol_mismatch v = new_error ''PROTOCOL_MISMATCH''
     (''daemon uses protocol '' @ show_nat PROTOCOL_VERSION @ '', client requested '' @ show_nat v)"

text \<open>The answer to a request, from the result of its call.\<close>

definition answer :: "('a \<Rightarrow> response_data) \<Rightarrow> 'a api_result \<Rightarrow> response_data api_result option" where
  "answer f r = Some (map_sum id f r)"

definition on_manager :: "('s, 'l) host \<Rightarrow> ('a \<Rightarrow> response_data) \<Rightarrow> 'a api_result \<times> manager
    \<Rightarrow> response_data api_result option \<times> ('s, 'l) host" where
  "on_manager h f p = (answer f (fst p), h\<lparr>ho_manager := snd p\<rparr>)"

definition on_machine :: "('s, 'l) host \<Rightarrow> ('a \<Rightarrow> response_data) \<Rightarrow> 'a api_result \<times> machine
    \<Rightarrow> response_data api_result option \<times> ('s, 'l) host" where
  "on_machine h f p = (answer f (fst p), h\<lparr>ho_manager := fst (snd p), ho_tasks := snd (snd p)\<rparr>)"

definition on_remote :: "('s, 'l) host \<Rightarrow> ('a \<Rightarrow> response_data) \<Rightarrow> 'a api_result \<times> manager \<times> 's
    \<Rightarrow> response_data api_result option \<times> ('s, 'l) host" where
  "on_remote h f p = (answer f (fst p), h\<lparr>ho_manager := fst (snd p), ho_remote := snd (snd p)\<rparr>)"

definition on_local :: "('s, 'l) host \<Rightarrow> ('a \<Rightarrow> response_data) \<Rightarrow> 'a api_result \<times> manager \<times> 'l
    \<Rightarrow> response_data api_result option \<times> ('s, 'l) host" where
  "on_local h f p = (answer f (fst p), h\<lparr>ho_manager := fst (snd p), ho_local := snd (snd p)\<rparr>)"

text \<open>The last arms of the match: moving files and reading the configuration again.\<close>

definition serve_file_write :: "('s, 'l) platform \<Rightarrow> moment \<Rightarrow> str \<Rightarrow> str \<Rightarrow> bytes \<Rightarrow> bool \<Rightarrow> bool \<Rightarrow> nat option
    \<Rightarrow> bool \<Rightarrow> bool \<Rightarrow> ('s, 'l) host \<Rightarrow> response_data api_result option \<times> ('s, 'l) host" where
  [simp]: "serve_file_write pl mo i p d append_mode create_dirs mode sudo if_changed h =
     on_remote h R_FileOutcome
       (file_write (pl_remote pl) (mo_world mo) (mo_world2 mo) (mo_stamp mo) i p d append_mode create_dirs mode
          sudo if_changed (ho_remote h) (ho_manager h))"

definition serve_file_upload :: "('s, 'l) platform \<Rightarrow> moment \<Rightarrow> str \<Rightarrow> str \<Rightarrow> str \<Rightarrow> bool \<Rightarrow> nat option
    \<Rightarrow> bool \<Rightarrow> ('s, 'l) host \<Rightarrow> response_data api_result option \<times> ('s, 'l) host" where
  [simp]: "serve_file_upload pl mo i lp p create_dirs mode verify h =
     on_remote h R_FileOutcome
       (file_upload (pl_remote pl) (pl_local pl) (mo_world mo) (mo_stamp mo) i lp p create_dirs mode verify
          (ho_remote h) (ho_local h) (ho_manager h))"

definition serve_file_download :: "('s, 'l) platform \<Rightarrow> moment \<Rightarrow> str \<Rightarrow> str \<Rightarrow> str \<Rightarrow> bool \<Rightarrow> bool
    \<Rightarrow> bool \<Rightarrow> ('s, 'l) host \<Rightarrow> response_data api_result option \<times> ('s, 'l) host" where
  [simp]: "serve_file_download pl mo i p lp overwrite create_dirs verify h =
     on_local h R_FileOutcome
       (file_download (pl_remote pl) (pl_local pl) (mo_world mo) i p lp overwrite create_dirs verify
          (ho_remote h) (ho_local h) (ho_manager h))"

definition serve_file_mkdir :: "('s, 'l) platform \<Rightarrow> moment \<Rightarrow> str \<Rightarrow> str \<Rightarrow> bool \<Rightarrow> nat option
    \<Rightarrow> ('s, 'l) host \<Rightarrow> response_data api_result option \<times> ('s, 'l) host" where
  [simp]: "serve_file_mkdir pl mo i p parents mode h =
     on_remote h (\<lambda>_. R_Ack) (file_mkdir (pl_remote pl) (mo_world mo) i p parents mode (ho_remote h) (ho_manager h))"

definition serve_reload_config :: "('s, 'l) platform \<Rightarrow> moment \<Rightarrow> ('s, 'l) host
    \<Rightarrow> response_data api_result option \<times> ('s, 'l) host" where
  [simp]: "serve_reload_config pl mo h =
     on_manager h (\<lambda>_. R_Ack) (reload_config (mo_loaded mo) (pl_display pl) (ho_manager h))"

fun dispatch :: "('s, 'l) platform \<Rightarrow> moment \<Rightarrow> str \<Rightarrow> request \<Rightarrow> ('s, 'l) host
    \<Rightarrow> response_data api_result option \<times> ('s, 'l) host" where
  "dispatch pl mo cn (Handshake v name) h =
     ((if v \<noteq> PROTOCOL_VERSION then Some (Inl (protocol_mismatch v))
       else Some (Inr (R_Handshake PROTOCOL_VERSION (pl_version pl)))), h)"
| "dispatch pl mo cn TargetsList h = (answer R_Targets (Inr (targets (ho_manager h))), h)"
| "dispatch pl mo cn (SessionsList include_history) h =
     (answer R_Sessions (list_sessions include_history (ho_manager h)), h)"
| "dispatch pl mo cn (SessionCreate target_id purpose) h =
     on_manager h R_Session (create_request (mo_world mo) (mo_world2 mo) target_id purpose cn (ho_manager h))"
| "dispatch pl mo cn (SessionStatus i) h =
     (answer R_Session (session_status_of (mo_world mo) i (ho_manager h)), h)"
| "dispatch pl mo cn (SessionClose i) h =
     on_manager h (\<lambda>_. R_Ack) (close (mo_world mo) i (ho_manager h))"
| "dispatch pl mo cn (ExecStart i c cwd env t) h =
     on_machine h R_Command (exec_request (mo_world mo) i c cwd env t False (ho_manager h, ho_tasks h))"
| "dispatch pl mo cn (ExecBackground i c cwd env t) h =
     on_machine h R_Command (exec_request (mo_world mo) i c cwd env t True (ho_manager h, ho_tasks h))"
| "dispatch pl mo cn (CommandPoll k after max_bytes wait_seconds) h =
     (poll_request (mo_world mo) (mo_rounds mo) k after max_bytes wait_seconds (ho_manager h), h)"
| "dispatch pl mo cn (CommandCancel k) h =
     on_manager h (\<lambda>_. R_Ack) (command_cancel (mo_world mo) k (ho_manager h))"
| "dispatch pl mo cn (CommandsList i include_finished limit) h =
     (answer R_Commands (list_all_commands (mo_world mo) i include_finished limit (ho_manager h)), h)"
| "dispatch pl mo cn (ShellOpen i cols rows term_name) h =
     on_machine h R_Session (shell_request (mo_world mo) i cols rows term_name (ho_manager h, ho_tasks h))"
| "dispatch pl mo cn (ShellWrite i d) h =
     on_manager h (\<lambda>_. R_Ack) (shell_write (mo_world mo) i d (ho_manager h))"
| "dispatch pl mo cn (ShellRead i after max_bytes wait_seconds) h =
     (read_request (mo_world mo) (mo_rounds mo) i after max_bytes wait_seconds (ho_manager h), h)"
| "dispatch pl mo cn (ShellResize i cols rows) h =
     (answer (\<lambda>_. R_Ack) (shell_resize (mo_world mo) i cols rows (ho_manager h)), h)"
| "dispatch pl mo cn (ShellClose i) h =
     on_manager h (\<lambda>_. R_Ack) (shell_close (mo_world mo) i (ho_manager h))"
| "dispatch pl mo cn (FileStat i p hash) h =
     on_manager h R_FileStat (file_stat (pl_remote pl) (mo_world mo) i p hash (ho_remote h) (ho_manager h))"
| "dispatch pl mo cn (FileRead i p max_bytes sudo) h =
     on_manager h R_FileContent
       (file_read (pl_remote pl) (mo_world mo) (mo_world2 mo) i p max_bytes sudo (ho_remote h) (ho_manager h))"
| "dispatch pl mo cn (FileWrite i p d append_mode create_dirs mode sudo if_changed) h =
     serve_file_write pl mo i p d append_mode create_dirs mode sudo if_changed h"
| "dispatch pl mo cn (FileUpload i lp p create_dirs mode verify) h =
     serve_file_upload pl mo i lp p create_dirs mode verify h"
| "dispatch pl mo cn (FileDownload i p lp overwrite create_dirs verify) h =
     serve_file_download pl mo i p lp overwrite create_dirs verify h"
| "dispatch pl mo cn (FileMkdir i p parents mode) h = serve_file_mkdir pl mo i p parents mode h"
| "dispatch pl mo cn ReloadConfig h = serve_reload_config pl mo h"
| "dispatch pl mo cn DaemonShutdown h = (answer (\<lambda>_. R_Ack) (Inr ()), h)"

text \<open>The name a client goes by: its last accepted handshake.\<close>

fun client_after :: "str \<Rightarrow> request \<Rightarrow> str" where
  "client_after cn (Handshake v name) = (if v \<noteq> PROTOCOL_VERSION then cn else name)"
| "client_after cn _ = cn"

section \<open>Serving a client\<close>

datatype served = Ended | Shutdown | Broken io_error | Waiting

text \<open>
  The loop of \<open>serve_client\<close>: the bytes still to be read, one moment per request, and the bytes
  written. It is \<open>Waiting\<close> when a blocking read has no answer yet or no moment is left.
\<close>

fun serve_client :: "('s, 'l) platform \<Rightarrow> (bytes \<Rightarrow> str + request_frame) \<Rightarrow> (response \<Rightarrow> str + bytes) \<Rightarrow> str
    \<Rightarrow> moment list \<Rightarrow> bytes \<Rightarrow> ('s, 'l) host \<Rightarrow> served \<times> bytes \<times> ('s, 'l) host" where
  "serve_client pl dec enc cn [] stream h = (Waiting, [], h)"
| "serve_client pl dec enc cn (mo # mos) stream h =
     (case read_frame dec stream of
        (Inl e, _) \<Rightarrow> (if io_kind e = UnexpectedEof then Ended else Broken e, [], h)
      | (Inr f, rest) \<Rightarrow>
        (case dispatch pl mo cn (rf_request f) h of
           (None, h1) \<Rightarrow> (Waiting, [], h1)
         | (Some result, h1) \<Rightarrow>
           (case write_frame enc \<lparr>re_request_id = rf_request_id f, re_result = result\<rparr> of
              Inl e \<Rightarrow> (Broken e, [], h1)
            | Inr out \<Rightarrow>
                if rf_request f = DaemonShutdown then (Shutdown, out, h1)
                else (case serve_client pl dec enc (client_after cn (rf_request f)) mos rest h1 of
                        (how, out', h2) \<Rightarrow> (how, out @ out', h2)))))"

section \<open>Requests are runs of the session machine\<close>

lemma steps_connection:
  assumes "core_inv m" "lookup m i = Some rt"
  shows "(mg_step sick)\<^sup>*\<^sup>* (m, ts) (snd (connection_for w rt m), ts)"
proof (cases "dial_begin w rt m")
  case (Inl e)
  then show ?thesis using dial_halves[OF assms, of w] by simp
next
  case (Inr r)
  show ?thesis
  proof (cases r)
    case (Inl h)
    then show ?thesis using dial_halves[OF assms, of w] Inr by simp
  next
    case (Inr tn)
    obtain t n where tn: "tn = (t, n)" by fastforce
    have begin_dial: "dial_begin w rt m = Inr (Inr (t, n))" using \<open>dial_begin w rt m = Inr r\<close> Inr tn by simp
    have 1: "mg_step sick (m, ts) (m, T_Dial i t n # ts)" by (rule ms_dial[OF assms(2) begin_dial])
    have "mg_step sick (m, T_Dial i t n # ts) (snd (dial_end w i t n m), remove1 (T_Dial i t n) (T_Dial i t n # ts))"
      by (rule ms_dialled) simp
    then have 2: "mg_step sick (m, T_Dial i t n # ts) (snd (dial_end w i t n m), ts)" by simp
    have "snd (connection_for w rt m) = snd (dial_end w i t n m)"
      using dial_halves[OF assms, of w] begin_dial by simp
    then show ?thesis using 1 2 by (simp add: converse_rtranclp_into_rtranclp r_into_rtranclp)
  qed
qed

lemma steps_connected:
  assumes "machine_inv sick (m, ts)"
  shows "(mg_step sick)\<^sup>*\<^sup>* (m, ts) (snd (connected w i m), ts)"
  using steps_connection[of m i] assms
  by (auto simp: connected_def the_runtime_def machine_inv_def split: option.split)

lemma steps_sftp_channel:
  assumes inv: "machine_inv sick (m, ts)"
  shows "(mg_step sick)\<^sup>*\<^sup>* (m, ts) (snd (sftp_channel re w i m), ts)"
proof (cases "lookup m i")
  case (Some rt)
  obtain r m1 where conn: "connection_for w rt m = (r, m1)" by fastforce
  have 1: "(mg_step sick)\<^sup>*\<^sup>* (m, ts) (m1, ts)"
    using steps_connection[OF _ Some, of sick ts w] inv conn by (simp add: machine_inv_def)
  moreover have "(mg_step sick)\<^sup>*\<^sup>* (m, ts) (discard_connection i m1, ts)"
    using 1 ms_discard[of sick m1 ts i] by (rule rtranclp.rtrancl_into_rtrancl)
  ultimately show ?thesis
    using Some conn by (auto simp: sftp_channel_def the_runtime_def split: sum.split)
qed (simp add: sftp_channel_def the_runtime_def)

lemma steps_two:
  assumes inv: "machine_inv sick (m, ts)" and
    m': "m' \<in> {snd (connected w i m), snd (sftp_channel re w2 i (snd (connected w i m)))}"
  shows "(mg_step sick)\<^sup>*\<^sup>* (m, ts) (m', ts)"
  using m' steps_connected[OF inv, of w i] steps_sftp_channel[OF machine_connected[OF inv, of w i], of re w2 i]
  by (auto intro: rtranclp_trans)

lemma steps_create:
  assumes "w_uuid w \<notin> rt_session_id ` set (mg_sessions m)" "w_uuid w \<notin> sr_id ` set (st_sessions (mg_storage m))"
  shows "(mg_step sick)\<^sup>*\<^sup>* (m, ts) (snd (create_request w w2 t p c m), ts)"
proof -
  obtain r m1 where run: "create_begin w t p c m = (r, m1)" by fastforce
  show ?thesis
  proof (cases r)
    case (Inl e)
    then show ?thesis using run ms_create_refused[of w t p c m e m1 sick ts] by (auto simp: create_request_def)
  next
    case (Inr it)
    obtain info g where it: "it = (info, g)" by fastforce
    have 1: "mg_step sick (m, ts) (m1, T_Create (si_id info) g # ts)"
      using ms_create[OF _ assms] run Inr it by blast
    have "mg_step sick (m1, T_Create (si_id info) g # ts)
        (snd (create_finish w2 (si_id info) g m1), remove1 (T_Create (si_id info) g) (T_Create (si_id info) g # ts))"
      by (rule ms_created) simp
    then show ?thesis
      using 1 run Inr it by (simp add: create_request_def converse_rtranclp_into_rtranclp r_into_rtranclp)
  qed
qed

lemma steps_exec:
  assumes "w_uuid w \<notin> set (exec_ids ts)"
  shows "(mg_step sick)\<^sup>*\<^sup>* (m, ts) (snd (exec_request w i c cwd env t b (m, ts)))"
proof -
  obtain r m1 where run: "start_exec w i c cwd env t b m = (r, m1)" by fastforce
  show ?thesis
    using run assms ms_exec[of w i c cwd env t b m] ms_exec_refused[of w i c cwd env t b m]
    by (cases r) (auto simp: exec_request_def)
qed

lemma steps_shell: "(mg_step sick)\<^sup>*\<^sup>* (m, ts) (snd (shell_request w i cols rows term_name (m, ts)))"
proof -
  obtain r m1 where run: "shell_open w i cols rows term_name m = (r, m1)" by fastforce
  show ?thesis
    using run ms_shell[of w i cols rows term_name m] ms_shell_refused[of w i cols rows term_name m]
    by (cases r) (auto simp: shell_request_def)
qed

definition fresh_moment :: "moment \<Rightarrow> ('s, 'l) host \<Rightarrow> bool" where
  "fresh_moment mo h \<longleftrightarrow> w_uuid (mo_world mo) \<notin> rt_session_id ` set (mg_sessions (ho_manager h))
     \<and> w_uuid (mo_world mo) \<notin> sr_id ` set (st_sessions (mg_storage (ho_manager h)))
     \<and> w_uuid (mo_world mo) \<notin> set (exec_ids (ho_tasks h))"

abbreviation host_machine :: "('s, 'l) host \<Rightarrow> machine" where
  "host_machine h \<equiv> (ho_manager h, ho_tasks h)"

lemma on_simps [simp]:
  "host_machine (snd (on_manager h f p)) = (snd p, ho_tasks h)"
  "host_machine (snd (on_machine h f q)) = snd q"
  "host_machine (snd (on_remote h f x)) = (fst (snd x), ho_tasks h)"
  "host_machine (snd (on_local h f y)) = (fst (snd y), ho_tasks h)"
  by (simp_all add: on_manager_def on_machine_def on_remote_def on_local_def)

lemma steps_dispatch:
  assumes inv: "machine_inv sick (host_machine h)" and fresh: "fresh_moment mo h"
  shows "(mg_step sick)\<^sup>*\<^sup>* (host_machine h) (host_machine (snd (dispatch pl mo cn req h)))"
proof -
  note channel = steps_sftp_channel[OF inv, of "pl_remote pl" "mo_world mo"]
  note two = steps_two[OF inv, of _ "mo_world mo" _ "pl_remote pl" "mo_world2 mo"]
  have one: "(mg_step sick)\<^sup>*\<^sup>* (host_machine h) (m', ho_tasks h)"
    if "m' \<in> {ho_manager h, snd (sftp_channel (pl_remote pl) (mo_world mo) i (ho_manager h))}" for m' i
    using that channel by auto
  show ?thesis
  proof (cases req)
    case (SessionCreate t p)
    then show ?thesis using steps_create fresh by (simp add: fresh_moment_def)
  next
    case (FileRead i p n sudo)
    then show ?thesis using two[OF file_managers(2)] by simp
  next
    case (FileWrite i p d am cd mode sudo ic)
    then show ?thesis using two[OF file_managers(3)] by simp
  next
    case (FileUpload i lp p cd mode v)
    then show ?thesis using one[OF file_managers(4)] by simp
  next
    case (FileDownload i p lp ov cd v)
    then show ?thesis using one[OF file_managers(5)] by simp
  next
    case (FileStat i p hash)
    then show ?thesis using channel by (simp add: file_managers(1))
  next
    case (FileMkdir i p ps mode)
    then show ?thesis using channel by (simp add: file_managers(6))
  qed (use fresh steps_exec steps_shell in \<open>auto simp: fresh_moment_def intro: ms_close ms_cancel ms_shell_write
      ms_shell_close ms_reload\<close>)
qed

text \<open>
  C5: Every request of a client is a run of the session machine: whatever it asks for and however
  its calls to the network end, the manager and the tasks it leaves are reached from those it
  found by steps of the machine, so that what the machine guarantees holds for the daemon. The
  identifiers drawn during the request are assumed to be new.
\<close>

theorem dispatch_refines_machine:
  assumes "machine_inv sick (ho_manager h, ho_tasks h)" "fresh_moment mo h"
    and "dispatch pl mo cn req h = (r, h')"
  shows "(mg_step sick)\<^sup>*\<^sup>* (ho_manager h, ho_tasks h) (ho_manager h', ho_tasks h')"
  using steps_dispatch[OF assms(1,2), of pl cn req] assms(3) by simp

definition run_host :: "(str \<Rightarrow> bytes option, str \<Rightarrow> bytes option) host" where
  "run_host = \<lparr>ho_manager = run_manager, ho_tasks = [], ho_remote = (\<lambda>_. None), ho_local = (\<lambda>_. None)\<rparr>"

definition run_platform :: "(str \<Rightarrow> bytes option, str \<Rightarrow> bytes option) platform" where
  "run_platform = \<lparr>pl_remote = mem_remote, pl_local = mem_env, pl_version = ''1'', pl_display = (\<lambda>_. [])\<rparr>"

definition run_moment :: moment where
  "run_moment = \<lparr>mo_world = run_world ''u'', mo_world2 = run_world ''u'', mo_rounds = [], mo_stamp = (1, 2, 3),
     mo_loaded = Inr (mg_config run_manager)\<rparr>"

lemma run_host_ok: "machine_inv sick (ho_manager run_host, ho_tasks run_host)" "fresh_moment run_moment run_host"
proof -
  show "machine_inv sick (ho_manager run_host, ho_tasks run_host)"
    using mach.initial_inv[OF run_fresh] by (simp add: run_host_def)
  show "fresh_moment run_moment run_host"
    by (simp add: fresh_moment_def run_host_def run_moment_def run_manager_def new_manager_def open_storage_def
        exec_ids_def map_filter_def)
qed

lemma run_create:
  "dispatch run_platform run_moment ''c'' (SessionCreate ''t'' ''p'') run_host =
     (fst (dispatch run_platform run_moment ''c'' (SessionCreate ''t'' ''p'') run_host), run_host\<lparr>ho_manager := run_ready\<rparr>)"
proof -
  have "si_id (new_info (run_world ''u'') run_target ''p'' ''c'') = ''u''" by (simp add: new_info_def run_world_def)
  then show ?thesis
    by (simp add: on_manager_def run_moment_def create_request_def run_host_def run_created_eq(1) run_ready_def)
qed

theorem dispatch_refines_machine_witness:
  "(mg_step False)\<^sup>*\<^sup>* (run_manager, []) (run_ready, [])"
  using dispatch_refines_machine[OF run_host_ok run_create] by (simp add: run_host_def)

section \<open>Answers in the order of the requests\<close>

context peers
begin

lemma serve_in_order:
  assumes sent: "list_all2 (\<lambda>f w. write_frame enc_request f = Inr w) fs ws"
    and served: "serve_client pl dec_request enc_response cn mos (concat ws) h = (Ended, out, h')"
  shows "\<exists>rs. read_frames dec_response (length fs) out = (rs, []) \<and> map re_request_id rs = map rf_request_id fs"
  using sent served
proof (induction fs ws arbitrary: cn mos h out rule: list_all2_induct)
  case Nil
  have "read_frame dec_request [] = (Inl (io_err UnexpectedEof ''early eof''), [])" by (simp add: read_frame_def)
  then show ?case using Nil by (cases mos) (auto simp: io_err_def)
next
  case (Cons f fs w ws)
  obtain mo mos' where mos: "mos = mo # mos'" using Cons.prems by (cases mos) auto
  have next_frame: "read_frame dec_request (concat (w # ws)) = (Inr f, concat ws)"
    using requests.read_back[OF Cons.hyps(1)] by simp
  obtain res h1 where disp: "dispatch pl mo cn (rf_request f) h = (res, h1)" by fastforce
  obtain result out1 out2 where step: "res = Some result" "out = out1 @ out2"
      "write_frame enc_response \<lparr>re_request_id = rf_request_id f, re_result = result\<rparr> = Inr out1"
      "serve_client pl dec_request enc_response (client_after cn (rf_request f)) mos' (concat ws) h1 = (Ended, out2, h')"
    using Cons.prems next_frame disp mos by (auto split: option.splits sum.splits if_splits prod.splits)
  obtain rs where rs: "read_frames dec_response (length fs) out2 = (rs, [])" "map re_request_id rs = map rf_request_id fs"
    using Cons.IH[OF step(4)] by blast
  have "read_frame dec_response (out1 @ out2) = (Inr \<lparr>re_request_id = rf_request_id f, re_result = result\<rparr>, out2)"
    using responses.read_back[OF step(3)] .
  then show ?case
    using rs step(2)
    by (intro exI[of _ "\<lparr>re_request_id = rf_request_id f, re_result = result\<rparr> # rs"]) simp
qed

end

text \<open>
  C9: A client that sends its requests one after the other and then closes reads back one answer
  per request, in the order of the requests, each with the identifier of its request and nothing
  behind the last, provided the two sides' codecs agree and the daemon served the connection to
  its end.
\<close>

theorem answers_in_order:
  assumes requests: "\<And>f body. enc_request f = Inr body \<Longrightarrow> dec body = Inr f"
    and responses: "\<And>x body. enc x = Inr body \<Longrightarrow> dec_response body = Inr x"
    and sent: "list_all2 (\<lambda>f w. write_frame enc_request f = Inr w) fs ws"
    and served: "serve_client pl dec enc cn mos (concat ws) h = (Ended, out, h')"
  shows "\<exists>rs. read_frames dec_response (length fs) out = (rs, []) \<and> map re_request_id rs = map rf_request_id fs"
  by (rule peers.serve_in_order[OF peersI[OF requests responses] sent served])

text \<open>A codec of its own: one byte per frame, enough for a client that lists its targets.\<close>

definition tiny_request :: "request_frame \<Rightarrow> str + bytes" where
  "tiny_request f = (if rf_request f = TargetsList \<and> rf_request_id f < 256 then Inr [char_of (rf_request_id f)] else Inl ''unknown'')"

definition tiny_response :: "response \<Rightarrow> str + bytes" where
  "tiny_response r = (if re_result r = Inr (R_Targets []) \<and> re_request_id r < 256 then Inr [char_of (re_request_id r)] else Inl ''unknown'')"

definition tiny_request_back :: "bytes \<Rightarrow> str + request_frame" where
  "tiny_request_back b = Inr \<lparr>rf_request_id = bval (hd b), rf_request = TargetsList\<rparr>"

definition tiny_response_back :: "bytes \<Rightarrow> str + response" where
  "tiny_response_back b = Inr \<lparr>re_request_id = bval (hd b), re_result = Inr (R_Targets [])\<rparr>"

interpretation tiny: peers tiny_request tiny_request_back tiny_response tiny_response_back
  by (rule peersI)
    (auto simp: tiny_request_def tiny_request_back_def tiny_response_def tiny_response_back_def bval_def
      split: if_splits intro: request_frame.equality response.equality)

definition no_targets_host :: "(str \<Rightarrow> bytes option, str \<Rightarrow> bytes option) host" where
  "no_targets_host = run_host\<lparr>ho_manager := run_manager\<lparr>mg_config := (mg_config run_manager)\<lparr>cf_targets := []\<rparr>\<rparr>\<rparr>"

theorem answers_in_order_witness:
  "\<exists>out rs. serve_client run_platform tiny_request_back tiny_response ''c'' [run_moment, run_moment]
       (concat [be32 1 @ [char_of (9::nat)]]) no_targets_host = (Ended, out, no_targets_host)
     \<and> read_frames tiny_response_back 1 out = (rs, []) \<and> map re_request_id rs = [9]"
proof -
  have sent: "list_all2 (\<lambda>f w. write_frame tiny_request f = Inr w)
      [\<lparr>rf_request_id = 9, rf_request = TargetsList\<rparr>] [be32 1 @ [char_of (9::nat)]]"
    by (simp add: write_frame_def tiny_request_def MAX_FRAME_BYTES_def)
  obtain out where run: "serve_client run_platform tiny_request_back tiny_response ''c'' [run_moment, run_moment]
      (concat [be32 1 @ [char_of (9::nat)]]) no_targets_host = (Ended, out, no_targets_host)"
    by (simp add: read_frame_def be32_def of_be32_def bval_def MAX_FRAME_BYTES_def answer_def targets_def
        tiny_request_back_def no_targets_host_def run_host_def write_frame_def tiny_response_def io_err_def)
  from answers_in_order[OF tiny.requests.decode tiny.responses.decode sent run] run show ?thesis by auto
qed

section \<open>The endpoint belongs to one daemon and one user\<close>

text \<open>
  A daemon that starts removes the socket of another only when nobody answers there: if a
  connection succeeds it gives up with \<open>AddrInUse\<close> and touches nothing, it removes the file only
  after the connection was refused or the file was gone, and it binds only an endpoint that did
  not exist or that it has removed. A connection is served only when the peer's user is known
  and is the daemon's.
\<close>

theorem endpoint_not_stolen:
  "case bind path a of (r, calls) \<Rightarrow>
     (if sa_exists a \<and> \<not> isl (sa_connect a) then (\<exists>e. r = Inl e \<and> io_kind e = AddrInUse) \<and> calls = [SockConnect]
      else if SockRemove \<in> set calls
      then \<exists>e. sa_exists a \<and> sa_connect a = Inl e \<and> io_kind e \<in> {ConnectionRefused, NotFound}
      else if SockBind \<in> set calls then \<not> sa_exists a else True)
   \<and> (r = Inr () \<longleftrightarrow> sa_bind a = Inr () \<and> (if sa_exists a then sa_remove a = Inr ()
        \<and> (\<exists>e. sa_connect a = Inl e \<and> io_kind e \<in> {ConnectionRefused, NotFound}) else True))
   \<and> (admit euid peer \<longleftrightarrow> peer = Inr euid)"
  by (cases "sa_connect a"; cases "sa_remove a"; cases "sa_bind a"; cases peer)
    (auto simp: bind_def Let_def io_err_def admit_def same_user_def split: bool.splits)

section \<open>The daemon as a whole\<close>

text \<open>The requests of its clients, and the steps of its tasks and of the reaper, in any order.\<close>

inductive daemon_step :: "('s, 'l) platform \<Rightarrow> bool \<Rightarrow> ('s, 'l) host \<Rightarrow> ('s, 'l) host \<Rightarrow> bool" for pl sick where
  ds_request: "fresh_moment mo h \<Longrightarrow> dispatch pl mo cn req h = (r, h') \<Longrightarrow> daemon_step pl sick h h'"
| ds_task: "mg_step sick (host_machine h) (m', ts') \<Longrightarrow> daemon_step pl sick h (h\<lparr>ho_manager := m', ho_tasks := ts'\<rparr>)"

lemma daemon_step_machine:
  assumes "daemon_step pl sick h h'" "machine_inv sick (host_machine h)"
  shows "(mg_step sick)\<^sup>*\<^sup>* (host_machine h) (host_machine h')"
  using assms(1)
proof cases
  case (ds_request mo cn req r)
  then show ?thesis using steps_dispatch[OF assms(2), of mo pl cn req] by simp
next
  case (ds_task m' ts')
  then show ?thesis by auto
qed

definition host_inv :: "bool \<Rightarrow> ('s, 'l) host \<Rightarrow> bool" where
  "host_inv sick h \<longleftrightarrow> machine_inv sick (host_machine h)"

interpretation dmn: step_invariant "host_inv sick" "daemon_step pl sick" "host_inv sick" for pl sick
  by unfold_locales (auto simp: host_inv_def intro: mach.run_inv dest!: daemon_step_machine)

text \<open>The daemon simulates the machine, and through it the store.\<close>

interpretation dsim: step_simulation "host_inv sick" "daemon_step pl sick" "host_inv sick" host_machine "mg_step sick"
  for pl sick
  by unfold_locales (auto simp: host_inv_def dest: daemon_step_machine)

lemma daemon_run_store:
  assumes "(daemon_step pl sick)\<^sup>*\<^sup>* h h'" "host_inv sick h"
  shows "(storage_step sick)\<^sup>*\<^sup>* (mg_storage (ho_manager h)) (mg_storage (ho_manager h'))"
  using msim.run_simulates[OF dsim.run_simulates[OF assms]] assms(2) by (simp add: host_inv_def)

lemma start_manager_fresh:
  assumes "start_manager f c ps ss cs es now now' = Inr m" "st_inv (open_storage ss cs es (cf_recording_limit_mib c))"
    and "sick \<or> f = no_faults"
  shows "fresh_machine sick (m, [])"
proof -
  let ?st = "(open_storage ss cs es (cf_recording_limit_mib c))\<lparr>st_fault := f\<rparr>"
  obtain st1 where 1: "interrupt_unfinished now ?st = (Inr (), st1)"
    using assms(1) by (auto simp: start_manager_def split: prod.splits sum.splits)
  obtain n st2 where 2: "cleanup now' (cf_retention_days c) st1 = (Inr n, st2)" "m = new_manager c ps st2"
    using assms(1) 1 by (auto simp: start_manager_def split: prod.splits sum.splits)
  have "st_inv st2"
    using st_inv_cleanup(1)[OF st_inv_interrupt_unfinished(1), of ?st now' "cf_retention_days c" now] assms(2) 1 2 by simp
  moreover have "st_fault st2 = f"
    using same_fault(1)[of now ?st] same_fault(6)[of now' "cf_retention_days c" st1] 1 2(1) by simp
  ultimately show ?thesis using 2 assms(3) by (auto simp: fresh_machine_def healthy_def)
qed

end
