(* ===== verification/Mcp_Json.thy ===== *)
theory Mcp_Json
  imports Storage "HOL-Library.List_Lexorder" "HOL-Library.Char_ord"
begin

text \<open>
  JSON values as the MCP server (\<open>apps/mcp-server/src/main.rs\<close>) handles them: \<open>serde_json\<close>'s
  \<open>Value\<close> with the accessors the server calls, objects as sorted maps, and the values that the
  derived serializers give to the protocol's records. The printers of JSON, the base64 codec,
  the format of a time and the debug form of a string are fields of the record \<open>mcp_env\<close>.
\<close>

section \<open>Values\<close>

text \<open>A number is a \<open>u64\<close>, a negative integer or a float, which is kept as its text.\<close>

datatype json =
    JNull
  | JBool bool
  | JNat nat
  | JNeg nat
  | JFloat str
  | JStr str
  | JArr "json list"
  | JObj "(str \<times> json) list"

type_synonym json_map = "(str \<times> json) list"

text \<open>\<open>serde_json::Map\<close> is a \<open>BTreeMap\<close>: the entries of an object, keys ascending.\<close>

fun map_insert :: "str \<Rightarrow> json \<Rightarrow> json_map \<Rightarrow> json_map" where
  "map_insert k v [] = [(k, v)]"
| "map_insert k v ((k', v') # m) =
     (if k = k' then (k, v) # m
      else if k < k' then (k, v) # (k', v') # m
      else (k', v') # map_insert k v m)"

definition map_remove :: "str \<Rightarrow> json_map \<Rightarrow> json_map" where
  "map_remove k m = filter (\<lambda>p. fst p \<noteq> k) m"

definition map_of_entries :: "(str \<times> json) list \<Rightarrow> json_map" where
  "map_of_entries kvs = fold (\<lambda>(k, v). map_insert k v) kvs []"

text \<open>The object a \<open>json!\<close> literal builds.\<close>

definition jobject :: "(str \<times> json) list \<Rightarrow> json" where
  "jobject kvs = JObj (map_of_entries kvs)"

text \<open>\<open>Value::get\<close> with a key, and the accessors.\<close>

fun get :: "json \<Rightarrow> str \<Rightarrow> json option" where
  "get (JObj m) k = map_of m k"
| "get _ k = None"

fun as_str :: "json \<Rightarrow> str option" where
  "as_str (JStr s) = Some s"
| "as_str _ = None"

fun as_u64 :: "json \<Rightarrow> nat option" where
  "as_u64 (JNat n) = Some n"
| "as_u64 _ = None"

fun as_bool :: "json \<Rightarrow> bool option" where
  "as_bool (JBool b) = Some b"
| "as_bool _ = None"

fun as_array :: "json \<Rightarrow> json list option" where
  "as_array (JArr xs) = Some xs"
| "as_array _ = None"

definition get_str :: "json \<Rightarrow> str \<Rightarrow> str option" where
  "get_str v k = Option.bind (get v k) as_str"

definition get_u64 :: "json \<Rightarrow> str \<Rightarrow> nat option" where
  "get_u64 v k = Option.bind (get v k) as_u64"

definition get_bool :: "json \<Rightarrow> str \<Rightarrow> bool option" where
  "get_bool v k = Option.bind (get v k) as_bool"

definition get_array :: "json \<Rightarrow> str \<Rightarrow> json list option" where
  "get_array v k = Option.bind (get v k) as_array"

definition unwrap_or :: "'a option \<Rightarrow> 'a \<Rightarrow> 'a" where
  "unwrap_or x d = (case x of Some v \<Rightarrow> v | None \<Rightarrow> d)"

text \<open>\<open>Result::and_then\<close>, which the \<open>?\<close> operator amounts to.\<close>

definition and_then :: "'e + 'a \<Rightarrow> ('a \<Rightarrow> 'e + 'b) \<Rightarrow> 'e + 'b" where
  "and_then r f = (case r of Inl e \<Rightarrow> Inl e | Inr x \<Rightarrow> f x)"

text \<open>\<open>Value::pointer\<close> along object keys (the server's pointers name no array index).\<close>

fun pointer :: "json \<Rightarrow> str list \<Rightarrow> json option" where
  "pointer v [] = Some v"
| "pointer v (k # ks) = Option.bind (get v k) (\<lambda>x. pointer x ks)"

definition jopt :: "('a \<Rightarrow> json) \<Rightarrow> 'a option \<Rightarrow> json" where
  "jopt f x = (case x of None \<Rightarrow> JNull | Some v \<Rightarrow> f v)"

section \<open>What the server takes from its libraries\<close>

record mcp_env =
  me_time :: "time \<Rightarrow> str"
  me_to_string :: "json \<Rightarrow> str"
  me_to_string_pretty :: "json \<Rightarrow> str"
  me_base64_encode :: "bytes \<Rightarrow> str"
  me_base64_decode :: "str \<Rightarrow> str + bytes"
  me_debug :: "str \<Rightarrow> str"
  me_version :: str

section \<open>The derived serializers of the protocol's records\<close>

fun file_kind_text :: "file_kind \<Rightarrow> str" where
  "file_kind_text File = ''file''"
| "file_kind_text Directory = ''directory''"
| "file_kind_text Symlink = ''symlink''"
| "file_kind_text OtherKind = ''other''"

definition target_value :: "target_summary \<Rightarrow> json" where
  "target_value t = jobject
     [(''id'', JStr (ts_id t)), (''name'', JStr (ts_name t)), (''host'', JStr (ts_host t)),
      (''port'', JNat (ts_port t)), (''username'', JStr (ts_username t)),
      (''host_verification'', JBool (ts_host_verification t))]"

definition session_value :: "mcp_env \<Rightarrow> session_info \<Rightarrow> json" where
  "session_value me s = jobject
     [(''id'', JStr (si_id s)), (''target_id'', JStr (si_target_id s)),
      (''target_name'', JStr (si_target_name s)), (''purpose'', JStr (si_purpose s)),
      (''client_name'', JStr (si_client_name s)),
      (''status'', JStr (session_status_text (si_status s))),
      (''current_command'', jopt JStr (si_current_command s)),
      (''last_exit_code'', jopt JNat (si_last_exit_code s)),
      (''recording_truncated'', JBool (si_recording_truncated s)),
      (''host_fingerprint'', jopt JStr (si_host_fingerprint s)),
      (''created_at'', JStr (me_time me (si_created_at s))),
      (''updated_at'', JStr (me_time me (si_updated_at s))),
      (''closed_at'', jopt (\<lambda>t. JStr (me_time me t)) (si_closed_at s))]"

definition command_value :: "mcp_env \<Rightarrow> command_info \<Rightarrow> json" where
  "command_value me c = jobject
     [(''id'', JStr (ci_id c)), (''session_id'', JStr (ci_session_id c)),
      (''command'', JStr (ci_command c)), (''status'', JStr (command_status_text (ci_status c))),
      (''exit_code'', jopt JNat (ci_exit_code c)),
      (''started_at'', JStr (me_time me (ci_started_at c))),
      (''finished_at'', jopt (\<lambda>t. JStr (me_time me t)) (ci_finished_at c)),
      (''last_sequence'', JNat (ci_last_sequence c)),
      (''recording_truncated'', JBool (ci_recording_truncated c)),
      (''output_bytes'', JNat (ci_output_bytes c))]"

definition summary_value :: "mcp_env \<Rightarrow> command_summary \<Rightarrow> json" where
  "summary_value me c = jobject
     [(''id'', JStr (cs_id c)), (''session_id'', JStr (cs_session_id c)),
      (''command_preview'', JStr (cs_command_preview c)),
      (''status'', JStr (command_status_text (cs_status c))),
      (''exit_code'', jopt JNat (cs_exit_code c)),
      (''started_at'', JStr (me_time me (cs_started_at c))),
      (''finished_at'', jopt (\<lambda>t. JStr (me_time me t)) (cs_finished_at c)),
      (''last_sequence'', JNat (cs_last_sequence c)), (''output_bytes'', JNat (cs_output_bytes c)),
      (''recording_truncated'', JBool (cs_recording_truncated c)),
      (''running_for_seconds'', jopt JNat (cs_running_for_seconds c)),
      (''seconds_since_last_output'', jopt JNat (cs_seconds_since_last_output c))]"

definition file_stat_json :: "mcp_env \<Rightarrow> file_stat_info \<Rightarrow> json" where
  "file_stat_json me f = jobject
     [(''path'', JStr (fs_path f)), (''kind'', JStr (file_kind_text (fs_kind f))),
      (''size'', JNat (fs_size f)), (''mode'', jopt JNat (fs_mode f)),
      (''uid'', jopt JNat (fs_uid f)), (''gid'', jopt JNat (fs_gid f)),
      (''user'', jopt JStr (fs_user f)), (''group'', jopt JStr (fs_group f)),
      (''modified_at'', jopt (\<lambda>t. JStr (me_time me t)) (fs_modified_at f)),
      (''sha256'', jopt JStr (fs_sha256 f))]"

definition file_outcome_json :: "file_outcome \<Rightarrow> json" where
  "file_outcome_json f = jobject
     [(''path'', JStr (fo_path f)), (''bytes'', JNat (fo_bytes f)),
      (''sha256'', jopt JStr (fo_sha256 f)), (''verified'', JBool (fo_verified f)),
      (''changed'', JBool (fo_changed f)), (''mode'', jopt JNat (fo_mode f)),
      (''local_path'', jopt JStr (fo_local_path f))]"

text \<open>
  Pre-existing simple responses are wrapped as \<open>{kind, data}\<close>, which is also how the
  serializer tags the variants of a response; the variant without content has no \<open>data\<close>.
\<close>

definition enveloped :: "str \<Rightarrow> json \<Rightarrow> json" where
  "enveloped kind d = jobject [(''kind'', JStr kind), (''data'', d)]"

section \<open>Lemmas\<close>

lemma map_of_map_insert [simp]: "map_of (map_insert k v m) = (map_of m)(k \<mapsto> v)"
  by (induction k v m rule: map_insert.induct) (auto simp: fun_eq_iff)

lemma map_of_map_remove [simp]: "map_of (map_remove k m) = (map_of m)(k := None)"
  by (induction m) (auto simp: map_remove_def fun_eq_iff)

lemma map_of_fold_insert:
  "map_of (fold (\<lambda>(k, v). map_insert k v) kvs m) = map_of m ++ map_of (rev kvs)"
  by (induction kvs arbitrary: m) (auto simp: map_add_assoc[symmetric] map_add_upd)

lemma get_jobject [simp]: "get (jobject kvs) k = map_of (rev kvs) k"
  by (simp add: jobject_def map_of_entries_def map_of_fold_insert)

lemma unwrap_or_simps [simp]: "unwrap_or (Some v) d = v" "unwrap_or None d = d"
  by (simp_all add: unwrap_or_def)

lemma and_then_simps [simp]: "and_then (Inl e) f = Inl e" "and_then (Inr x) f = f x"
  by (simp_all add: and_then_def)

lemma and_then_Inr_iff: "and_then r f = Inr y \<longleftrightarrow> (\<exists>x. r = Inr x \<and> f x = Inr y)"
  by (cases r) auto

lemmas get_defs = get_str_def get_u64_def get_bool_def get_array_def

text \<open>The keys of an object stay strictly ascending, so that it is a sorted map.\<close>

definition map_ok :: "json_map \<Rightarrow> bool" where
  "map_ok m \<longleftrightarrow> sorted_wrt (<) (map fst m)"

lemma fst_map_insert: "set (map fst (map_insert k v m)) = insert k (set (map fst m))"
  by (induction k v m rule: map_insert.induct) auto

lemma map_ok_insert: "map_ok m \<Longrightarrow> map_ok (map_insert k v m)"
proof (induction k v m rule: map_insert.induct)
  case (2 k v k' v' m)
  then show ?case
    using fst_map_insert[of k v m]
    by (auto simp: map_ok_def simp del: set_map)
qed (simp add: map_ok_def)

lemma map_ok_entries: "map_ok (map_of_entries kvs)"
proof -
  have "map_ok (fold (\<lambda>(k, v). map_insert k v) kvs m)" if "map_ok m" for m
    using that by (induction kvs arbitrary: m) (auto intro: map_ok_insert)
  then show ?thesis by (simp add: map_of_entries_def map_ok_def)
qed

end
