(* ===== verification/Mcp_Request.thy ===== *)
theory Mcp_Request
  imports Mcp_Json
begin

text \<open>
  The requests of the MCP server: how the arguments of a tool call become a request for the
  daemon, and the list of tools the server advertises. An error is the text of the
  \<open>anyhow\<close> error the code returns; with a context that is the text of the context.
\<close>

section \<open>Response shaping arguments\<close>

definition DEFAULT_POLL_WAIT_SECONDS :: nat where
  "DEFAULT_POLL_WAIT_SECONDS = 30"

datatype detail = Compact | Full

definition detail_parse :: "mcp_env \<Rightarrow> json \<Rightarrow> str + detail" where
  "detail_parse me args =
     (case get_str args ''detail'' of
        None \<Rightarrow> Inr Compact
      | Some v \<Rightarrow>
          if v = ''compact'' then Inr Compact
          else if v = ''full'' then Inr Full
          else Inl (''detail must be '' @ [CHR 0x22] @ ''compact'' @ [CHR 0x22] @ '' or '' @ [CHR 0x22] @ ''full''
                    @ [CHR 0x22] @ '', got '' @ me_debug me v))"

definition is_compact :: "detail \<Rightarrow> bool" where
  "is_compact d \<longleftrightarrow> d = Compact"

datatype encoding = EncText | EncBase64

definition encoding_parse :: "mcp_env \<Rightarrow> json \<Rightarrow> str + encoding" where
  "encoding_parse me args =
     (case get_str args ''encoding'' of
        None \<Rightarrow> Inr EncText
      | Some v \<Rightarrow>
          if v = ''text'' then Inr EncText
          else if v = ''base64'' then Inr EncBase64
          else Inl (''encoding must be '' @ [CHR 0x22] @ ''text'' @ [CHR 0x22] @ '' or '' @ [CHR 0x22] @ ''base64''
                    @ [CHR 0x22] @ '', got '' @ me_debug me v))"

record shaping =
  sh_detail :: detail
  sh_encoding :: encoding
  sh_after_sequence :: nat

definition shaping_parse :: "mcp_env \<Rightarrow> json \<Rightarrow> str + shaping" where
  "shaping_parse me args =
     and_then (detail_parse me args) (\<lambda>d.
     and_then (encoding_parse me args) (\<lambda>e.
       Inr \<lparr>sh_detail = d, sh_encoding = e, sh_after_sequence = unwrap_or (get_u64 args ''after_sequence'') 0\<rparr>))"

definition first_page :: "shaping \<Rightarrow> bool" where
  "first_page s \<longleftrightarrow> sh_after_sequence s = 0"

section \<open>Arguments\<close>

definition required_string :: "json \<Rightarrow> str \<Rightarrow> str + str" where
  "required_string args key =
     (case get_str args key of
        Some v \<Rightarrow> if v \<noteq> [] then Inr v else Inl (key @ '' must be a non-empty string'')
      | None \<Rightarrow> Inl (key @ '' must be a non-empty string''))"

definition optional_string :: "json \<Rightarrow> str \<Rightarrow> str + str option" where
  "optional_string args key =
     (case get args key of
        None \<Rightarrow> Inr None
      | Some JNull \<Rightarrow> Inr None
      | Some (JStr v) \<Rightarrow> Inr (Some v)
      | _ \<Rightarrow> Inl (key @ '' must be a string''))"

definition u32_arg :: "json \<Rightarrow> str \<Rightarrow> nat \<Rightarrow> nat" where
  "u32_arg args key d =
     (case get_u64 args key of Some v \<Rightarrow> if v < 2 ^ 32 then v else d | None \<Rightarrow> d)"

fun env_entries :: "json_map \<Rightarrow> str + env_map" where
  "env_entries [] = Inr []"
| "env_entries ((k, v) # m) =
     (case as_str v of
        None \<Rightarrow> Inl (''env.'' @ k @ '' must be a string'')
      | Some s \<Rightarrow> and_then (env_entries m) (\<lambda>rest. Inr ((k, s) # rest)))"

definition env_map_of :: "json \<Rightarrow> str + env_map" where
  "env_map_of args =
     (case get args ''env'' of
        None \<Rightarrow> Inr []
      | Some JNull \<Rightarrow> Inr []
      | Some (JObj m) \<Rightarrow> env_entries m
      | _ \<Rightarrow> Inl ''env must be an object'')"

definition after_arg :: "json \<Rightarrow> nat" where
  "after_arg args = unwrap_or (get_u64 args ''after_sequence'') 0"

definition max_arg :: "json \<Rightarrow> nat" where
  "max_arg args = unwrap_or (get_u64 args ''max_bytes'') 65536"

definition wait_arg :: "json \<Rightarrow> nat \<Rightarrow> nat" where
  "wait_arg args d = min (unwrap_or (get_u64 args ''wait_seconds'') d) MAX_WAIT_SECONDS"

text \<open>The largest mode is \<open>0o7777\<close>.\<close>

definition mode_arg :: "json \<Rightarrow> str + nat option" where
  "mode_arg args =
     (case get_u64 args ''mode'' of
        None \<Rightarrow> Inr None
      | Some v \<Rightarrow>
          if v < 2 ^ 32 \<and> v \<le> 4095 then Inr (Some v)
          else Inl ''mode must be an octal permission value up to 07777'')"

definition flag_arg :: "json \<Rightarrow> str \<Rightarrow> bool \<Rightarrow> bool" where
  "flag_arg args key d = unwrap_or (get_bool args key) d"

definition content_bytes :: "mcp_env \<Rightarrow> json \<Rightarrow> str + bytes" where
  "content_bytes me args =
     (case (get_str args ''content'', get_str args ''content_base64'') of
        (Some _, Some _) \<Rightarrow> Inl ''provide either content or content_base64, not both''
      | (Some t, None) \<Rightarrow> Inr t
      | (None, Some encoded) \<Rightarrow> map_err (\<lambda>_. ''content_base64 is not valid base64'') (me_base64_decode me encoded)
      | (None, None) \<Rightarrow> Inl ''content or content_base64 is required'')"

section \<open>Tool requests\<close>

definition exec_tool :: "(str \<Rightarrow> str \<Rightarrow> str option \<Rightarrow> env_map \<Rightarrow> nat option \<Rightarrow> request) \<Rightarrow> json \<Rightarrow> str + request" where
  "exec_tool f args =
     and_then (required_string args ''session_id'') (\<lambda>i.
     and_then (required_string args ''command'') (\<lambda>c.
     and_then (optional_string args ''cwd'') (\<lambda>cwd.
     and_then (env_map_of args) (\<lambda>env.
       Inr (f i c cwd env (get_u64 args ''timeout_seconds''))))))"

definition one_id :: "(str \<Rightarrow> request) \<Rightarrow> json \<Rightarrow> str \<Rightarrow> str + request" where
  "one_id f args key = and_then (required_string args key) (\<lambda>i. Inr (f i))"

definition two_ids :: "(str \<Rightarrow> str \<Rightarrow> str + request) \<Rightarrow> json \<Rightarrow> str \<Rightarrow> str \<Rightarrow> str + request" where
  "two_ids f args key key' =
     and_then (required_string args key) (\<lambda>i. and_then (required_string args key') (\<lambda>p. f i p))"

definition tool_request :: "mcp_env \<Rightarrow> str \<Rightarrow> json \<Rightarrow> str + request" where
  "tool_request me name args =
     (if name = ''ssh_targets_list'' then Inr TargetsList
      else if name = ''ssh_sessions_list'' then Inr (SessionsList (flag_arg args ''include_history'' False))
      else if name = ''ssh_session_create'' then
        two_ids (\<lambda>t p. Inr (SessionCreate t p)) args ''target_id'' ''purpose''
      else if name = ''ssh_session_status'' then one_id SessionStatus args ''session_id''
      else if name = ''ssh_session_close'' then one_id SessionClose args ''session_id''
      else if name = ''ssh_exec_start'' then exec_tool ExecStart args
      else if name = ''ssh_exec_background'' then exec_tool ExecBackground args
      else if name = ''ssh_command_poll'' then
        one_id (\<lambda>c. CommandPoll c (after_arg args) (max_arg args) (wait_arg args DEFAULT_POLL_WAIT_SECONDS))
          args ''command_id''
      else if name = ''ssh_command_cancel'' then one_id CommandCancel args ''command_id''
      else if name = ''ssh_commands_list'' then
        and_then (optional_string args ''session_id'') (\<lambda>i.
          Inr (CommandsList i (flag_arg args ''include_finished'' False)
                (clamp (unwrap_or (get_u64 args ''limit'') 50) 1 500)))
      else if name = ''ssh_shell_open'' then
        and_then (required_string args ''session_id'') (\<lambda>i.
        and_then (optional_string args ''term'') (\<lambda>t.
          Inr (ShellOpen i (u32_arg args ''cols'' 120) (u32_arg args ''rows'' 32) (unwrap_or t ''xterm-256color''))))
      else if name = ''ssh_shell_write'' then
        two_ids (\<lambda>i e. and_then (map_err (\<lambda>_. ''data_base64 is not valid base64'') (me_base64_decode me e))
          (\<lambda>d. Inr (ShellWrite i d))) args ''session_id'' ''data_base64''
      else if name = ''ssh_shell_read'' then
        one_id (\<lambda>i. ShellRead i (after_arg args) (max_arg args) (wait_arg args 0)) args ''session_id''
      else if name = ''ssh_shell_resize'' then
        one_id (\<lambda>i. ShellResize i (u32_arg args ''cols'' 120) (u32_arg args ''rows'' 32)) args ''session_id''
      else if name = ''ssh_shell_close'' then one_id ShellClose args ''session_id''
      else if name = ''ssh_file_stat'' then
        two_ids (\<lambda>i p. Inr (FileStat i p (flag_arg args ''hash'' False))) args ''session_id'' ''remote_path''
      else if name = ''ssh_file_read'' then
        two_ids (\<lambda>i p. Inr (FileRead i p (max_arg args) (flag_arg args ''sudo'' False)))
          args ''session_id'' ''remote_path''
      else if name = ''ssh_file_write'' then
        two_ids (\<lambda>i p.
          and_then (content_bytes me args) (\<lambda>d.
          and_then (mode_arg args) (\<lambda>mode.
            Inr (FileWrite i p d (flag_arg args ''append'' False) (flag_arg args ''create_dirs'' False) mode
                  (flag_arg args ''sudo'' False) (flag_arg args ''if_changed'' False)))))
          args ''session_id'' ''remote_path''
      else if name = ''ssh_file_upload'' then
        two_ids (\<lambda>i l.
          and_then (required_string args ''remote_path'') (\<lambda>p.
          and_then (mode_arg args) (\<lambda>mode.
            Inr (FileUpload i l p (flag_arg args ''create_dirs'' False) mode (flag_arg args ''verify'' True)))))
          args ''session_id'' ''local_path''
      else if name = ''ssh_file_download'' then
        two_ids (\<lambda>i p.
          and_then (required_string args ''local_path'') (\<lambda>l.
            Inr (FileDownload i p l (flag_arg args ''overwrite'' False) (flag_arg args ''create_dirs'' False)
                  (flag_arg args ''verify'' True))))
          args ''session_id'' ''remote_path''
      else if name = ''ssh_file_mkdir'' then
        two_ids (\<lambda>i p. and_then (mode_arg args) (\<lambda>mode.
            Inr (FileMkdir i p (flag_arg args ''parents'' True) mode))) args ''session_id'' ''remote_path''
      else Inl (''unknown tool '' @ me_debug me name))"

section \<open>The advertised tools\<close>

definition tool :: "str \<Rightarrow> str \<Rightarrow> json \<Rightarrow> json" where
  "tool name description input_schema =
     jobject [(''name'', JStr name), (''description'', JStr description), (''inputSchema'', input_schema)]"

definition schema_object :: "(str \<times> str) list \<Rightarrow> str list \<Rightarrow> json" where
  "schema_object properties required =
     jobject [(''type'', JStr ''object''),
       (''properties'', jobject (map (\<lambda>(name, kind). (name, jobject [(''type'', JStr kind)])) properties)),
       (''required'', JArr (map JStr required)), (''additionalProperties'', JBool False)]"

definition tools :: "json list" where
  "tools =
     [
      tool ''ssh_targets_list''
        ''List configured SSH targets. Credentials are never returned.''
        (jobject [(''type'', JStr ''object''), (''properties'', jobject []),
         (''additionalProperties'', JBool False)]),
      tool ''ssh_sessions_list''
        ''List daemon-owned SSH sessions; sessions survive this MCP process.''
        (jobject [(''type'', JStr ''object''),
         (''properties'', jobject [(''include_history'', jobject [(''type'', JStr ''boolean''),
         (''default'', JBool False)])]), (''additionalProperties'', JBool False)]),
      tool ''ssh_session_create''
        ''Create and authenticate a logical SSH session.''
        (schema_object [(''target_id'', ''string''), (''purpose'', ''string'')] [''target_id'',
         ''purpose'']),
      tool ''ssh_session_status''
        ''Get a session's state and active command.''
        (schema_object [(''session_id'', ''string'')] [''session_id'']),
      tool ''ssh_session_close''
        ''Close a session and its SSH connection.''
        (schema_object [(''session_id'', ''string'')] [''session_id'']),
      tool ''ssh_exec_start''
        ''Start a non-interactive command. Prefer this for ordinary commands. Use a PTY only for persistent cwd/env, prompts, or full-screen programs. Login credentials are never supplied to sudo or remote prompts. A dropped transport marks the command interrupted rather than failed, with a warning saying whether the remote process is known to have started.''
        (jobject [(''type'', JStr ''object''),
         (''properties'', jobject [(''session_id'', jobject [(''type'', JStr ''string'')]),
         (''command'', jobject [(''type'', JStr ''string'')]),
         (''cwd'', jobject [(''type'', JStr ''string'')]),
         (''env'', jobject [(''type'', JStr ''object''),
         (''additionalProperties'', jobject [(''type'', JStr ''string'')])]),
         (''timeout_seconds'', jobject [(''type'', JStr ''integer''), (''minimum'', JNat 1),
         (''maximum'', JNat 86400)])]), (''required'', JArr [JStr ''session_id'', JStr ''command'']),
         (''additionalProperties'', JBool False)]),
      tool ''ssh_exec_background''
        ''Start a non-interactive background command without occupying the session foreground. Returns a command_id for ssh_command_poll and ssh_command_cancel; the default timeout is 24 hours.''
        (jobject [(''type'', JStr ''object''),
         (''properties'', jobject [(''session_id'', jobject [(''type'', JStr ''string'')]),
         (''command'', jobject [(''type'', JStr ''string'')]),
         (''cwd'', jobject [(''type'', JStr ''string'')]),
         (''env'', jobject [(''type'', JStr ''object''),
         (''additionalProperties'', jobject [(''type'', JStr ''string'')])]),
         (''timeout_seconds'', jobject [(''type'', JStr ''integer''), (''minimum'', JNat 1),
         (''maximum'', JNat 86400)])]), (''required'', JArr [JStr ''session_id'', JStr ''command'']),
         (''additionalProperties'', JBool False)]),
      tool ''ssh_command_poll''
        ''Read command output starting after a session-scoped sequence number. Blocks up to wait_seconds for new output instead of returning an empty page, so a quiet build does not need a client-side sleep loop; progress.seconds_since_last_output and progress.timed_out tell you whether it is working or stalled. Continue until poll_complete is true. Responses report the three truncation levels separately in `truncation`.''
        (jobject [(''type'', JStr ''object''),
         (''properties'', jobject [(''command_id'', jobject [(''type'', JStr ''string'')]),
         (''after_sequence'', jobject [(''type'', JStr ''integer''), (''minimum'', JNat 0),
         (''default'', JNat 0)]), (''max_bytes'', jobject [(''type'', JStr ''integer''),
         (''minimum'', JNat 1), (''maximum'', JNat 1048576), (''default'', JNat 65536)]),
         (''wait_seconds'', jobject [(''type'', JStr ''integer''), (''minimum'', JNat 0),
         (''maximum'', JNat 300), (''default'', JNat 30)]),
         (''detail'', jobject [(''type'', JStr ''string''),
         (''enum'', JArr [JStr ''compact'', JStr ''full'']), (''default'', JStr ''compact'')])]),
         (''required'', JArr [JStr ''command_id'']), (''additionalProperties'', JBool False)]),
      tool ''ssh_command_cancel''
        ''Cancel a running exec command.''
        (schema_object [(''command_id'', ''string'')] [''command_id'']),
      tool ''ssh_commands_list''
        ''List commands across sessions, newest first, so concurrent long tasks are visible in one call. Defaults to running commands only. Pair with ssh_command_cancel.''
        (jobject [(''type'', JStr ''object''),
         (''properties'', jobject [(''session_id'', jobject [(''type'', JStr ''string'')]),
         (''include_finished'', jobject [(''type'', JStr ''boolean''), (''default'', JBool False)]),
         (''limit'', jobject [(''type'', JStr ''integer''), (''minimum'', JNat 1),
         (''maximum'', JNat 500), (''default'', JNat 50)])]), (''additionalProperties'', JBool False)]),
      tool ''ssh_shell_open''
        ''Open an interactive PTY only when exec cannot satisfy the task.''
        (jobject [(''type'', JStr ''object''),
         (''properties'', jobject [(''session_id'', jobject [(''type'', JStr ''string'')]),
         (''cols'', jobject [(''type'', JStr ''integer''), (''default'', JNat 120)]),
         (''rows'', jobject [(''type'', JStr ''integer''), (''default'', JNat 32)]),
         (''term'', jobject [(''type'', JStr ''string''), (''default'', JStr ''xterm-256color'')])]),
         (''required'', JArr [JStr ''session_id'']), (''additionalProperties'', JBool False)]),
      tool ''ssh_shell_write''
        ''Write base64-encoded bytes to an open PTY.''
        (schema_object [(''session_id'', ''string''), (''data_base64'', ''string'')] [''session_id'',
         ''data_base64'']),
      tool ''ssh_shell_read''
        ''Read raw ANSI PTY output after a sequence number, optionally blocking up to wait_seconds for it.''
        (jobject [(''type'', JStr ''object''),
         (''properties'', jobject [(''session_id'', jobject [(''type'', JStr ''string'')]),
         (''after_sequence'', jobject [(''type'', JStr ''integer''), (''minimum'', JNat 0),
         (''default'', JNat 0)]), (''max_bytes'', jobject [(''type'', JStr ''integer''),
         (''minimum'', JNat 1), (''maximum'', JNat 1048576), (''default'', JNat 65536)]),
         (''wait_seconds'', jobject [(''type'', JStr ''integer''), (''minimum'', JNat 0),
         (''maximum'', JNat 300), (''default'', JNat 0)]),
         (''detail'', jobject [(''type'', JStr ''string''),
         (''enum'', JArr [JStr ''compact'', JStr ''full'']), (''default'', JStr ''compact'')])]),
         (''required'', JArr [JStr ''session_id'']), (''additionalProperties'', JBool False)]),
      tool ''ssh_shell_resize''
        ''Resize the remote PTY. The observer window never resizes it.''
        (jobject [(''type'', JStr ''object''),
         (''properties'', jobject [(''session_id'', jobject [(''type'', JStr ''string'')]),
         (''cols'', jobject [(''type'', JStr ''integer'')]),
         (''rows'', jobject [(''type'', JStr ''integer'')])]),
         (''required'', JArr [JStr ''session_id'', JStr ''cols'', JStr ''rows'']),
         (''additionalProperties'', JBool False)]),
      tool ''ssh_shell_close''
        ''Close an open PTY without closing the SSH session.''
        (schema_object [(''session_id'', ''string'')] [''session_id'']),
      tool ''ssh_file_stat''
        ''Stat a remote path via SFTP. Follows symlinks. Set hash=true to also compute the remote SHA-256.''
        (jobject [(''type'', JStr ''object''),
         (''properties'', jobject [(''session_id'', jobject [(''type'', JStr ''string'')]),
         (''remote_path'', jobject [(''type'', JStr ''string'')]),
         (''hash'', jobject [(''type'', JStr ''boolean''), (''default'', JBool False)])]),
         (''required'', JArr [JStr ''session_id'', JStr ''remote_path'']),
         (''additionalProperties'', JBool False)]),
      tool ''ssh_file_read''
        ''Read a remote file with truncation and encoding handled for you: no shell quoting, and no base64 round trip unless you ask. Returns text when the bytes are UTF-8, otherwise base64. Use sudo=true for paths the login user cannot open, such as /var/lib/docker volumes.''
        (jobject [(''type'', JStr ''object''),
         (''properties'', jobject [(''session_id'', jobject [(''type'', JStr ''string'')]),
         (''remote_path'', jobject [(''type'', JStr ''string'')]),
         (''max_bytes'', jobject [(''type'', JStr ''integer''), (''minimum'', JNat 1),
         (''maximum'', JNat 1048576), (''default'', JNat 65536)]),
         (''encoding'', jobject [(''type'', JStr ''string''),
         (''enum'', JArr [JStr ''text'', JStr ''base64'']), (''default'', JStr ''text'')]),
         (''sudo'', jobject [(''type'', JStr ''boolean''), (''default'', JBool False)]),
         (''detail'', jobject [(''type'', JStr ''string''),
         (''enum'', JArr [JStr ''compact'', JStr ''full'']), (''default'', JStr ''compact'')])]),
         (''required'', JArr [JStr ''session_id'', JStr ''remote_path'']),
         (''additionalProperties'', JBool False)]),
      tool ''ssh_file_write''
        ''Write a remote file from content or content_base64. The bytes land at a staged path first and are moved into place only after a remote SHA-256 confirms them, so a partial or mangled write cannot appear at the destination. Set if_changed=true to skip an identical write, and sudo=true for root-owned paths.''
        (jobject [(''type'', JStr ''object''),
         (''properties'', jobject [(''session_id'', jobject [(''type'', JStr ''string'')]),
         (''remote_path'', jobject [(''type'', JStr ''string'')]),
         (''content'', jobject [(''type'', JStr ''string'')]),
         (''content_base64'', jobject [(''type'', JStr ''string'')]),
         (''append'', jobject [(''type'', JStr ''boolean''), (''default'', JBool False)]),
         (''create_dirs'', jobject [(''type'', JStr ''boolean''), (''default'', JBool False)]),
         (''mode'', jobject [(''type'', JStr ''integer''),
         (''description'', JStr ''octal permissions, e.g. 420 for 0644'')]),
         (''sudo'', jobject [(''type'', JStr ''boolean''), (''default'', JBool False)]),
         (''if_changed'', jobject [(''type'', JStr ''boolean''), (''default'', JBool False)])]),
         (''required'', JArr [JStr ''session_id'', JStr ''remote_path'']),
         (''additionalProperties'', JBool False)]),
      tool ''ssh_file_upload''
        ''Upload a local file over SFTP, verifying it against a remote SHA-256 before it replaces the destination. Use this instead of piping base64 through a heredoc. local_path must be absolute or start with ~, and refers to this machine.''
        (jobject [(''type'', JStr ''object''),
         (''properties'', jobject [(''session_id'', jobject [(''type'', JStr ''string'')]),
         (''local_path'', jobject [(''type'', JStr ''string'')]),
         (''remote_path'', jobject [(''type'', JStr ''string'')]),
         (''create_dirs'', jobject [(''type'', JStr ''boolean''), (''default'', JBool False)]),
         (''mode'', jobject [(''type'', JStr ''integer''),
         (''description'', JStr ''octal permissions, e.g. 420 for 0644'')]),
         (''verify'', jobject [(''type'', JStr ''boolean''), (''default'', JBool True)])]),
         (''required'', JArr [JStr ''session_id'', JStr ''local_path'', JStr ''remote_path'']),
         (''additionalProperties'', JBool False)]),
      tool ''ssh_file_download''
        ''Download a remote file over SFTP to an absolute local path, verified, staged, and renamed into place so a failure never leaves a partial file. Refuses to replace an existing path unless overwrite=true.''
        (jobject [(''type'', JStr ''object''),
         (''properties'', jobject [(''session_id'', jobject [(''type'', JStr ''string'')]),
         (''remote_path'', jobject [(''type'', JStr ''string'')]),
         (''local_path'', jobject [(''type'', JStr ''string'')]),
         (''overwrite'', jobject [(''type'', JStr ''boolean''), (''default'', JBool False)]),
         (''create_dirs'', jobject [(''type'', JStr ''boolean''), (''default'', JBool False)]),
         (''verify'', jobject [(''type'', JStr ''boolean''), (''default'', JBool True)])]),
         (''required'', JArr [JStr ''session_id'', JStr ''remote_path'', JStr ''local_path'']),
         (''additionalProperties'', JBool False)]),
      tool ''ssh_file_mkdir''
        ''Create a remote directory, optionally including missing parents.''
        (jobject [(''type'', JStr ''object''),
         (''properties'', jobject [(''session_id'', jobject [(''type'', JStr ''string'')]),
         (''remote_path'', jobject [(''type'', JStr ''string'')]),
         (''parents'', jobject [(''type'', JStr ''boolean''), (''default'', JBool True)]),
         (''mode'', jobject [(''type'', JStr ''integer''),
         (''description'', JStr ''octal permissions, e.g. 493 for 0755'')])]),
         (''required'', JArr [JStr ''session_id'', JStr ''remote_path'']),
         (''additionalProperties'', JBool False)])]"

section \<open>What a tool call can ask for\<close>

lemma required_string_Inr: "required_string args key = Inr v \<longleftrightarrow> get_str args key = Some v \<and> v \<noteq> []"
  by (auto simp: required_string_def split: option.splits)

lemma mode_arg_Inr: "mode_arg args = Inr mode \<Longrightarrow> (\<forall>v. mode = Some v \<longrightarrow> v \<le> 4095)"
  by (auto simp: mode_arg_def split: option.splits if_splits)

lemma u32_arg_bound: "d < 2 ^ 32 \<Longrightarrow> u32_arg args key d < 2 ^ 32"
  by (auto simp: u32_arg_def split: option.splits)

lemma wait_arg_bound: "wait_arg args d \<le> MAX_WAIT_SECONDS"
  by (simp add: wait_arg_def)

definition mode_ok :: "nat option \<Rightarrow> bool" where
  "mode_ok mode \<longleftrightarrow> (case mode of None \<Rightarrow> True | Some v \<Rightarrow> v \<le> 4095)"

text \<open>
  The requests a tool may make: the identifiers and paths they need are there, waits, sizes of
  a terminal, modes and limits are within the daemon's bounds, and none of the requests that
  manage the daemon itself.
\<close>

fun tool_may :: "request \<Rightarrow> bool" where
  "tool_may (Handshake v n) = False"
| "tool_may ReloadConfig = False"
| "tool_may DaemonShutdown = False"
| "tool_may TargetsList = True"
| "tool_may (SessionsList h) = True"
| "tool_may (SessionCreate t p) \<longleftrightarrow> t \<noteq> [] \<and> p \<noteq> []"
| "tool_may (SessionStatus i) \<longleftrightarrow> i \<noteq> []"
| "tool_may (SessionClose i) \<longleftrightarrow> i \<noteq> []"
| "tool_may (ExecStart i c cwd env t) \<longleftrightarrow> i \<noteq> [] \<and> c \<noteq> []"
| "tool_may (ExecBackground i c cwd env t) \<longleftrightarrow> i \<noteq> [] \<and> c \<noteq> []"
| "tool_may (CommandPoll c a m w) \<longleftrightarrow> c \<noteq> [] \<and> w \<le> MAX_WAIT_SECONDS"
| "tool_may (CommandCancel c) \<longleftrightarrow> c \<noteq> []"
| "tool_may (CommandsList i f l) \<longleftrightarrow> 1 \<le> l \<and> l \<le> 500"
| "tool_may (ShellOpen i c r t) \<longleftrightarrow> i \<noteq> [] \<and> c < 2 ^ 32 \<and> r < 2 ^ 32"
| "tool_may (ShellWrite i d) \<longleftrightarrow> i \<noteq> []"
| "tool_may (ShellRead i a m w) \<longleftrightarrow> i \<noteq> [] \<and> w \<le> MAX_WAIT_SECONDS"
| "tool_may (ShellResize i c r) \<longleftrightarrow> i \<noteq> [] \<and> c < 2 ^ 32 \<and> r < 2 ^ 32"
| "tool_may (ShellClose i) \<longleftrightarrow> i \<noteq> []"
| "tool_may (FileStat i p h) \<longleftrightarrow> i \<noteq> [] \<and> p \<noteq> []"
| "tool_may (FileRead i p m s) \<longleftrightarrow> i \<noteq> [] \<and> p \<noteq> []"
| "tool_may (FileWrite i p d a c mode s f) \<longleftrightarrow> i \<noteq> [] \<and> p \<noteq> [] \<and> mode_ok mode"
| "tool_may (FileUpload i l p c mode v) \<longleftrightarrow> i \<noteq> [] \<and> l \<noteq> [] \<and> p \<noteq> [] \<and> mode_ok mode"
| "tool_may (FileDownload i p l ow c v) \<longleftrightarrow> i \<noteq> [] \<and> p \<noteq> [] \<and> l \<noteq> []"
| "tool_may (FileMkdir i p ps mode) \<longleftrightarrow> i \<noteq> [] \<and> p \<noteq> [] \<and> mode_ok mode"

lemma mode_arg_ok: "mode_arg args = Inr mode \<Longrightarrow> mode_ok mode"
  using mode_arg_Inr by (auto simp: mode_ok_def split: option.splits)

text \<open>
  C14: Whatever arguments a client of the MCP server sends, the request that reaches the daemon
  is one of those a tool may make: it never shuts the daemon down, reloads its configuration or
  poses as a handshake, the strings it needs are not empty, the wait is within the cap, a mode
  has permission bits only, and terminal sizes and limits are in range.
\<close>

theorem tool_request_safe:
  assumes "tool_request me name args = Inr req"
  shows "tool_may req"
proof -
  have limits: "1 \<le> clamp (unwrap_or x 50) 1 (500::nat)" "clamp (unwrap_or x 50) 1 (500::nat) \<le> 500" for x
    using clamp_bounds[of 1 500 "unwrap_or x 50"] by simp_all
  note bounds = u32_arg_bound[of 120 args] u32_arg_bound[of 32 args] wait_arg_bound[of args]
  show ?thesis
    using assms limits bounds unfolding tool_request_def
    by (auto simp: one_id_def two_ids_def exec_tool_def and_then_Inr_iff required_string_Inr
        dest: mode_arg_ok split: if_splits)
qed

text \<open>An environment with the simplest codecs, for concrete calls.\<close>

definition plain_env :: mcp_env where
  "plain_env = \<lparr>me_time = show_nat, me_to_string = (\<lambda>_. ''{}''), me_to_string_pretty = (\<lambda>_. ''{}''),
     me_base64_encode = id, me_base64_decode = Inr, me_debug = id, me_version = ''1''\<rparr>"

theorem tool_request_safe_witness:
  "tool_may (FileMkdir ''s'' ''/p'' True (Some 493))"
proof -
  have "tool_request plain_env ''ssh_file_mkdir''
      (jobject [(''session_id'', JStr ''s''), (''remote_path'', JStr ''/p''), (''mode'', JNat 493)])
    = Inr (FileMkdir ''s'' ''/p'' True (Some 493))"
    by (simp add: tool_request_def two_ids_def required_string_def get_defs mode_arg_def flag_arg_def)
  then show ?thesis by (rule tool_request_safe)
qed

lemma tool_names:
  "map (\<lambda>t. get_str t ''name'') tools = map Some
     [''ssh_targets_list'', ''ssh_sessions_list'', ''ssh_session_create'', ''ssh_session_status'',
      ''ssh_session_close'', ''ssh_exec_start'', ''ssh_exec_background'', ''ssh_command_poll'',
      ''ssh_command_cancel'', ''ssh_commands_list'', ''ssh_shell_open'', ''ssh_shell_write'', ''ssh_shell_read'',
      ''ssh_shell_resize'', ''ssh_shell_close'', ''ssh_file_stat'', ''ssh_file_read'', ''ssh_file_write'',
      ''ssh_file_upload'', ''ssh_file_download'', ''ssh_file_mkdir'']"
  by (simp add: tools_def tool_def get_str_def)

text \<open>
  The server handles exactly the tools it advertises: a call is refused as an unknown tool if
  and only if the name is in no entry of the list.
\<close>

theorem tools_are_handled:
  "tool_request me name JNull = Inl (''unknown tool '' @ me_debug me name) \<longleftrightarrow>
     Some name \<notin> set (map (\<lambda>t. get_str t ''name'') tools)"
  unfolding tool_names
  by (simp add: tool_request_def one_id_def two_ids_def exec_tool_def required_string_def optional_string_def get_defs)

end
