(* ===== verification/Mcp_Render.thy ===== *)
theory Mcp_Render
  imports Mcp_Request Config
begin

text \<open>
  The responses of the MCP server: the text decoders it keeps between polls, the shaping of the
  daemon's answers into JSON, and the rendering of the text channel. The table of decoders is a
  map from keys to states; its lock is never poisoned, since nothing panics while it is held.
\<close>

section \<open>Text decoders\<close>

definition TEXT_RENDER_BYTES :: nat where
  "TEXT_RENDER_BYTES = 8 * 1024"

record decoder_state =
  ds_last_sequence :: nat
  ds_pending :: bytes

type_synonym decoders = "str \<Rightarrow> decoder_state option"

fun stream_name :: "stream_kind \<Rightarrow> str" where
  "stream_name Stdout = ''stdout''"
| "stream_name Stderr = ''stderr''"
| "stream_name Pty = ''pty''"
| "stream_name System = ''system''"

definition decode_event_text :: "str \<Rightarrow> nat \<Rightarrow> bytes \<Rightarrow> decoders \<Rightarrow> str \<times> decoders" where
  "decode_event_text key sequence payload ds =
     (let state = unwrap_or (ds key) \<lparr>ds_last_sequence = 0, ds_pending = []\<rparr>;
          pending = (if sequence \<le> ds_last_sequence state then [] else ds_pending state);
          last_sequence = max (ds_last_sequence state) sequence;
          bs = pending @ payload;
          keep = (\<lambda>p. ds(key \<mapsto> \<lparr>ds_last_sequence = last_sequence, ds_pending = p\<rparr>))
      in case from_utf8 bs of
           Utf8Ok \<Rightarrow> (bs, keep [])
         | Utf8Err v None \<Rightarrow> (take v bs, keep (drop v bs))
         | Utf8Err v (Some _) \<Rightarrow> (from_utf8_lossy bs, keep []))"

definition clear_decoders_for_command :: "str \<Rightarrow> decoders \<Rightarrow> decoders" where
  "clear_decoders_for_command command_id ds =
     (\<lambda>key. if starts_with key (''command:'' @ command_id @ '':'') then None else ds key)"

record decoded_event =
  de_stream :: str
  de_text :: str
  de_sequence :: nat
  de_persisted :: bool
  de_payload :: bytes

definition decoder_key :: "terminal_event \<Rightarrow> str option \<Rightarrow> str" where
  "decoder_key e command_id =
     (case (case te_command_id e of Some i \<Rightarrow> Some i | None \<Rightarrow> command_id) of
        Some i \<Rightarrow> ''command:'' @ i @ '':'' @ stream_name (te_stream e)
      | None \<Rightarrow> ''session:'' @ te_session_id e @ '':'' @ stream_name (te_stream e))"

definition decode_event :: "terminal_event \<Rightarrow> str option \<Rightarrow> decoders \<Rightarrow> decoded_event \<times> decoders" where
  "decode_event e command_id ds =
     (case decode_event_text (decoder_key e command_id) (te_sequence e) (te_payload e) ds of
        (t, ds') \<Rightarrow> (\<lparr>de_stream = stream_name (te_stream e), de_text = t, de_sequence = te_sequence e,
                      de_persisted = te_persisted e, de_payload = te_payload e\<rparr>, ds'))"

fun decode_events :: "terminal_event list \<Rightarrow> str option \<Rightarrow> decoders \<Rightarrow> decoded_event list \<times> decoders" where
  "decode_events [] command_id ds = ([], ds)"
| "decode_events (e # es) command_id ds =
     (case decode_event e command_id ds of
        (d, ds1) \<Rightarrow> (case decode_events es command_id ds1 of (rest, ds2) \<Rightarrow> (d # rest, ds2)))"

section \<open>Chunks of output\<close>

record chunk =
  ck_stream :: str
  ck_persisted :: bool
  ck_first_sequence :: nat
  ck_last_sequence :: nat
  ck_count :: nat
  ck_text :: str

definition new_chunk :: "decoded_event \<Rightarrow> chunk" where
  "new_chunk e = \<lparr>ck_stream = de_stream e, ck_persisted = de_persisted e, ck_first_sequence = de_sequence e,
     ck_last_sequence = de_sequence e, ck_count = 1, ck_text = de_text e\<rparr>"

definition add_event :: "chunk list \<Rightarrow> decoded_event \<Rightarrow> chunk list" where
  "add_event cs e =
     (if cs \<noteq> [] \<and> ck_stream (last cs) = de_stream e \<and> ck_persisted (last cs) = de_persisted e
      then butlast cs @ [(last cs)\<lparr>ck_text := ck_text (last cs) @ de_text e, ck_last_sequence := de_sequence e,
                                  ck_count := ck_count (last cs) + 1\<rparr>]
      else cs @ [new_chunk e])"

definition chunk_value :: "chunk \<Rightarrow> json" where
  "chunk_value c = jobject
     [(''stream'', JStr (ck_stream c)), (''text'', JStr (ck_text c)),
      (''first_sequence'', JNat (ck_first_sequence c)), (''last_sequence'', JNat (ck_last_sequence c)),
      (''events'', JNat (ck_count c)), (''persisted'', JBool (ck_persisted c))]"

definition chunks_from :: "decoded_event list \<Rightarrow> json list" where
  "chunks_from decoded = map chunk_value (foldl add_event [] decoded)"

definition events_from :: "mcp_env \<Rightarrow> decoded_event list \<Rightarrow> json list" where
  "events_from me decoded = map (\<lambda>e. jobject
     [(''stream'', JStr (de_stream e)), (''text'', JStr (de_text e)),
      (''data_base64'', JStr (me_base64_encode me (de_payload e))),
      (''sequence'', JNat (de_sequence e)), (''persisted'', JBool (de_persisted e))]) decoded"

section \<open>Shaping a response\<close>

definition command_view :: "mcp_env \<Rightarrow> command_info \<Rightarrow> detail \<Rightarrow> bool \<Rightarrow> json" where
  "command_view me c d include_preview =
     (case command_value me c of
        JObj m \<Rightarrow>
          (let m1 = (if include_preview then map_insert ''command_preview'' (JStr (command_preview (ci_command c))) m
                     else m)
           in JObj (if is_compact d then map_remove ''command'' m1 else m1))
      | v \<Rightarrow> v)"

definition file_content_json :: "mcp_env \<Rightarrow> file_content_info \<Rightarrow> detail \<Rightarrow> encoding \<Rightarrow> json" where
  "file_content_json me info d encoding =
     (let include_base64 = (encoding = EncBase64 \<or> \<not> fc_is_utf8 info \<or> \<not> is_compact d);
          include_text = (encoding = EncText \<and> fc_is_utf8 info);
          m = map_of_entries
            [(''path'', JStr (fc_path info)), (''size'', JNat (fc_size info)),
             (''bytes_returned'', JNat (fc_bytes_returned info)), (''truncated'', JBool (fc_truncated info)),
             (''is_utf8'', JBool (fc_is_utf8 info)), (''sha256'', jopt JStr (fc_sha256 info))];
          m1 = (if include_text then map_insert ''text'' (JStr (from_utf8_lossy (fc_data info))) m else m);
          m2 = (if include_base64
                then map_insert ''encoding'' (JStr (if fc_is_utf8 info then ''text'' else ''binary''))
                       (map_insert ''data_base64'' (JStr (me_base64_encode me (fc_data info))) m1)
                else m1);
          m3 = (if \<not> include_text \<and> encoding = EncBase64 then map_insert ''encoding'' (JStr ''base64'') m2 else m2)
      in JObj m3)"

definition recording_limit_mib :: "toml \<Rightarrow> paths \<Rightarrow> fsys \<Rightarrow> nat option" where
  "recording_limit_mib tm ps fs = map_option cf_recording_limit_mib (ok (load tm ps fs))"

definition after_events :: "events_page \<Rightarrow> decoders \<Rightarrow> decoders" where
  "after_events p ds =
     (let ds1 = (case ev_command p of
                   Some c \<Rightarrow> if ev_delivery_complete p then clear_decoders_for_command (ci_id c) ds else ds
                 | None \<Rightarrow> ds)
      in if \<not> ev_has_more p
         then fold (\<lambda>c ds. if ci_status c \<noteq> C_Running then clear_decoders_for_command (ci_id c) ds else ds)
                (ev_commands p) ds1
         else ds1)"

definition events_value :: "mcp_env \<Rightarrow> nat option \<Rightarrow> shaping \<Rightarrow> events_page \<Rightarrow> decoded_event list \<Rightarrow> json" where
  "events_value me limit sh p decoded =
     (let view = (\<lambda>c. command_view me c (sh_detail sh) (first_page sh));
          primary_id = map_option ci_id (ev_command p);
          progress = ev_progress p;
          output = (if is_compact (sh_detail sh) then (''chunks'', JArr (chunks_from decoded))
                    else (''events'', JArr (events_from me decoded)))
      in jobject
        [(''command'', jopt view (ev_command p)),
         (''commands'', JArr (map view (filter (\<lambda>c. Some (ci_id c) \<noteq> primary_id) (ev_commands p)))),
         (''next_sequence'', JNat (ev_next_sequence p)),
         (''has_more'', JBool (ev_has_more p)),
         (''poll_complete'', JBool (ev_delivery_complete p)),
         (''sequence_scope'', JStr ''session''),
         (''remote_state_unknown'',
            JBool (case ev_command p of Some c \<Rightarrow> ci_status c = C_Interrupted | None \<Rightarrow> False)),
         (''truncation'', jobject
            [(''page_truncated'', JBool (ev_has_more p)),
             (''recording_truncated'',
                JBool (case ev_command p of Some c \<Rightarrow> ci_recording_truncated c | None \<Rightarrow> False)),
             (''live_tail_dropped'', JBool (ep_live_tail_dropped progress)),
             (''recording_limit_mib'', jopt JNat limit)]),
         (''progress'', jobject
            [(''seconds_since_last_output'', jopt JNat (ep_seconds_since_last_output progress)),
             (''timed_out'', JBool (ep_timed_out progress)),
             (''waited_seconds'', JNat (ep_waited_seconds progress))]),
         (''warnings'', JArr (map JStr (ev_warnings p))),
         output])"

fun public_json :: "mcp_env \<Rightarrow> nat option \<Rightarrow> response_data \<Rightarrow> shaping \<Rightarrow> decoders \<Rightarrow> json \<times> decoders" where
  "public_json me limit (R_Events p) sh ds =
     (case decode_events (ev_events p) (map_option ci_id (ev_command p)) ds of
        (decoded, ds1) \<Rightarrow> (events_value me limit sh p decoded, after_events p ds1))"
| "public_json me limit (R_FileContent info) sh ds =
     (enveloped ''file_content'' (file_content_json me info (sh_detail sh) (sh_encoding sh)), ds)"
| "public_json me limit (R_FileStat info) sh ds = (enveloped ''file_stat'' (file_stat_json me info), ds)"
| "public_json me limit (R_FileOutcome out) sh ds = (enveloped ''file_outcome'' (file_outcome_json out), ds)"
| "public_json me limit (R_Commands cs) sh ds =
     (enveloped ''commands'' (jobject [(''commands'', JArr (map (summary_value me) cs))]), ds)"
| "public_json me limit (R_Command c) sh ds = (enveloped ''command'' (command_view me c Full True), ds)"
| "public_json me limit (R_Handshake v d) sh ds =
     (enveloped ''handshake'' (jobject [(''protocol_version'', JNat v), (''daemon_version'', JStr d)]), ds)"
| "public_json me limit (R_Targets ts) sh ds = (enveloped ''targets'' (JArr (map target_value ts)), ds)"
| "public_json me limit (R_Sessions ss) sh ds = (enveloped ''sessions'' (JArr (map (session_value me) ss)), ds)"
| "public_json me limit (R_Session s) sh ds = (enveloped ''session'' (session_value me s), ds)"
| "public_json me limit R_Ack sh ds = (jobject [(''kind'', JStr ''ack'')], ds)"

section \<open>The text channel\<close>

definition show_bool :: "bool \<Rightarrow> str" where
  "show_bool b = (if b then ''true'' else ''false'')"

text \<open>\<open>{:04o}\<close>: octal, padded with zeros to four digits.\<close>

definition show_octal4 :: "nat \<Rightarrow> str" where
  "show_octal4 n = (let d = show_base 8 n in replicate (4 - length d) (CHR ''0'') @ d)"

definition data_kind :: "json \<Rightarrow> str" where
  "data_kind payload =
     (case get_str payload ''kind'' of
        Some k \<Rightarrow> if k = ''file_stat'' then ''stat''
                  else if k = ''file_content'' then ''read''
                  else if k = ''file_outcome'' then ''wrote''
                  else ''file''
      | None \<Rightarrow> ''file'')"

definition file_header :: "json \<Rightarrow> str" where
  "file_header payload =
     unwrap_or (get_str payload ''path'') [] @ '' '' @ show_nat (unwrap_or (get_u64 payload ''size'') 0) @ '' bytes (''
     @ show_nat (unwrap_or (get_u64 payload ''bytes_returned'') 0) @ '' returned) truncated=''
     @ show_bool (unwrap_or (get_bool payload ''truncated'') False)"

definition render_outcome_text :: "json \<Rightarrow> str" where
  "render_outcome_text payload =
     unwrap_or (get_str payload ''path'') [] @ '' '' @ show_nat (unwrap_or (get_u64 payload ''bytes'') 0)
     @ '' bytes sha256='' @ unwrap_or (get_str payload ''sha256'') ''not computed''
     @ '' verified='' @ show_bool (unwrap_or (get_bool payload ''verified'') False)
     @ '' changed='' @ show_bool (unwrap_or (get_bool payload ''changed'') False) @ [CHR 0x0A]
     @ (case get_str payload ''local_path'' of Some l \<Rightarrow> ''local_path='' @ l @ [CHR 0x0A] | None \<Rightarrow> [])
     @ (if get_bool payload ''verified'' \<noteq> Some True
        then ''warning: the remote host reported no digest, so the transfer is unverified'' @ [CHR 0x0A] else [])"

text \<open>\<open>str::char_indices\<close>, from the characters of a string.\<close>

fun char_indices :: "nat \<Rightarrow> str list \<Rightarrow> (nat \<times> str) list" where
  "char_indices i [] = []"
| "char_indices i (c # cs) = (i, c) # char_indices (i + length c) cs"

definition capped_cut :: "str \<Rightarrow> nat \<Rightarrow> nat" where
  "capped_cut v budget =
     (case takeWhile (\<lambda>(i, c). i < budget) (char_indices 0 (chars v)) of
        [] \<Rightarrow> 0
      | x # xs \<Rightarrow> (case last (x # xs) of (i, c) \<Rightarrow> i + length c))"

definition append_capped :: "str \<Rightarrow> str \<Rightarrow> nat \<Rightarrow> bool \<times> str \<times> nat" where
  "append_capped out v budget =
     (if length v \<le> budget then (True, out @ v, budget - length v)
      else (False, out @ take (capped_cut v budget) v, 0))"

fun render_items :: "json list \<Rightarrow> str \<Rightarrow> nat \<Rightarrow> str" where
  "render_items [] out budget = out"
| "render_items (item # items) out budget =
     (let t = unwrap_or (get_str item ''text'') [];
          stream = unwrap_or (get_str item ''stream'') ''stdout'';
          out1 = (if stream \<noteq> ''stdout'' \<and> t \<noteq> [] then out @ ''['' @ stream @ ''] '' else out)
      in case append_capped out1 t budget of
           (True, out2, budget') \<Rightarrow> render_items items out2 budget'
         | (False, out2, _) \<Rightarrow>
             out2 @ [CHR 0x0A] @ ''[text rendering capped; use the structured payload or continue polling]'' @ [CHR 0x0A])"

definition render_header :: "mcp_env \<Rightarrow> json \<Rightarrow> str" where
  "render_header me payload =
     (let command_value = get payload ''command'';
          progress = get payload ''progress''
      in ''status='' @ unwrap_or (Option.bind command_value (\<lambda>c. get_str c ''status'')) ''unknown''
       @ (case Option.bind command_value (\<lambda>c. get c ''exit_code'') of
            Some code \<Rightarrow> if code \<noteq> JNull then '' exit_code='' @ me_to_string me code else []
          | None \<Rightarrow> [])
       @ '' next_sequence='' @ show_nat (unwrap_or (get_u64 payload ''next_sequence'') 0)
       @ '' has_more='' @ show_bool (unwrap_or (get_bool payload ''has_more'') False)
       @ '' poll_complete='' @ show_bool (unwrap_or (get_bool payload ''poll_complete'') False)
       @ (case progress of
            None \<Rightarrow> []
          | Some p \<Rightarrow>
              (case get_u64 p ''seconds_since_last_output'' of
                 Some age \<Rightarrow> '' quiet_for='' @ show_nat age @ ''s'' | None \<Rightarrow> [])
              @ (if get_bool p ''timed_out'' = Some True
                 then '' waited='' @ show_nat (unwrap_or (get_u64 p ''waited_seconds'') 0) @ ''s_timed_out'' else []))
       @ (if get_bool payload ''remote_state_unknown'' = Some True then '' remote_state_unknown=true'' else [])
       @ [CHR 0x0A])"

definition render_output_text :: "mcp_env \<Rightarrow> json \<Rightarrow> json list \<Rightarrow> str" where
  "render_output_text me payload items =
     render_header me payload @ render_items items [] TEXT_RENDER_BYTES
     @ (case get_array payload ''warnings'' of
          None \<Rightarrow> []
        | Some ws \<Rightarrow> concat (map (\<lambda>w. ''warning: '' @ unwrap_or (as_str w) [] @ [CHR 0x0A]) ws))"

definition render_commands :: "json list \<Rightarrow> str" where
  "render_commands items =
     concat (map (\<lambda>item. unwrap_or (get_str item ''id'') [] @ '' '' @ unwrap_or (get_str item ''status'') [] @ '' ''
       @ unwrap_or (get_str item ''command_preview'') [] @ [CHR 0x0A]) items)"

definition render_stat :: "json \<Rightarrow> json \<Rightarrow> str" where
  "render_stat payload body =
     data_kind payload @ '' '' @ unwrap_or (get_str body ''path'') [] @ '' ''
     @ show_nat (unwrap_or (get_u64 body ''size'') 0) @ '' bytes, mode ''
     @ (case get_u64 body ''mode'' of Some v \<Rightarrow> show_octal4 v | None \<Rightarrow> ''unknown'')
     @ '', sha256 '' @ unwrap_or (get_str body ''sha256'') ''not computed'' @ [CHR 0x0A]"

definition render_body :: "mcp_env \<Rightarrow> json \<Rightarrow> json \<Rightarrow> str" where
  "render_body me payload body =
     (case get_array body ''chunks'' of
        Some items \<Rightarrow> render_output_text me body items
      | None \<Rightarrow>
     (case get_array body ''events'' of
        Some items \<Rightarrow> render_output_text me body items
      | None \<Rightarrow>
     (if get body ''path'' \<noteq> None \<and> get body ''bytes'' \<noteq> None then render_outcome_text body
      else case get_str body ''text'' of
        Some t \<Rightarrow>
          file_header body @ [CHR 0x0A] @ t
          @ (if get_bool body ''truncated'' = Some True
             then [CHR 0x0A] @ ''[file is larger than bytes_returned; raise max_bytes for more]'' else [])
      | None \<Rightarrow>
     (case get_array body ''commands'' of
        Some items \<Rightarrow>
          if list_all (\<lambda>item. get item ''command_preview'' \<noteq> None) items then render_commands items
          else if get body ''kind'' \<noteq> None then render_stat payload body else me_to_string me payload
      | None \<Rightarrow> if get body ''kind'' \<noteq> None then render_stat payload body else me_to_string me payload))))"

definition render_text :: "mcp_env \<Rightarrow> json \<Rightarrow> bool \<Rightarrow> str" where
  "render_text me payload is_error =
     (if is_error then me_to_string_pretty me payload
      else render_body me payload
        (case get payload ''data'' of
           Some d \<Rightarrow> if get payload ''kind'' \<noteq> None then d else payload
         | None \<Rightarrow> payload))"

definition tool_result :: "mcp_env \<Rightarrow> json \<Rightarrow> json \<Rightarrow> bool \<Rightarrow> json" where
  "tool_result me i payload is_error =
     jobject [(''jsonrpc'', JStr ''2.0''), (''id'', i),
       (''result'', jobject
          [(''content'', JArr [jobject [(''type'', JStr ''text''), (''text'', JStr (render_text me payload is_error))]]),
           (''structuredContent'', payload), (''isError'', JBool is_error)])]"

text \<open>The codes of JSON-RPC errors are negative; the argument is their absolute value.\<close>

definition rpc_error :: "json \<Rightarrow> nat \<Rightarrow> str \<Rightarrow> json" where
  "rpc_error i code message =
     jobject [(''jsonrpc'', JStr ''2.0''), (''id'', i),
       (''error'', jobject [(''code'', JNeg code), (''message'', JStr message)])]"

section \<open>Decoding a stream that is cut anywhere\<close>

definition decoder_of :: "decoders \<Rightarrow> str \<Rightarrow> decoder_state" where
  "decoder_of ds key = unwrap_or (ds key) \<lparr>ds_last_sequence = 0, ds_pending = []\<rparr>"

text \<open>What a decoder may hold back: nothing, or the beginning of a character.\<close>

definition held_back :: "bytes \<Rightarrow> bool" where
  "held_back p \<longleftrightarrow> p = [] \<or> from_utf8 p = Utf8Err 0 None"

lemma held_back_short: "held_back p \<Longrightarrow> length p < 4"
proof -
  assume "held_back p"
  then consider "p = []" | "p \<noteq> []" "from_utf8 p = Utf8Err 0 None" by (auto simp: held_back_def)
  then show ?thesis
  proof cases
    case 2
    then have "utf8_next p = UIncomplete"
      using from_utf8_UChar[of p] from_utf8_UInvalid[of p] utf8_next_UChar[of p]
      by (cases "utf8_next p") (auto split: utf8_result.splits)
    then show ?thesis by (rule utf8_next_UIncomplete)
  qed simp
qed

lemma held_back_valid: "held_back p \<Longrightarrow> valid_utf8 p \<Longrightarrow> p = []"
  by (auto simp: held_back_def valid_utf8_def)

lemma decode_step:
  assumes "ds_last_sequence (decoder_of ds key) < n"
    and "valid_utf8 ((ds_pending (decoder_of ds key) @ payload) @ rest)"
  obtains t p where "decode_event_text key n payload ds = (t, ds(key \<mapsto> \<lparr>ds_last_sequence = n, ds_pending = p\<rparr>))"
    "t @ p = ds_pending (decoder_of ds key) @ payload" "valid_utf8 t" "held_back p"
proof -
  let ?bs = "ds_pending (decoder_of ds key) @ payload"
  have eq: "decode_event_text key n payload ds =
     (case from_utf8 ?bs of
        Utf8Ok \<Rightarrow> (?bs, ds(key \<mapsto> \<lparr>ds_last_sequence = n, ds_pending = []\<rparr>))
      | Utf8Err v None \<Rightarrow> (take v ?bs, ds(key \<mapsto> \<lparr>ds_last_sequence = n, ds_pending = drop v ?bs\<rparr>))
      | Utf8Err v (Some _) \<Rightarrow> (from_utf8_lossy ?bs, ds(key \<mapsto> \<lparr>ds_last_sequence = n, ds_pending = []\<rparr>)))"
    using assms(1) unfolding decode_event_text_def decoder_of_def[symmetric] Let_def
    by (simp split: utf8_result.split option.split)
  from from_utf8_prefix_of_valid[OF assms(2)] show ?thesis
  proof (elim disjE exE)
    assume "from_utf8 ?bs = Utf8Ok"
    then show ?thesis using that[of ?bs "[]"] eq by (simp add: valid_utf8_def held_back_def)
  next
    fix v assume v: "from_utf8 ?bs = Utf8Err v None"
    then have "valid_utf8 (take v ?bs)" "held_back (drop v ?bs)"
      using from_utf8_Err_split[OF v] by (auto simp: held_back_def)
    then show ?thesis using that[of "take v ?bs" "drop v ?bs"] eq v by (simp del: take_append drop_append)
  qed
qed

text \<open>The payloads of the events of one decoder, and the texts they were decoded to.\<close>

definition sent_bytes :: "str \<Rightarrow> str option \<Rightarrow> terminal_event list \<Rightarrow> bytes" where
  "sent_bytes key cid es = concat (map te_payload (filter (\<lambda>e. decoder_key e cid = key) es))"

definition shown_text :: "str \<Rightarrow> str option \<Rightarrow> terminal_event list \<Rightarrow> decoded_event list \<Rightarrow> str" where
  "shown_text key cid es decoded =
     concat (map (\<lambda>(e, d). de_text d) (filter (\<lambda>(e, d). decoder_key e cid = key) (zip es decoded)))"

lemma decode_events_stream:
  assumes "decode_events es cid ds = (decoded, ds')"
    and "sorted_wrt (<) (map te_sequence es)"
    and "list_all (\<lambda>e. ds_last_sequence (decoder_of ds key) < te_sequence e) es"
    and "valid_utf8 (ds_pending (decoder_of ds key) @ sent_bytes key cid es @ rest)"
    and "held_back (ds_pending (decoder_of ds key))"
  shows "shown_text key cid es decoded @ ds_pending (decoder_of ds' key)
      = ds_pending (decoder_of ds key) @ sent_bytes key cid es
    \<and> valid_utf8 (shown_text key cid es decoded) \<and> held_back (ds_pending (decoder_of ds' key))"
  using assms
proof (induction es arbitrary: ds decoded)
  case Nil
  then show ?case by (simp add: shown_text_def sent_bytes_def valid_utf8_def)
next
  case (Cons e es)
  let ?k = "decoder_key e cid"
  obtain t ds1 where dec: "decode_event_text ?k (te_sequence e) (te_payload e) ds = (t, ds1)" by fastforce
  obtain d rest_d where run: "decoded = d # rest_d" "de_text d = t" "decode_events es cid ds1 = (rest_d, ds')"
    using Cons.prems(1) dec by (auto simp: decode_event_def split: prod.splits)
  show ?case
  proof (cases "?k = key")
    case False
    then have same: "decoder_of ds1 key = decoder_of ds key"
      using dec by (auto simp: decode_event_text_def Let_def decoder_of_def split: utf8_result.splits option.splits)
    have "sent_bytes key cid (e # es) = sent_bytes key cid es" "shown_text key cid (e # es) decoded = shown_text key cid es rest_d"
      using False run(1) by (simp_all add: sent_bytes_def shown_text_def)
    then show ?thesis using Cons.IH[OF run(3)] Cons.prems same by simp
  next
    case True
    have sent: "sent_bytes key cid (e # es) = te_payload e @ sent_bytes key cid es"
      and shown: "shown_text key cid (e # es) decoded = t @ shown_text key cid es rest_d"
      using True run(1,2) by (simp_all add: sent_bytes_def shown_text_def)
    obtain t' p where step: "decode_event_text key (te_sequence e) (te_payload e) ds =
          (t', ds(key \<mapsto> \<lparr>ds_last_sequence = te_sequence e, ds_pending = p\<rparr>))"
        "t' @ p = ds_pending (decoder_of ds key) @ te_payload e" "valid_utf8 t'" "held_back p"
      using decode_step[of ds key "te_sequence e" "te_payload e" "sent_bytes key cid es @ rest"] Cons.prems(3,4) sent
      by auto
    have ds1: "t' = t" "decoder_of ds1 key = \<lparr>ds_last_sequence = te_sequence e, ds_pending = p\<rparr>"
      using step(1) dec True by (auto simp: decoder_of_def)
    have valid: "valid_utf8 (p @ sent_bytes key cid es @ rest)"
    proof -
      have "valid_utf8 (t' @ (p @ sent_bytes key cid es @ rest))"
        using Cons.prems(4) sent step(2) by (metis append.assoc)
      then show ?thesis using valid_utf8_append[OF step(3)] by blast
    qed
    have "shown_text key cid es rest_d @ ds_pending (decoder_of ds' key) = p @ sent_bytes key cid es
        \<and> valid_utf8 (shown_text key cid es rest_d) \<and> held_back (ds_pending (decoder_of ds' key))"
      using Cons.IH[OF run(3)] Cons.prems(2) valid step(4) by (auto simp: ds1 list_all_iff)
    then show ?thesis
      using sent shown ds1(1) step(2,3) valid_utf8_append[OF step(3)] by (metis append.assoc)
  qed
qed

text \<open>
  C13: A page of events whose output is UTF-8 is shown exactly, wherever the network cut it: for
  every stream of every command, with events of other streams in between, the texts of a fresh
  decoder put together are the bytes sent so far up to at most three bytes of an unfinished
  character, which are held back and not lost; when the output ends at a character, all of it
  is shown.
\<close>

theorem decoded_text_exact:
  assumes "decode_events es cid ds = (decoded, ds')" "ds key = None"
    and "sorted_wrt (<) (map te_sequence es)" "list_all (\<lambda>e. 0 < te_sequence e) es"
    and "valid_utf8 (sent_bytes key cid es @ rest)"
  shows "\<exists>held. shown_text key cid es decoded @ held = sent_bytes key cid es \<and> length held < 4
    \<and> ds_pending (decoder_of ds' key) = held \<and> valid_utf8 (shown_text key cid es decoded)
    \<and> (rest = [] \<longrightarrow> held = [])"
proof -
  have fresh: "decoder_of ds key = \<lparr>ds_last_sequence = 0, ds_pending = []\<rparr>"
    using assms(2) by (simp add: decoder_of_def)
  have run: "shown_text key cid es decoded @ ds_pending (decoder_of ds' key) = sent_bytes key cid es"
    "valid_utf8 (shown_text key cid es decoded)" "held_back (ds_pending (decoder_of ds' key))"
    using decode_events_stream[OF assms(1,3), of key rest] assms(4,5) fresh by (simp_all add: held_back_def)
  moreover have "ds_pending (decoder_of ds' key) = []" if "rest = []"
    using that assms(5) run valid_utf8_append[OF run(2)] held_back_valid by (metis append.right_neutral)
  ultimately show ?thesis using held_back_short by blast
qed

text \<open>A character of three bytes that arrives in two events, with a line of stderr in between.\<close>

definition split_event :: "nat \<Rightarrow> stream_kind \<Rightarrow> bytes \<Rightarrow> terminal_event" where
  "split_event n k b = \<lparr>te_session_id = ''s'', te_command_id = Some ''c'', te_sequence = n, te_timestamp = 0,
     te_stream = k, te_payload = b, te_persisted = True\<rparr>"

lemma utf8_three: "from_utf8 [CHR 0xE4] = Utf8Err 0 None" "from_utf8 [CHR 0xE4, CHR 0xB8, CHR 0xAD] = Utf8Ok"
  "from_utf8 [CHR 0xB8, CHR 0xAD] = Utf8Err 0 (Some 1)" "from_utf8 ''x'' = Utf8Ok"
  "from_utf8_lossy [CHR 0xB8, CHR 0xAD] = replacement @ replacement"
  by (simp_all add: from_utf8_def from_utf8_at.simps from_utf8_lossy.simps bval_def is_cont_def second_of_3_def
      numeral_2_eq_2 del: upt_Suc)

lemmas decode_eval = decode_event_def decode_event_text_def decoder_key_def split_event_def Let_def decoder_of_def
  utf8_three

theorem decoded_text_exact_witness:
  "\<exists>decoded ds'. decode_events [split_event 1 Stdout [CHR 0xE4], split_event 2 Stderr ''x'',
       split_event 3 Stdout [CHR 0xB8, CHR 0xAD]] None Map.empty = (decoded, ds')
     \<and> map de_text decoded = [[], ''x'', [CHR 0xE4, CHR 0xB8, CHR 0xAD]]
     \<and> shown_text ''command:c:stdout'' None [split_event 1 Stdout [CHR 0xE4], split_event 2 Stderr ''x'',
         split_event 3 Stdout [CHR 0xB8, CHR 0xAD]] decoded = [CHR 0xE4, CHR 0xB8, CHR 0xAD]"
proof -
  let ?es = "[split_event 1 Stdout [CHR 0xE4], split_event 2 Stderr ''x'', split_event 3 Stdout [CHR 0xB8, CHR 0xAD]]"
  obtain decoded ds' where run: "decode_events ?es None Map.empty = (decoded, ds')" by fastforce
  have sent: "sent_bytes ''command:c:stdout'' None ?es = [CHR 0xE4, CHR 0xB8, CHR 0xAD]"
    by (simp add: sent_bytes_def decoder_key_def split_event_def)
  have "sorted_wrt (<) (map te_sequence ?es)" "list_all (\<lambda>e. 0 < te_sequence e) ?es"
    "valid_utf8 (sent_bytes ''command:c:stdout'' None ?es @ [])"
    by (simp_all only: sent append_Nil2 valid_utf8_def utf8_three) (simp_all add: split_event_def)
  from decoded_text_exact[OF run _ this] have "shown_text ''command:c:stdout'' None ?es decoded = [CHR 0xE4, CHR 0xB8, CHR 0xAD]"
    unfolding sent by auto
  moreover have "map de_text decoded = [[], ''x'', [CHR 0xE4, CHR 0xB8, CHR 0xAD]]"
    using run by (simp add: decode_eval) (auto simp: utf8_three)
  ultimately show ?thesis using run by (intro exI conjI)
qed

text \<open>
  A client that reads the same page again gets a different text: the decoder keeps the highest
  sequence it has seen and takes every event up to it for the start of a new reading, so it
  drops what it held back between the events of the second reading. The character that was
  shown the first time comes out as two replacement characters.
\<close>

theorem reread_page_garbles:
  "case decode_events [split_event 1 Stdout [CHR 0xE4], split_event 2 Stdout [CHR 0xB8, CHR 0xAD]] None Map.empty of
     (first, ds) \<Rightarrow>
       map de_text first = [[], [CHR 0xE4, CHR 0xB8, CHR 0xAD]]
     \<and> map de_text (fst (decode_events [split_event 1 Stdout [CHR 0xE4], split_event 2 Stdout [CHR 0xB8, CHR 0xAD]] None ds))
       = [[], replacement @ replacement]"
  by (simp add: decode_eval)

section \<open>Chunks keep the output\<close>

definition chunk_tag :: "chunk \<Rightarrow> str \<times> bool" where
  "chunk_tag c = (ck_stream c, ck_persisted c)"

definition event_tag :: "decoded_event \<Rightarrow> str \<times> bool" where
  "event_tag e = (de_stream e, de_persisted e)"

definition chunks_of :: "decoded_event list \<Rightarrow> chunk list \<Rightarrow> bool" where
  "chunks_of es cs \<longleftrightarrow> concat (map ck_text cs) = concat (map de_text es)
     \<and> concat (map (\<lambda>c. replicate (ck_count c) (chunk_tag c)) cs) = map event_tag es
     \<and> distinct_adj (map chunk_tag cs) \<and> (cs = [] \<longleftrightarrow> es = [])"

lemma chunks_of_add:
  assumes "chunks_of es cs"
  shows "chunks_of (es @ [e]) (add_event cs e)"
proof (cases "cs \<noteq> [] \<and> chunk_tag (last cs) = event_tag e")
  case True
  obtain bs c where cs: "cs = bs @ [c]" using True by (cases cs rule: rev_cases) auto
  let ?c = "c\<lparr>ck_text := ck_text c @ de_text e, ck_last_sequence := de_sequence e, ck_count := ck_count c + 1\<rparr>"
  have add: "add_event cs e = bs @ [?c]"
    using True cs by (simp add: add_event_def chunk_tag_def event_tag_def)
  have tag: "chunk_tag (c\<lparr>ck_text := t, ck_last_sequence := q, ck_count := k\<rparr>) = event_tag e" "chunk_tag c = event_tag e" for t q k
    using True cs by (simp_all add: chunk_tag_def)
  have "replicate (ck_count c + 1) (event_tag e) = replicate (ck_count c) (event_tag e) @ [event_tag e]"
    by (simp add: replicate_append_same)
  then show ?thesis using assms unfolding add by (auto simp: chunks_of_def cs tag)
next
  case False
  then have add: "add_event cs e = cs @ [new_chunk e]"
    by (auto simp: add_event_def chunk_tag_def event_tag_def)
  have "chunk_tag (new_chunk e) = event_tag e" by (simp add: chunk_tag_def new_chunk_def event_tag_def)
  then show ?thesis
    using assms False
    by (auto simp: chunks_of_def add new_chunk_def distinct_adj_append_iff last_map)
qed

lemma chunks_of_foldl: "chunks_of es cs \<Longrightarrow> chunks_of (es @ fs) (foldl add_event cs fs)"
  by (induction fs arbitrary: es cs) (use chunks_of_add in fastforce)+

lemma get_chunk_value:
  "get_str (chunk_value c) ''text'' = Some (ck_text c)" "get_str (chunk_value c) ''stream'' = Some (ck_stream c)"
  "get_u64 (chunk_value c) ''events'' = Some (ck_count c)" "get_bool (chunk_value c) ''persisted'' = Some (ck_persisted c)"
  by (simp_all add: chunk_value_def get_defs)

text \<open>
  Compact output loses nothing and repeats nothing: the texts of the chunks put together are the
  texts of the events, each chunk stands for a run of as many events of its stream as it says,
  in order, and neighbouring chunks differ in stream or in whether they were recorded, so that
  no merge was missed.
\<close>

theorem chunks_keep_output:
  "concat (map (\<lambda>v. unwrap_or (get_str v ''text'') []) (chunks_from es)) = concat (map de_text es)
   \<and> concat (map (\<lambda>v. replicate (unwrap_or (get_u64 v ''events'') 0)
         (get_str v ''stream'', get_bool v ''persisted'')) (chunks_from es))
     = map (\<lambda>e. (Some (de_stream e), Some (de_persisted e))) es
   \<and> distinct_adj (map (\<lambda>v. (get_str v ''stream'', get_bool v ''persisted'')) (chunks_from es))"
proof -
  let ?cs = "foldl add_event [] es"
  let ?f = "\<lambda>t :: str \<times> bool. (Some (fst t), Some (snd t))"
  have ok: "chunks_of es ?cs"
    using chunks_of_foldl[of "[]" "[]" es] by (simp add: chunks_of_def)
  have tags: "map (\<lambda>c. (Some (ck_stream c), Some (ck_persisted c))) ?cs = map ?f (map chunk_tag ?cs)"
    by (simp add: chunk_tag_def)
  have "inj ?f" by (auto intro: injI)
  then have adj: "distinct_adj (map (\<lambda>c. (Some (ck_stream c), Some (ck_persisted c))) ?cs)"
    unfolding tags using ok distinct_adj_map_iff[of ?f "map chunk_tag ?cs"] by (auto simp: chunks_of_def intro: inj_on_subset)
  have runs: "concat (map (\<lambda>c. replicate (ck_count c) (Some (ck_stream c), Some (ck_persisted c))) ?cs)
      = map ?f (concat (map (\<lambda>c. replicate (ck_count c) (chunk_tag c)) ?cs))"
    by (simp add: map_concat comp_def chunk_tag_def)
  show ?thesis
    using ok adj runs
    by (simp add: chunks_from_def comp_def get_chunk_value chunks_of_def event_tag_def)
qed

section \<open>The cap of the text channel\<close>

lemma length_chars: "c \<in> set (chars s) \<Longrightarrow> length c \<le> 4"
proof (induction s rule: chars.induct)
  case (1 s)
  show ?case
  proof (cases "s = []")
    case False
    then show ?thesis
      using 1 utf8_next_UChar[of s] by (cases "utf8_next s") (auto simp: chars.simps[of s])
  qed (use 1 in simp)
qed

lemma capped_prefix:
  "\<exists>k. (case takeWhile (\<lambda>(i, c). i < b) (char_indices i cs) of
          [] \<Rightarrow> i | x # xs \<Rightarrow> (case last (x # xs) of (j, c) \<Rightarrow> j + length c)) = i + length (concat (take k cs))
     \<and> (k = 0 \<or> i + length (concat (take (k - 1) cs)) < b \<and> k \<le> length cs)"
proof (induction cs arbitrary: i)
  case Nil
  then show ?case by (intro exI[of _ 0]) simp
next
  case (Cons c cs)
  show ?case
  proof (cases "i < b")
    case False
    then show ?thesis by (intro exI[of _ 0]) simp
  next
    case True
    let ?tail = "takeWhile (\<lambda>(i, c). i < b) (char_indices (i + length c) cs)"
    obtain k where k: "(case ?tail of [] \<Rightarrow> i + length c | x # xs \<Rightarrow> (case last (x # xs) of (j, c) \<Rightarrow> j + length c))
        = i + length c + length (concat (take k cs))"
      "k = 0 \<or> i + length c + length (concat (take (k - 1) cs)) < b \<and> k \<le> length cs"
      using Cons.IH[of "i + length c"] by blast
    show ?thesis
    proof (intro exI[of _ "Suc k"] conjI)
      show "(case takeWhile (\<lambda>(i, c). i < b) (char_indices i (c # cs)) of
          [] \<Rightarrow> i | x # xs \<Rightarrow> (case last (x # xs) of (j, c) \<Rightarrow> j + length c)) = i + length (concat (take (Suc k) (c # cs)))"
        using True k(1) by (cases ?tail) auto
      show "Suc k = 0 \<or> i + length (concat (take (Suc k - 1) (c # cs))) < b \<and> Suc k \<le> length (c # cs)"
        using True k(2) by (cases k) (auto simp: add.assoc)
    qed
  qed
qed

lemma capped_cut_shape:
  obtains k where "take (capped_cut v b) v = concat (take k (chars v))" "length (concat (take k (chars v))) < b + 4"
proof -
  obtain k where k: "capped_cut v b = length (concat (take k (chars v)))"
      "k = 0 \<or> length (concat (take (k - 1) (chars v))) < b \<and> k \<le> length (chars v)"
    using capped_prefix[where b = b and i = 0 and cs = "chars v"] by (auto simp: capped_cut_def)
  have "take (capped_cut v b) (concat (take k (chars v)) @ concat (drop k (chars v))) = concat (take k (chars v))"
    using k(1) by simp
  then have shown: "take (capped_cut v b) v = concat (take k (chars v))"
    by (simp flip: concat_append)
  have "length (concat (take k (chars v))) < b + 4"
  proof (cases "k = 0")
    case False
    then obtain j where j: "k = Suc j" "j < length (chars v)" "length (concat (take j (chars v))) < b"
      using k(2) by (cases k) auto
    have "length (chars v ! j) \<le> 4" using length_chars[OF nth_mem[OF j(2)]] .
    then show ?thesis using j by (simp add: take_Suc_conv_app_nth)
  qed simp
  then show ?thesis using that shown by blast
qed

text \<open>
  What the cap of the text channel really allows. The appended text consists of whole characters
  of the value, in order, it is the whole value when that fits the budget, and it exceeds the
  budget by at most three bytes. It can exceed it, against the comment on the function: with one
  byte left, a character of two bytes is appended, and reported as not having fitted.
\<close>

theorem append_capped_overshoots:
  "(case append_capped out v b of (fits, out', b') \<Rightarrow>
      (\<exists>shown hidden. chars v = shown @ hidden \<and> out' = out @ concat shown \<and> length (concat shown) < b + 4
        \<and> (if fits then hidden = [] \<and> b' + length v = b else b' = 0 \<and> b < length v)))
   \<and> append_capped [] [CHR 0xC3, CHR 0xA9] 1 = (False, [CHR 0xC3, CHR 0xA9], 0)"
proof
  obtain k where k: "take (capped_cut v b) v = concat (take k (chars v))" "length (concat (take k (chars v))) < b + 4"
    by (rule capped_cut_shape)
  show "case append_capped out v b of (fits, out', b') \<Rightarrow>
      (\<exists>shown hidden. chars v = shown @ hidden \<and> out' = out @ concat shown \<and> length (concat shown) < b + 4
        \<and> (if fits then hidden = [] \<and> b' + length v = b else b' = 0 \<and> b < length v))"
  proof (cases "length v \<le> b")
    case True
    then show ?thesis by (auto simp: append_capped_def intro!: exI[of _ "chars v"])
  next
    case False
    then have eq: "append_capped out v b = (False, out @ concat (take k (chars v)), 0)"
      using k(1) by (simp add: append_capped_def)
    show ?thesis unfolding eq prod.case
      by (rule exI[of _ "take k (chars v)"], rule exI[of _ "drop k (chars v)"]) (use False k(2) in simp)
  qed
  have "chars [CHR 0xC3, CHR 0xA9] = [[CHR 0xC3, CHR 0xA9]]"
    by (simp add: chars.simps bval_def is_cont_def)
  then show "append_capped [] [CHR 0xC3, CHR 0xA9] 1 = (False, [CHR 0xC3, CHR 0xA9], 0)"
    by (simp add: append_capped_def capped_cut_def)
qed

text \<open>
  An acknowledgement is rendered as a file. The answer to closing a session or to writing to a
  shell carries a \<open>kind\<close> and no data, so the renderer takes it for the body of a stat and the
  text channel describes a file of 0 bytes without a name.
\<close>

theorem ack_rendered_as_file:
  "render_text me (fst (public_json me limit R_Ack sh ds)) False =
     ''file  0 bytes, mode unknown, sha256 not computed'' @ [CHR 0x0A]"
  by (simp add: render_text_def render_body_def get_defs render_stat_def data_kind_def show_nat_def show_base.simps char_of_def bit_0)

end
