(* ===== verification/Mcp_Server.thy ===== *)
theory Mcp_Server
  imports Daemon Mcp_Render
begin

text \<open>
  The MCP server's side of a tool call (\<open>apps/mcp-server/src/main.rs\<close>): its exchange with the daemon.
  The daemon at the other end of the stream is a function from the bytes it has received to the
  bytes it has sent, so that the exchange can be run against the model of the daemon itself.
\<close>

section \<open>Calling the daemon\<close>

datatype call_error = DaemonError error_payload | TransportError str

definition daemon_call :: "(request_frame \<Rightarrow> str + bytes) \<Rightarrow> (bytes \<Rightarrow> str + response) \<Rightarrow> str
    \<Rightarrow> io_error + (bytes \<Rightarrow> bytes) \<Rightarrow> nat \<Rightarrow> str \<Rightarrow> request \<Rightarrow> (call_error + response_data) \<times> nat" where
  "daemon_call enc dec endpoint_path connected_to request_id client_name req =
     (case connected_to of
        Inl _ \<Rightarrow> (Inl (TransportError (''cannot connect to '' @ endpoint_path @ ''; start aisshd first'')), request_id)
      | Inr peer \<Rightarrow>
        (let id2 = wrapping_add request_id 1 in
         case write_frame enc \<lparr>rf_request_id = request_id, rf_request = Handshake PROTOCOL_VERSION client_name\<rparr> of
           Inl e \<Rightarrow> (Inl (TransportError (io_message e)), id2)
         | Inr w1 \<Rightarrow>
           (case read_frame dec (peer w1) of
              (Inl e, _) \<Rightarrow> (Inl (TransportError (io_message e)), id2)
            | (Inr handshake, rest) \<Rightarrow>
              (case re_result handshake of
                 Inl e \<Rightarrow> (Inl (DaemonError e), id2)
               | Inr _ \<Rightarrow>
                 (let id3 = wrapping_add id2 1 in
                  case write_frame enc \<lparr>rf_request_id = id2, rf_request = req\<rparr> of
                    Inl e \<Rightarrow> (Inl (TransportError (io_message e)), id3)
                  | Inr w2 \<Rightarrow>
                    (case fst (read_frame dec (drop (length (peer w1) - length rest) (peer (w1 @ w2)))) of
                       Inl e \<Rightarrow> (Inl (TransportError (io_message e)), id3)
                     | Inr answer_frame \<Rightarrow> (map_err DaemonError (re_result answer_frame), id3)))))))"

fun public_error :: "call_error \<Rightarrow> json" where
  "public_error (DaemonError e) = jobject
     [(''code'', JStr (ep_code e)), (''message'', JStr (ep_message e)), (''retryable'', JBool (ep_retryable e))]"
| "public_error (TransportError e) = jobject
     [(''code'', JStr ''DAEMON_UNAVAILABLE''), (''message'', JStr e), (''retryable'', JBool True)]"

section \<open>A call reaches the daemon and comes back\<close>

text \<open>What the model of the daemon sends when it has received some bytes.\<close>

definition daemon_peer :: "('s, 'l) platform \<Rightarrow> (bytes \<Rightarrow> str + request_frame) \<Rightarrow> (response \<Rightarrow> str + bytes)
    \<Rightarrow> moment list \<Rightarrow> ('s, 'l) host \<Rightarrow> bytes \<Rightarrow> bytes" where
  "daemon_peer pl dec enc mos h sent = fst (snd (serve_client pl dec enc ''unknown'' mos sent h))"

lemma read_frame_empty: "read_frame dec [] = (Inl (io_err UnexpectedEof ''early eof''), [])"
  by (simp add: read_frame_def)

lemma serve_client_nothing: "serve_client pl dec enc cn (mo # mos) [] h = (Ended, [], h)"
  by (simp add: read_frame_empty io_err_def)

lemma serve_client_one:
  assumes "read_frame dec stream = (Inr f, rest)" "dispatch pl mo cn (rf_request f) h = (Some result, h1)"
    and "write_frame enc \<lparr>re_request_id = rf_request_id f, re_result = result\<rparr> = Inr out"
  shows "fst (snd (serve_client pl dec enc cn (mo # mos) stream h)) =
      out @ (if rf_request f = DaemonShutdown then []
             else fst (snd (serve_client pl dec enc (client_after cn (rf_request f)) mos rest h1)))"
    "snd (snd (serve_client pl dec enc cn (mo # mos) stream h)) =
      (if rf_request f = DaemonShutdown then h1
       else snd (snd (serve_client pl dec enc (client_after cn (rf_request f)) mos rest h1)))"
  using assms by (simp_all split: prod.split)

context peers
begin

lemma exchange:
  assumes sent1: "write_frame enc_request \<lparr>rf_request_id = n, rf_request = Handshake PROTOCOL_VERSION cn\<rparr> = Inr w1"
    and sent2: "write_frame enc_request \<lparr>rf_request_id = wrapping_add n 1, rf_request = req\<rparr> = Inr w2"
    and back1: "write_frame enc_response \<lparr>re_request_id = n, re_result = Inr (R_Handshake PROTOCOL_VERSION (pl_version pl))\<rparr> = Inr o1"
    and run: "dispatch pl mo cn req h = (Some result, h')"
    and back2: "write_frame enc_response \<lparr>re_request_id = wrapping_add n 1, re_result = result\<rparr> = Inr o2"
  shows "fst (daemon_call enc_request dec_response ep (Inr (daemon_peer pl dec_request enc_response [mo0, mo, mo1] h)) n cn req)
      = map_err DaemonError result
    \<and> snd (snd (serve_client pl dec_request enc_response ''unknown'' [mo0, mo, mo1] (w1 @ w2) h)) = h'"
proof -
  note rq = requests.read_back and rs = responses.read_back
  let ?f1 = "\<lparr>rf_request_id = n, rf_request = Handshake PROTOCOL_VERSION cn\<rparr>"
  let ?f2 = "\<lparr>rf_request_id = wrapping_add n 1, rf_request = req\<rparr>"
  have disp1: "dispatch pl mo0 ''unknown'' (rf_request ?f1) h = (Some (Inr (R_Handshake PROTOCOL_VERSION (pl_version pl))), h)"
    by simp
  have one: "fst (snd (serve_client pl dec_request enc_response ''unknown'' [mo0, mo, mo1] (w1 @ rest) h))
        = o1 @ fst (snd (serve_client pl dec_request enc_response cn [mo, mo1] rest h))"
      "snd (snd (serve_client pl dec_request enc_response ''unknown'' [mo0, mo, mo1] (w1 @ rest) h))
        = snd (snd (serve_client pl dec_request enc_response cn [mo, mo1] rest h))" for rest
    using serve_client_one[OF rq[OF sent1] disp1, where enc = enc_response and out = o1 and mos = "[mo, mo1]"] back1
    by (simp_all del: serve_client.simps)
  have peer1: "daemon_peer pl dec_request enc_response [mo0, mo, mo1] h w1 = o1"
    using one(1)[of "[]"] serve_client_nothing[of pl dec_request enc_response cn mo "[mo1]" h]
    by (simp add: daemon_peer_def del: serve_client.simps)
  have "read_frame dec_request w2 = (Inr ?f2, [])" using rq[OF sent2, of "[]"] by simp
  note step = serve_client_one[OF this, of pl mo cn h result h' enc_response o2 "[mo1]"]
  have two: "fst (snd (serve_client pl dec_request enc_response cn [mo, mo1] w2 h)) = o2" "snd (snd (serve_client pl dec_request enc_response cn [mo, mo1] w2 h)) = h'"
    using step run back2 serve_client_nothing[of pl dec_request enc_response _ mo1 "[]" h'] by (simp_all del: serve_client.simps)
  have peer2: "daemon_peer pl dec_request enc_response [mo0, mo, mo1] h (w1 @ w2) = o1 @ o2"
    using one(1)[of w2] two(1) by (simp add: daemon_peer_def)
  have after: "snd (snd (serve_client pl dec_request enc_response ''unknown'' [mo0, mo, mo1] (w1 @ w2) h)) = h'"
    using one(2)[of w2] two(2) by simp
  show ?thesis
    using rs[OF back1, of "[]"] rs[OF back2, of "[]"] after
    by (simp add: daemon_call_def Let_def sent1 sent2[unfolded One_nat_def] peer1 peer2 del: serve_client.simps)
qed

end

text \<open>
  C12: A tool call of the MCP server gets exactly what the daemon decides: run against the daemon's
  request loop, the exchange of a handshake and a request returns the result of dispatching that
  request under the name of the MCP client, an error of the daemon with its own retryable flag
  included, and leaves the daemon in the state that dispatching it leaves. The two sides' codecs
  are assumed to agree and the four frames to fit.
\<close>

theorem call_returns_dispatch:
  assumes requests: "\<And>f body. enc_request f = Inr body \<Longrightarrow> dec body = Inr f"
    and responses: "\<And>x body. enc x = Inr body \<Longrightarrow> dec_response body = Inr x"
    and sent1: "write_frame enc_request \<lparr>rf_request_id = n, rf_request = Handshake PROTOCOL_VERSION cn\<rparr> = Inr w1"
    and sent2: "write_frame enc_request \<lparr>rf_request_id = wrapping_add n 1, rf_request = req\<rparr> = Inr w2"
    and back1: "write_frame enc \<lparr>re_request_id = n, re_result = Inr (R_Handshake PROTOCOL_VERSION (pl_version pl))\<rparr> = Inr o1"
    and run: "dispatch pl mo cn req h = (Some result, h')"
    and back2: "write_frame enc \<lparr>re_request_id = wrapping_add n 1, re_result = result\<rparr> = Inr o2"
  shows "fst (daemon_call enc_request dec_response ep (Inr (daemon_peer pl dec enc [mo0, mo, mo1] h)) n cn req)
      = map_err DaemonError result
    \<and> snd (snd (serve_client pl dec enc ''unknown'' [mo0, mo, mo1] (w1 @ w2) h)) = h'"
  by (rule peers.exchange[OF peersI[OF requests responses] sent1 sent2 back1 run back2])

text \<open>The codecs of the daemon's example, extended by a byte for the handshake and its answer.\<close>

definition pair_request :: "request_frame \<Rightarrow> str + bytes" where
  "pair_request f = (if rf_request_id f < 256
     then if rf_request f = TargetsList then Inr [char_of (rf_request_id f)]
          else if rf_request f = Handshake PROTOCOL_VERSION ''m'' then Inr [char_of (rf_request_id f), CHR ''h'']
          else Inl ''unknown''
     else Inl ''unknown'')"

definition pair_request_back :: "bytes \<Rightarrow> str + request_frame" where
  "pair_request_back b = Inr \<lparr>rf_request_id = bval (hd b),
     rf_request = (if tl b = [] then TargetsList else Handshake PROTOCOL_VERSION ''m'')\<rparr>"

definition pair_response :: "response \<Rightarrow> str + bytes" where
  "pair_response r = (if re_request_id r < 256
     then if re_result r = Inr (R_Targets []) then Inr [char_of (re_request_id r)]
          else if re_result r = Inr (R_Handshake PROTOCOL_VERSION ''1'') then Inr [char_of (re_request_id r), CHR ''h'']
          else Inl ''unknown''
     else Inl ''unknown'')"

definition pair_response_back :: "bytes \<Rightarrow> str + response" where
  "pair_response_back b = Inr \<lparr>re_request_id = bval (hd b),
     re_result = Inr (if tl b = [] then R_Targets [] else R_Handshake PROTOCOL_VERSION ''1'')\<rparr>"

interpretation pair: peers pair_request pair_request_back pair_response pair_response_back
  by (rule peersI)
    (auto simp: pair_request_def pair_request_back_def pair_response_def pair_response_back_def bval_def
      split: if_splits intro: request_frame.equality response.equality)

theorem call_returns_dispatch_witness:
  "fst (daemon_call pair_request pair_response_back ''/run/s''
      (Inr (daemon_peer run_platform pair_request_back pair_response [run_moment, run_moment, run_moment] no_targets_host))
      1 ''m'' TargetsList) = Inr (R_Targets [])"
proof -
  have two: "wrapping_add 1 1 = 2" by (simp add: wrapping_add_def u64_mod_def)
  obtain w1 w2 o1 o2 where frames:
      "write_frame pair_request \<lparr>rf_request_id = 1, rf_request = Handshake PROTOCOL_VERSION ''m''\<rparr> = Inr w1"
      "write_frame pair_request \<lparr>rf_request_id = wrapping_add 1 1, rf_request = TargetsList\<rparr> = Inr w2"
      "write_frame pair_response \<lparr>re_request_id = 1,
         re_result = Inr (R_Handshake PROTOCOL_VERSION (pl_version run_platform))\<rparr> = Inr o1"
      "write_frame pair_response \<lparr>re_request_id = wrapping_add 1 1, re_result = Inr (R_Targets [])\<rparr> = Inr o2"
    unfolding two by (simp add: write_frame_def pair_request_def pair_response_def MAX_FRAME_BYTES_def run_platform_def)
  have disp: "dispatch run_platform run_moment ''m'' TargetsList no_targets_host = (Some (Inr (R_Targets [])), no_targets_host)"
    by (simp add: answer_def targets_def no_targets_host_def run_host_def)
  from call_returns_dispatch[OF pair.requests.decode pair.responses.decode frames(1,2,3) disp frames(4)] show ?thesis by simp
qed

section \<open>File content reaches the client\<close>

lemma file_read_utf8:
  assumes "file_read re w w2 i path n sudo s m = (Inr info, m')"
  shows "fc_is_utf8 info = valid_utf8 (fc_data info)"
  using assms by (auto simp: file_read_def Let_def split: sum.splits prod.splits if_splits)

text \<open>
  The bytes that the daemon read from a remote file reach the MCP client unchanged, whatever
  detail and encoding it asked for: either the payload has a text, and that text is the content
  byte by byte, or it has the base64 form of the content.
\<close>

theorem file_content_exact:
  assumes "file_read re w w2 i path n sudo s m = (Inr info, m')"
    and "public_json me limit (R_FileContent info) sh ds = (payload, ds')"
  shows "\<exists>body. get payload ''data'' = Some body
    \<and> (case get_str body ''text'' of
         Some t \<Rightarrow> t = fc_data info
       | None \<Rightarrow> get_str body ''data_base64'' = Some (me_base64_encode me (fc_data info)))"
proof -
  have text_ok: "from_utf8_lossy (fc_data info) = fc_data info" if "fc_is_utf8 info"
    using that file_read_utf8[OF assms(1)] from_utf8_lossy_valid by simp
  have payload: "get payload ''data'' = Some (file_content_json me info (sh_detail sh) (sh_encoding sh))"
    using assms(2) by (auto simp: enveloped_def)
  then show ?thesis
    using text_ok
    by (cases "sh_encoding sh"; cases "fc_is_utf8 info"; cases "is_compact (sh_detail sh)")
      (auto simp: file_content_json_def Let_def get_str_def map_of_entries_def)
qed

theorem file_content_exact_witness:
  "\<exists>info m' body. file_read mem_remote (run_world ''x'') (run_world ''y'') ''u'' ''/a'' 10 False
       ((\<lambda>_. None)(''/a'' := Some ''hi'')) run_ready = (Inr info, m')
     \<and> get (fst (public_json plain_env None (R_FileContent info)
          \<lparr>sh_detail = Compact, sh_encoding = EncText, sh_after_sequence = 0\<rparr> Map.empty)) ''data'' = Some body
     \<and> get_str body ''text'' = Some ''hi''"
proof -
  let ?s = "(\<lambda>_. None)(''/a'' := Some ''hi'') :: str \<Rightarrow> bytes option"
  let ?sh = "\<lparr>sh_detail = Compact, sh_encoding = EncText, sh_after_sequence = 0\<rparr>"
  have conn: "connected (run_world ''x'') ''u'' run_ready = (Inr 7, run_ready)"
    "sftp_channel mem_remote (run_world ''y'') ''u'' run_ready = (Inr 7, run_ready)"
    by (simp_all add: connected_def sftp_channel_def the_runtime_def run_ready_session connection_for_def
        mem_remote_def run_world_def)
  have limit: "clamp 10 1 MAX_READ_BYTES = 10" by (simp add: clamp_def MAX_READ_BYTES_def)
  have chunk: "read_capped (re_sftp mem_remote) ''/a'' 10 ?s = Inr (''hi'', 2, False)"
    by (simp add: read_capped_def mem_sftp_def mem_remote_def)
  have utf8: "valid_utf8 ''hi''" by (simp add: valid_utf8_def from_utf8_def from_utf8_at.simps bval_def)
  let ?info = "\<lparr>fc_path = ''/a'', fc_size = 2, fc_bytes_returned = 2, fc_truncated = False, fc_is_utf8 = True,
    fc_sha256 = None, fc_data = ''hi''\<rparr>"
  have run: "file_read mem_remote (run_world ''x'') (run_world ''y'') ''u'' ''/a'' 10 False ?s run_ready = (Inr ?info, run_ready)"
    using conn chunk utf8 limit by (simp add: file_read_def Let_def)
  obtain body where body: "get (fst (public_json plain_env None (R_FileContent ?info) ?sh Map.empty)) ''data'' = Some body"
      "case get_str body ''text'' of Some t \<Rightarrow> t = fc_data ?info
        | None \<Rightarrow> get_str body ''data_base64'' = Some (me_base64_encode plain_env (fc_data ?info))"
    using file_content_exact[OF run, of plain_env None ?sh Map.empty] by force
  moreover have "get_str body ''text'' = Some ''hi''"
    using body by (auto simp: enveloped_def file_content_json_def Let_def get_str_def map_of_entries_def is_compact_def
        from_utf8_lossy_valid[OF utf8])
  ultimately show ?thesis using run by blast
qed

end
