(* ===== verification/Mcp_Main.thy ===== *)
theory Mcp_Main
  imports Mcp_Server
begin

text \<open>
  The \<open>main\<close> of the MCP server (\<open>apps/mcp-server/src/main.rs\<close>): the loop that reads a line of JSON-RPC
  from standard input, calls the daemon when the line asks for a tool, and writes at most one
  line to standard output. Lines, and how writing an answer fails when it does, come from the
  outside, one record per round; the parser and the printer of JSON are parameters.
\<close>

section \<open>One line of input\<close>

definition initialize_result :: "mcp_env \<Rightarrow> json \<Rightarrow> json \<Rightarrow> json" where
  "initialize_result me message i =
     jobject [(''jsonrpc'', JStr ''2.0''), (''id'', i),
       (''result'', jobject
          [(''protocolVersion'',
              JStr (unwrap_or (Option.bind (pointer message [''params'', ''protocolVersion'']) as_str) ''2025-03-26'')),
           (''capabilities'', jobject [(''tools'', jobject [(''listChanged'', JBool False)])]),
           (''serverInfo'', jobject [(''name'', JStr ''aissh-mcp''), (''version'', JStr (me_version me))])])]"

text \<open>
  What the server carries from line to line: the name its client goes by, the text decoders, and
  what the exchanges with the daemon depend on (the counter of request identifiers and the daemon).
\<close>

record 'c mcp_state =
  sv_client_name :: str
  sv_decoders :: decoders
  sv_calls :: 'c

text \<open>
  A tool call: the payload, whether it is an error, and the state afterwards. The argument \<open>call\<close> is
  the exchange with the daemon under a client name, and \<open>limit\<close> the recording limit of the
  configuration when that can be loaded.
\<close>

definition call_tool :: "mcp_env \<Rightarrow> nat option \<Rightarrow> (str \<Rightarrow> request \<Rightarrow> 'c \<Rightarrow> (call_error + response_data) \<times> 'c)
    \<Rightarrow> str \<Rightarrow> json \<Rightarrow> 'c mcp_state \<Rightarrow> json \<times> bool \<times> 'c mcp_state" where
  "call_tool me limit call name args st =
     (case and_then (shaping_parse me args) (\<lambda>sh. and_then (tool_request me name args) (\<lambda>r. Inr (sh, r))) of
        Inl e \<Rightarrow>
          (jobject [(''code'', JStr ''INVALID_ARGUMENT''), (''message'', JStr e), (''retryable'', JBool False)], True, st)
      | Inr (sh, r) \<Rightarrow>
        (case call (sv_client_name st) r (sv_calls st) of
           (Inr d, c) \<Rightarrow> (case public_json me limit d sh (sv_decoders st) of
              (payload, ds) \<Rightarrow> (payload, False, st\<lparr>sv_decoders := ds, sv_calls := c\<rparr>))
         | (Inl e, c) \<Rightarrow> (public_error e, True, st\<lparr>sv_calls := c\<rparr>)))"

definition mcp_line :: "mcp_env \<Rightarrow> (str \<Rightarrow> str + json) \<Rightarrow> nat option
    \<Rightarrow> (str \<Rightarrow> request \<Rightarrow> 'c \<Rightarrow> (call_error + response_data) \<times> 'c) \<Rightarrow> str \<Rightarrow> 'c mcp_state
    \<Rightarrow> json option \<times> 'c mcp_state" where
  "mcp_line me from_str limit call line st =
     (case from_str line of
        Inl e \<Rightarrow> (Some (rpc_error JNull 32700 e), st)
      | Inr message \<Rightarrow>
        (case get message ''id'' of
           None \<Rightarrow> (None, st)
         | Some i \<Rightarrow>
           (let meth = unwrap_or (get_str message ''method'') []
            in if meth = ''initialize'' then
                 (Some (initialize_result me message i),
                  st\<lparr>sv_client_name := unwrap_or (Option.bind
                       (pointer message [''params'', ''clientInfo'', ''name'']) as_str) (sv_client_name st)\<rparr>)
               else if meth = ''ping'' then
                 (Some (jobject [(''jsonrpc'', JStr ''2.0''), (''id'', i), (''result'', jobject [])]), st)
               else if meth = ''tools/list'' then
                 (Some (jobject [(''jsonrpc'', JStr ''2.0''), (''id'', i),
                          (''result'', jobject [(''tools'', JArr tools)])]), st)
               else if meth = ''tools/call'' then
                 (case call_tool me limit call
                         (unwrap_or (Option.bind (pointer message [''params'', ''name'']) as_str) [])
                         (unwrap_or (pointer message [''params'', ''arguments'']) (jobject [])) st of
                    (payload, is_error, st') \<Rightarrow> (Some (tool_result me i payload is_error), st'))
               else (Some (rpc_error i 32601 (''method '' @ me_debug me meth @ '' not found'')), st))))"

section \<open>The loop\<close>

definition NEWLINE :: char where
  "NEWLINE = CHR 0x0A"

record mcp_round =
  in_line :: str
  in_limit :: "nat option"
  in_write :: "(nat \<times> io_error) option"

text \<open>
  \<open>write_json\<close>: the answer and a newline. When writing fails, some bytes of it have been written.
\<close>

definition write_json :: "(json \<Rightarrow> str + str) \<Rightarrow> (nat \<times> io_error) option \<Rightarrow> json \<Rightarrow> (str + unit) \<times> bytes" where
  "write_json to_string failure v =
     (case to_string v of
        Inl e \<Rightarrow> (Inl e, [])
      | Inr t \<Rightarrow> (case failure of
           None \<Rightarrow> (Inr (), t @ [NEWLINE])
         | Some (n, e) \<Rightarrow> (Inl (io_message e), take n (t @ [NEWLINE]))))"

datatype mcp_end = NoPaths config_error | InputEnded | InputFailed io_error | OutputFailed str

fun mcp_loop :: "mcp_env \<Rightarrow> (str \<Rightarrow> str + json) \<Rightarrow> (json \<Rightarrow> str + str)
    \<Rightarrow> (str \<Rightarrow> request \<Rightarrow> 'c \<Rightarrow> (call_error + response_data) \<times> 'c) \<Rightarrow> io_error option \<Rightarrow> mcp_round list
    \<Rightarrow> 'c mcp_state \<Rightarrow> mcp_end \<times> bytes \<times> 'c mcp_state" where
  "mcp_loop me from_str to_string call input_error [] st =
     ((case input_error of None \<Rightarrow> InputEnded | Some e \<Rightarrow> InputFailed e), [], st)"
| "mcp_loop me from_str to_string call input_error (r # rs) st =
     (case mcp_line me from_str (in_limit r) call (in_line r) st of
        (None, st1) \<Rightarrow> mcp_loop me from_str to_string call input_error rs st1
      | (Some v, st1) \<Rightarrow>
          (case write_json to_string (in_write r) v of
             (Inl e, out) \<Rightarrow> (OutputFailed e, out, st1)
           | (Inr _, out) \<Rightarrow>
               (case mcp_loop me from_str to_string call input_error rs st1 of
                  (how, out', st2) \<Rightarrow> (how, out @ out', st2))))"

definition mcp_main :: "mcp_env \<Rightarrow> (str \<Rightarrow> str + json) \<Rightarrow> (json \<Rightarrow> str + str)
    \<Rightarrow> (paths \<Rightarrow> str \<Rightarrow> request \<Rightarrow> 'c \<Rightarrow> (call_error + response_data) \<times> 'c) \<Rightarrow> str option \<Rightarrow> str option
    \<Rightarrow> io_error option \<Rightarrow> mcp_round list \<Rightarrow> 'c \<Rightarrow> mcp_end \<times> bytes" where
  "mcp_main me from_str to_string call root home input_error rs c =
     (case discover root home of
        Inl e \<Rightarrow> (NoPaths e, [])
      | Inr ps \<Rightarrow>
          (case mcp_loop me from_str to_string (call ps) input_error rs
                  \<lparr>sv_client_name = ''MCP client'', sv_decoders = Map.empty, sv_calls = c\<rparr> of
             (how, out, _) \<Rightarrow> (how, out)))"

section \<open>Interface: messages as lines\<close>

text \<open>
  A client reads the output line by line. When no message is printed with a newline inside, a
  parser that reads back what the printer wrote makes the output a framed byte stream as well.
\<close>

definition put_line :: "('a \<Rightarrow> str + bytes) \<Rightarrow> 'a \<Rightarrow> str + bytes" where
  "put_line enc x = map_sum id (\<lambda>t. t @ [NEWLINE]) (enc x)"

definition get_line :: "(bytes \<Rightarrow> str + 'a) \<Rightarrow> bytes \<Rightarrow> (str + 'a) \<times> bytes" where
  "get_line dec s =
     (case dropWhile (\<lambda>c. c \<noteq> NEWLINE) s of
        [] \<Rightarrow> (Inl ''no complete line'', s)
      | _ # rest \<Rightarrow> (dec (takeWhile (\<lambda>c. c \<noteq> NEWLINE) s), rest))"

fun get_lines :: "(bytes \<Rightarrow> str + 'a) \<Rightarrow> nat \<Rightarrow> bytes \<Rightarrow> 'a list \<times> bytes" where
  "get_lines dec 0 s = ([], s)"
| "get_lines dec (Suc n) s =
     (case get_line dec s of
        (Inl e, s') \<Rightarrow> ([], s')
      | (Inr x, s') \<Rightarrow> (case get_lines dec n s' of (xs, t) \<Rightarrow> (x # xs, t)))"

locale line_codec = codec +
  assumes one_line: "enc x = Inr body \<Longrightarrow> NEWLINE \<notin> set body"
begin

lemma line_read_back:
  assumes "put_line enc x = Inr w"
  shows "get_line dec (w @ rest) = (Inr x, rest)"
proof -
  obtain t where t: "enc x = Inr t" "w = t @ [NEWLINE]"
    using assms by (cases "enc x") (auto simp: put_line_def)
  then have "c \<noteq> NEWLINE" if "c \<in> set t" for c using one_line that by blast
  then have "takeWhile (\<lambda>c. c \<noteq> NEWLINE) (w @ rest) = t" "dropWhile (\<lambda>c. c \<noteq> NEWLINE) (w @ rest) = NEWLINE # rest"
    using t(2) by (simp_all add: takeWhile_append2 dropWhile_append2)
  then show ?thesis using decode[OF t(1)] by (simp add: get_line_def)
qed

end

sublocale line_codec \<subseteq> text_lines: framing "put_line enc" "get_line dec"
  by unfold_locales (rule line_read_back)

context line_codec
begin

lemma lines_read_back:
  "list_all2 (\<lambda>x w. put_line enc x = Inr w) xs ws \<Longrightarrow>
    get_lines dec (length xs) (concat ws @ rest) = (xs, rest)"
  by (rule text_lines.many_of_put) (simp_all add: split_beta)

end

section \<open>Every request is answered once, in order\<close>

text \<open>
  The identifier that the answer to a line must carry: none for a notification, null for a line
  that is not JSON; and what an answer is.
\<close>

definition expected_id :: "(str \<Rightarrow> str + json) \<Rightarrow> str \<Rightarrow> json option" where
  "expected_id from_str line = (case from_str line of Inl e \<Rightarrow> Some JNull | Inr message \<Rightarrow> get message ''id'')"

definition answers_id :: "json \<Rightarrow> json \<Rightarrow> bool" where
  "answers_id v i \<longleftrightarrow> get v ''jsonrpc'' = Some (JStr ''2.0'') \<and> get v ''id'' = Some i
     \<and> (get v ''result'' = None \<longleftrightarrow> get v ''error'' \<noteq> None)"

definition expected_ids :: "(str \<Rightarrow> str + json) \<Rightarrow> mcp_round list \<Rightarrow> json list" where
  "expected_ids from_str rs = List.map_filter (\<lambda>r. expected_id from_str (in_line r)) rs"

lemma line_answered:
  assumes "mcp_line me from_str limit call line st = (r, st')"
  shows "case expected_id from_str line of
      None \<Rightarrow> r = None \<and> st' = st
    | Some i \<Rightarrow> \<exists>v. r = Some v \<and> answers_id v i"
proof (cases "from_str line")
  case (Inr message)
  then show ?thesis
    using assms
    by (cases "get message ''id''"; cases "get_str message ''method''")
      (auto simp: mcp_line_def Let_def rpc_error_def tool_result_def initialize_result_def expected_id_def answers_id_def
        split: prod.splits if_splits)
qed (use assms in \<open>auto simp: mcp_line_def rpc_error_def expected_id_def answers_id_def\<close>)

text \<open>What the loop has written: whole answers, and a piece of one more when writing failed.\<close>

lemma mcp_loop_output:
  assumes "mcp_loop me from_str to_string call input_error rs st = (how, out, st')"
  shows "\<exists>vs ws torn. list_all2 (\<lambda>v w. put_line to_string v = Inr w) vs ws \<and> out = concat ws @ torn
    \<and> list_all2 answers_id vs (take (length vs) (expected_ids from_str rs))
    \<and> (if \<exists>e. how = OutputFailed e then length vs < length (expected_ids from_str rs)
       else torn = [] \<and> length vs = length (expected_ids from_str rs))"
  using assms
proof (induction rs arbitrary: st how out st')
  case Nil
  then show ?case
    by (intro exI[of _ "[]"]) (auto simp: expected_ids_def map_filter_def split: option.splits)
next
  case (Cons r rs)
  obtain a st1 where line: "mcp_line me from_str (in_limit r) call (in_line r) st = (a, st1)" by fastforce
  note answered = line_answered[OF line]
  show ?case
  proof (cases "expected_id from_str (in_line r)")
    case None
    then have rest: "mcp_loop me from_str to_string call input_error rs st1 = (how, out, st')"
      and ids: "expected_ids from_str (r # rs) = expected_ids from_str rs"
      using Cons.prems line answered by (simp_all add: expected_ids_def map_filter_def)
    show ?thesis unfolding ids by (rule Cons.IH[OF rest])
  next
    case (Some i)
    then obtain v where v: "a = Some v" "answers_id v i" using answered by auto
    have ids: "expected_ids from_str (r # rs) = i # expected_ids from_str rs"
      using Some by (simp add: expected_ids_def map_filter_def)
    obtain w out1 where wr: "write_json to_string (in_write r) v = (w, out1)" by fastforce
    show ?thesis
    proof (cases w)
      case (Inl e)
      then have "how = OutputFailed e" "out = out1" using Cons.prems line v wr by simp_all
      then show ?thesis using ids by (intro exI[of _ "[]"] exI[of _ "[]"] exI[of _ out1]) simp
    next
      case (Inr u)
      obtain out2 where rest: "mcp_loop me from_str to_string call input_error rs st1 = (how, out2, st')" "out = out1 @ out2"
        using Cons.prems line v wr Inr by (auto split: prod.splits)
      have "put_line to_string v = Inr out1"
        using wr Inr by (auto simp: write_json_def put_line_def split: sum.splits option.splits)
      moreover obtain vs ws torn where "list_all2 (\<lambda>v w. put_line to_string v = Inr w) vs ws" "out2 = concat ws @ torn"
        "list_all2 answers_id vs (take (length vs) (expected_ids from_str rs))"
        "if \<exists>e. how = OutputFailed e then length vs < length (expected_ids from_str rs)
         else torn = [] \<and> length vs = length (expected_ids from_str rs)"
        using Cons.IH[OF rest(1)] by blast
      ultimately show ?thesis
        using v(2) rest(2) ids
        by (intro exI[of _ "v # vs"] exI[of _ "out1 # ws"] exI[of _ torn]) (simp split: if_splits)
    qed
  qed
qed

text \<open>
  C11: The MCP server answers in order, one line each. Read line by line, its output is one object per
  request, in the order of the requests: each carries the identifier of its request, or null for
  a line that was not JSON, and either a result or an error; a notification gets none. When the
  input ends nothing is missing and nothing else was written; when writing fails the answers
  before the failure are complete. The printer is assumed to write one line that the parser reads
  back.
\<close>

theorem mcp_answers_in_order:
  assumes reads_back: "\<And>v t. to_string v = Inr t \<Longrightarrow> from_str t = Inr v"
    and one_line: "\<And>v t. to_string v = Inr t \<Longrightarrow> NEWLINE \<notin> set t"
    and run: "mcp_main me from_str to_string call root home input_error rs c = (how, out)"
    and started: "discover root home = Inr ps"
  shows "\<exists>vs torn. get_lines from_str (length vs) out = (vs, torn)
    \<and> list_all2 answers_id vs (take (length vs) (expected_ids from_str rs))
    \<and> (if \<exists>e. how = OutputFailed e then length vs < length (expected_ids from_str rs)
       else torn = [] \<and> length vs = length (expected_ids from_str rs))"
proof -
  have "line_codec to_string from_str"
    by (intro line_codec.intro codec.intro line_codec_axioms.intro) (fact reads_back, fact one_line)
  note lines = line_codec.lines_read_back[OF this]
  obtain st' where "mcp_loop me from_str to_string (call ps) input_error rs
      \<lparr>sv_client_name = ''MCP client'', sv_decoders = Map.empty, sv_calls = c\<rparr> = (how, out, st')"
    using run started by (auto simp: mcp_main_def split: prod.splits)
  from mcp_loop_output[OF this] show ?thesis using lines by metis
qed

text \<open>A client that sends one ping, one notification and one line that is not JSON.\<close>

definition pong :: "json \<Rightarrow> json" where
  "pong i = jobject [(''jsonrpc'', JStr ''2.0''), (''id'', i), (''result'', jobject [])]"

definition ping_parser :: "str \<Rightarrow> str + json" where
  "ping_parser line =
     (if line = ''ping'' then Inr (jobject [(''id'', JNat 1), (''method'', JStr ''ping'')])
      else if line = ''note'' then Inr (jobject [(''method'', JStr ''ping'')])
      else if line = ''pong'' then Inr (pong (JNat 1))
      else if line = ''error'' then Inr (rpc_error JNull 32700 ''bad'')
      else Inl ''bad'')"

definition ping_printer :: "json \<Rightarrow> str + str" where
  "ping_printer v =
     (if v = pong (JNat 1) then Inr ''pong''
      else if v = rpc_error JNull 32700 ''bad'' then Inr ''error'' else Inl ''unknown'')"

definition ping_rounds :: "mcp_round list" where
  "ping_rounds = map (\<lambda>l. \<lparr>in_line = l, in_limit = None, in_write = None\<rparr>) [''ping'', ''note'', ''oops'']"

interpretation ping: line_codec ping_printer ping_parser
  by unfold_locales (auto simp: ping_printer_def ping_parser_def NEWLINE_def split: if_splits)

lemma ping_answers: "rpc_error JNull 32700 ''bad'' \<noteq> pong (JNat 1)"
proof -
  have "get (rpc_error JNull 32700 ''bad'') ''id'' \<noteq> get (pong (JNat 1)) ''id''"
    by (simp add: rpc_error_def pong_def)
  then show ?thesis by metis
qed

lemma ping_run:
  "mcp_main plain_env ping_parser ping_printer (\<lambda>_ _ _ c. (Inl (TransportError []), c)) (Some ''/r'') None None
     ping_rounds () = (InputEnded, ''pong'' @ [NEWLINE] @ ''error'' @ [NEWLINE])"
  using ping_answers
  by (simp add: mcp_main_def discover_def ping_rounds_def mcp_line_def ping_parser_def write_json_def ping_printer_def
      pong_def get_defs Let_def)

theorem mcp_answers_in_order_witness:
  "\<exists>vs. get_lines ping_parser 2 (''pong'' @ [NEWLINE] @ ''error'' @ [NEWLINE]) = (vs, [])
    \<and> list_all2 answers_id vs [JNat 1, JNull]"
proof -
  have ids: "expected_ids ping_parser ping_rounds = [JNat 1, JNull]"
    by (simp add: expected_ids_def expected_id_def map_filter_def ping_rounds_def ping_parser_def)
  have start: "discover (Some ''/r'') None = Inr (under ''/r'')" by (simp add: discover_def)
  have line: "NEWLINE \<notin> set t" if "ping_printer v = Inr t" for v t by (rule ping.one_line[OF that])
  let ?out = "''pong'' @ [NEWLINE] @ ''error'' @ [NEWLINE]"
  have "\<exists>vs torn. get_lines ping_parser (length vs) ?out = (vs, torn)
    \<and> list_all2 answers_id vs (take (length vs) (expected_ids ping_parser ping_rounds))
    \<and> (if \<exists>e. InputEnded = OutputFailed e then length vs < length (expected_ids ping_parser ping_rounds)
       else torn = [] \<and> length vs = length (expected_ids ping_parser ping_rounds))"
    by (rule mcp_answers_in_order[OF _ _ ping_run start]) (rule ping.decode, assumption, rule line)
  moreover have "\<not> (\<exists>e. InputEnded = OutputFailed e)" by simp
  ultimately obtain vs torn where vs: "get_lines ping_parser (length vs) ?out = (vs, torn)" "torn = []"
      "list_all2 answers_id vs (take (length vs) [JNat 1, JNull])" "length vs = length [JNat 1, JNull]"
    unfolding ids by meson
  have "take (length vs) [JNat 1, JNull] = [JNat 1, JNull]" "length vs = 2" using vs(4) by simp_all
  then show ?thesis using vs(1-3) by metis
qed

end
