(* ===== verification/Desktop.thy ===== *)
theory Desktop
  imports Daemon
begin

text \<open>
  The logic of the desktop application (\<open>apps/desktop/src-tauri/src/main.rs\<close> and \<open>updates.rs\<close>)
  that is not drawing: its calls to the daemon, the configuration commands with their rollback,
  the installation of the bundled helpers, the decisions at start and exit, the entries of the
  tray menu and the update check. The windowing toolkit is represented by what the application
  asks of it, as lists of actions; the wording of dialogs is left out.
\<close>

section \<open>Calls\<close>

definition error_text :: "error_payload \<Rightarrow> str" where
  "error_text e = ep_code e @ '': '' @ ep_message e"

definition app_call :: "(request_frame \<Rightarrow> str + bytes) \<Rightarrow> (bytes \<Rightarrow> str + response)
    \<Rightarrow> io_error + (bytes \<Rightarrow> bytes) \<Rightarrow> nat \<Rightarrow> request \<Rightarrow> (str + response_data) \<times> nat" where
  "app_call enc dec connected_to request_id req =
     (case connected_to of
        Inl e \<Rightarrow> (Inl (''aisshd unavailable: '' @ io_message e), request_id)
      | Inr peer \<Rightarrow>
        (let id2 = wrapping_add request_id 1 in
         case write_frame enc \<lparr>rf_request_id = request_id,
                rf_request = Handshake PROTOCOL_VERSION ''AI SSH Menubar''\<rparr> of
           Inl e \<Rightarrow> (Inl (io_message e), id2)
         | Inr w1 \<Rightarrow>
           (case read_frame dec (peer w1) of
              (Inl e, _) \<Rightarrow> (Inl (io_message e), id2)
            | (Inr handshake, rest) \<Rightarrow>
              (case re_result handshake of
                 Inl e \<Rightarrow> (Inl (error_text e), id2)
               | Inr _ \<Rightarrow>
                 (let id3 = wrapping_add id2 1 in
                  case write_frame enc \<lparr>rf_request_id = id2, rf_request = req\<rparr> of
                    Inl e \<Rightarrow> (Inl (io_message e), id3)
                  | Inr w2 \<Rightarrow>
                    (case fst (read_frame dec (drop (length (peer w1) - length rest) (peer (w1 @ w2)))) of
                       Inl e \<Rightarrow> (Inl (io_message e), id3)
                     | Inr r \<Rightarrow> (map_err error_text (re_result r), id3)))))))"

text \<open>
  The commands of the window take the call as a function on the state of the daemon.
\<close>

type_synonym 'd caller = "request \<Rightarrow> 'd \<Rightarrow> (str + response_data) \<times> 'd"

definition sessions_command :: "'d caller \<Rightarrow> bool \<Rightarrow> 'd \<Rightarrow> (str + response_data) \<times> 'd" where
  "sessions_command call include_history d = call (SessionsList include_history) d"

definition targets_command :: "'d caller \<Rightarrow> 'd \<Rightarrow> (str + response_data) \<times> 'd" where
  "targets_command call d = call TargetsList d"

definition test_target :: "'d caller \<Rightarrow> str \<Rightarrow> 'd \<Rightarrow> (str + response_data) \<times> 'd" where
  "test_target call target_id d =
     (case call (SessionCreate target_id ''Menubar connection test'') d of
        (Inl e, d1) \<Rightarrow> (Inl e, d1)
      | (Inr created, d1) \<Rightarrow>
        (case created of
           R_Session info \<Rightarrow>
             (case call (SessionClose (si_id info)) d1 of
                (Inl e, d2) \<Rightarrow> (Inl e, d2)
              | (Inr _, d2) \<Rightarrow> (Inr created, d2))
         | _ \<Rightarrow> (Inr created, d1)))"

definition session_status_command :: "'d caller \<Rightarrow> str \<Rightarrow> 'd \<Rightarrow> (str + response_data) \<times> 'd" where
  "session_status_command call session_id d = call (SessionStatus session_id) d"

definition session_events :: "'d caller \<Rightarrow> str \<Rightarrow> nat \<Rightarrow> nat \<Rightarrow> 'd \<Rightarrow> (str + response_data) \<times> 'd" where
  "session_events call session_id after_sequence max_bytes d =
     call (ShellRead session_id after_sequence max_bytes 0) d"

section \<open>Configuration commands\<close>

record 'a autolaunch =
  al_is_enabled :: "'a \<Rightarrow> str + bool"
  al_enable :: "'a \<Rightarrow> (str + unit) \<times> 'a"
  al_disable :: "'a \<Rightarrow> (str + unit) \<times> 'a"

definition set_autostart :: "'a autolaunch \<Rightarrow> bool \<Rightarrow> 'a \<Rightarrow> (str + unit) \<times> 'a" where
  "set_autostart al enabled a =
     (case al_is_enabled al a of
        Inl e \<Rightarrow> (Inl e, a)
      | Inr is_enabled \<Rightarrow>
          if is_enabled = enabled then (Inr (), a)
          else if enabled then al_enable al a else al_disable al a)"

definition config_get :: "toml \<Rightarrow> (config_error \<Rightarrow> str) \<Rightarrow> paths \<Rightarrow> fsys \<Rightarrow> str + config" where
  "config_get tm display ps fs = map_err display (load tm ps fs)"

definition config_save :: "toml \<Rightarrow> (config_error \<Rightarrow> str) \<Rightarrow> paths \<Rightarrow> 'a autolaunch \<Rightarrow> 'd caller \<Rightarrow> config
    \<Rightarrow> fsys \<Rightarrow> 'a \<Rightarrow> 'd \<Rightarrow> (str + response_data) \<times> fsys \<times> 'a \<times> 'd" where
  "config_save tm display ps al call c fs a d =
     (case load tm ps fs of
        Inl e \<Rightarrow> (Inl (display e), fs, a, d)
      | Inr previous \<Rightarrow>
        (case save_atomic tm c ps fs of
           (Inl e, fs1) \<Rightarrow> (Inl (display e), fs1, a, d)
         | (Inr _, fs1) \<Rightarrow>
           (case set_autostart al (cf_launch_at_login c) a of
              (Inl e, a1) \<Rightarrow>
                (Inl (''cannot update launch at login: '' @ e), snd (save_atomic tm previous ps fs1),
                 snd (set_autostart al (cf_launch_at_login previous) a1), d)
            | (Inr _, a1) \<Rightarrow> (case call ReloadConfig d of (r, d1) \<Rightarrow> (r, fs1, a1, d1)))))"

definition retention_days :: "toml \<Rightarrow> (config_error \<Rightarrow> str) \<Rightarrow> paths \<Rightarrow> fsys \<Rightarrow> str + nat" where
  "retention_days tm display ps fs = map_err display (map_sum id cf_retention_days (load tm ps fs))"

definition set_retention_days :: "toml \<Rightarrow> (config_error \<Rightarrow> str) \<Rightarrow> paths \<Rightarrow> 'd caller \<Rightarrow> nat \<Rightarrow> fsys \<Rightarrow> 'd
    \<Rightarrow> (str + response_data) \<times> fsys \<times> 'd" where
  "set_retention_days tm display ps call days fs d =
     (if \<not> (1 \<le> days \<and> days \<le> 3650) then (Inl ''retention must be between 1 and 3650 days'', fs, d)
      else case load tm ps fs of
        Inl e \<Rightarrow> (Inl (display e), fs, d)
      | Inr c \<Rightarrow>
        (case save_atomic tm (c\<lparr>cf_retention_days := days\<rparr>) ps fs of
           (Inl e, fs1) \<Rightarrow> (Inl (display e), fs1, d)
         | (Inr _, fs1) \<Rightarrow> (case call ReloadConfig d of (r, d1) \<Rightarrow> (r, fs1, d1))))"

section \<open>Helpers\<close>

text \<open>
  The build a helper is looked up for: its target triple, the suffix of programs, and on macOS
  the architectures of the process, the native one first (elsewhere the list is empty).
\<close>

record build =
  bd_triple :: str
  bd_suffix :: str
  bd_arches :: "str list"

definition installed_helper_name :: "build \<Rightarrow> str \<Rightarrow> str" where
  "installed_helper_name b name = name @ bd_suffix b"

fun add_candidates :: "str \<Rightarrow> str list \<Rightarrow> str list \<Rightarrow> str list" where
  "add_candidates name [] cs = cs"
| "add_candidates name (arch # arches) cs =
     (let candidate = name @ ''-'' @ arch @ ''-apple-darwin''
      in add_candidates name arches (if List.member cs candidate then cs else cs @ [candidate]))"

definition helper_candidates :: "build \<Rightarrow> str \<Rightarrow> str list" where
  "helper_candidates b name =
     (let native = name @ ''-'' @ bd_triple b @ bd_suffix b
      in if bd_arches b = [] then [native]
         else add_candidates name (bd_arches b) [native, name @ ''-universal-apple-darwin''])"

definition is_file :: "fsys \<Rightarrow> str \<Rightarrow> bool" where
  "is_file fs p = (case fx_nodes fs p of Some (Reg _ _) \<Rightarrow> True | _ \<Rightarrow> False)"

definition comma_join :: "str list \<Rightarrow> str" where
  "comma_join xs = concat (if xs = [] then [] else hd xs # concat (map (\<lambda>x. ['', '', x]) (tl xs)))"

definition bundled_helper :: "build \<Rightarrow> str list \<Rightarrow> fsys \<Rightarrow> str \<Rightarrow> str + str" where
  "bundled_helper b directories fs name =
     (let candidates = helper_candidates b name in
      case find (is_file fs) (concat (map (\<lambda>d. map (join_path d) candidates) directories)) of
        Some p \<Rightarrow> Inr p
      | None \<Rightarrow> Inl (''bundled helper '' @ name @ '' was not found; looked for ['' @ comma_join candidates
                     @ ''] in ['' @ comma_join (map from_utf8_lossy directories) @ '']''))"

text \<open>\<open>fs::read\<close>, \<open>fs::copy\<close> (contents and mode; a failing copy may leave a part) and \<open>with_extension\<close>.\<close>

definition read_file :: "str \<Rightarrow> fsys \<Rightarrow> str + bytes" where
  "read_file p fs =
     (case fx_fault fs ReadText p of
        Some e \<Rightarrow> Inl e
      | None \<Rightarrow>
        (case fx_nodes fs p of
           None \<Rightarrow> Inl ''No such file or directory (os error 2)''
         | Some (Dir _) \<Rightarrow> Inl ''Is a directory (os error 21)''
         | Some (Reg _ d) \<Rightarrow> Inr d))"

definition copy_file :: "str \<Rightarrow> str \<Rightarrow> fsys \<Rightarrow> (str + unit) \<times> fsys" where
  "copy_file from to fs =
     (case read_file from fs of
        Inl e \<Rightarrow> (Inl e, fs)
      | Inr d \<Rightarrow>
        (case open_truncate to fs of
           (Inl e, fs1) \<Rightarrow> (Inl e, fs1)
         | (Inr _, fs1) \<Rightarrow>
           (case write_all to d fs1 of
              (Inl e, fs2) \<Rightarrow> (Inl e, fs2)
            | (Inr _, fs2) \<Rightarrow>
                (case fx_nodes fs from of
                   Some n \<Rightarrow> (Inr (), put_node to (Reg (node_mode n) d) fs2)
                 | None \<Rightarrow> (Inr (), fs2)))))"

definition with_extension :: "str \<Rightarrow> str \<Rightarrow> str" where
  "with_extension p ext =
     (let dir = (case rfind (CHR ''/'') p of None \<Rightarrow> [] | Some i \<Rightarrow> take (Suc i) p);
          name = drop (length dir) p;
          stem = (case rfind (CHR ''.'') name of Some (Suc i) \<Rightarrow> take (Suc i) name | _ \<Rightarrow> name)
      in dir @ stem @ ''.'' @ ext)"

definition restrict_helper :: "str \<Rightarrow> fsys \<Rightarrow> (str + unit) \<times> fsys" where
  "restrict_helper p fs = restrict p mode_700 fs"

definition replace_helper :: "str \<Rightarrow> str \<Rightarrow> fsys \<Rightarrow> (str + unit) \<times> fsys" where
  "replace_helper temp destination fs = rename_file temp destination fs"

text \<open>Whether the destination already has the bytes of the source; reading it may fail.\<close>

definition same_helper :: "str \<Rightarrow> str \<Rightarrow> fsys \<Rightarrow> str + bool" where
  "same_helper source destination fs =
     (if fx_nodes fs destination = None then Inr False
      else case read_file source fs of
        Inl e \<Rightarrow> Inl e
      | Inr d \<Rightarrow> (case read_file destination fs of Inl e \<Rightarrow> Inl e | Inr d' \<Rightarrow> Inr (d = d')))"

definition install_helper :: "str \<Rightarrow> str \<Rightarrow> fsys \<Rightarrow> (str + unit) \<times> fsys" where
  "install_helper source destination fs =
     (case same_helper source destination fs of
        Inl e \<Rightarrow> (Inl e, fs)
      | Inr True \<Rightarrow> restrict_helper destination fs
      | Inr False \<Rightarrow>
        (let temp = with_extension destination ''installing'' in
         case copy_file source temp fs of
           (Inl _, fs1) \<Rightarrow>
             (Inl (''cannot copy helper '' @ from_utf8_lossy source @ '' to '' @ from_utf8_lossy temp), fs1)
         | (Inr _, fs1) \<Rightarrow>
           (case restrict_helper temp fs1 of
              (Inl e, fs2) \<Rightarrow> (Inl e, fs2)
            | (Inr _, fs2) \<Rightarrow> replace_helper temp destination fs2)))"

fun install_bundled_helpers :: "build \<Rightarrow> str list \<Rightarrow> paths \<Rightarrow> str list \<Rightarrow> fsys \<Rightarrow> (str + unit) \<times> fsys" where
  "install_bundled_helpers b directories ps [] fs = (Inr (), fs)"
| "install_bundled_helpers b directories ps (name # names) fs =
     (let destination = join_path (pa_bin ps) (installed_helper_name b name) in
      case bundled_helper b directories fs name of
        Inr source \<Rightarrow>
          (case install_helper source destination fs of
             (Inl e, fs1) \<Rightarrow> (Inl e, fs1)
           | (Inr _, fs1) \<Rightarrow> install_bundled_helpers b directories ps names fs1)
      | Inl reason \<Rightarrow>
          if fx_nodes fs destination = None then (Inl reason, fs)
          else install_bundled_helpers b directories ps names fs)"

definition helper_names :: "str list" where
  "helper_names = [''aisshd'', ''aissh-mcp'']"

section \<open>Waiting for the daemon\<close>

definition daemon_ready :: "(request_frame \<Rightarrow> str + bytes) \<Rightarrow> (bytes \<Rightarrow> str + response) \<Rightarrow> bool
    \<Rightarrow> io_error + (bytes \<Rightarrow> bytes) \<Rightarrow> bool" where
  "daemon_ready enc dec timed_out connected_to \<longleftrightarrow>
     \<not> timed_out \<and>
     (case connected_to of
        Inl _ \<Rightarrow> False
      | Inr peer \<Rightarrow>
        (case write_frame enc \<lparr>rf_request_id = 1, rf_request = Handshake PROTOCOL_VERSION ''AI SSH startup probe''\<rparr> of
           Inl _ \<Rightarrow> False
         | Inr w \<Rightarrow>
           (case read_frame dec (peer w) of
              (Inl _, _) \<Rightarrow> False
            | (Inr r, _) \<Rightarrow> \<not> isl (re_result r))))"

text \<open>The probes of the loop, one after the other, 100 ms apart.\<close>

fun wait_loop :: "nat \<Rightarrow> (nat \<Rightarrow> bool) \<Rightarrow> nat \<Rightarrow> bool" where
  "wait_loop 0 probe i = False"
| "wait_loop (Suc n) probe i = (if probe i then True else wait_loop n probe (Suc i))"

definition wait_for_daemon :: "(nat \<Rightarrow> bool) \<Rightarrow> bool" where
  "wait_for_daemon probe = wait_loop 50 probe 0"

definition open_append :: "str \<Rightarrow> fsys \<Rightarrow> (str + unit) \<times> fsys" where
  "open_append p fs =
     (case fx_fault fs OpenTemp p of
        Some e \<Rightarrow> (Inl e, fs)
      | None \<Rightarrow>
        (case fx_nodes fs p of
           None \<Rightarrow> (Inr (), put_node p (Reg (fx_new_mode fs) []) fs)
         | Some (Dir _) \<Rightarrow> (Inl ''Is a directory (os error 21)'', fs)
         | Some (Reg _ _) \<Rightarrow> (Inr (), fs)))"

definition start_daemon :: "build \<Rightarrow> paths \<Rightarrow> (str + unit) \<Rightarrow> fsys \<Rightarrow> (str + unit) \<times> fsys" where
  "start_daemon b ps spawned fs =
     (let executable = join_path (pa_bin ps) (installed_helper_name b ''aisshd'') in
      if fx_nodes fs executable = None
      then (Inl (''daemon executable is missing at '' @ from_utf8_lossy executable), fs)
      else case open_append (join_path (pa_data ps) ''aisshd.stdout.log'') fs of
        (Inl e, fs1) \<Rightarrow> (Inl e, fs1)
      | (Inr _, fs1) \<Rightarrow>
        (case open_append (join_path (pa_data ps) ''aisshd.stderr.log'') fs1 of
           (Inl e, fs2) \<Rightarrow> (Inl e, fs2)
         | (Inr _, fs2) \<Rightarrow> (map_err (\<lambda>_. ''cannot launch aisshd'') spawned, fs2)))"

section \<open>Start and exit\<close>

datatype startup_failure =
    NoConfigFile | ConfigUnreadable | AutostartFailed | HelpersFailed | DaemonNotStarted | DaemonNotReady

datatype app_action =
    ShowError startup_failure str
  | AskToStartDaemon
  | SpawnDaemon
  | BuildTray
  | OpenMainWindow
  | CheckForUpdates
  | CallShutdown
  | ExitApp nat

definition initialize_ui :: "toml \<Rightarrow> paths \<Rightarrow> bool \<Rightarrow> fsys \<Rightarrow> app_action list" where
  "initialize_ui tm ps created_config fs =
     (let has_no_targets = (case load tm ps fs of Inr c \<Rightarrow> cf_targets c = [] | Inl _ \<Rightarrow> False)
      in [BuildTray] @ (if created_config \<or> has_no_targets then [OpenMainWindow] else []) @ [CheckForUpdates])"

datatype daemon_prompt_action = PromptStart | PromptExit

definition daemon_prompt :: "bool \<Rightarrow> daemon_prompt_action" where
  "daemon_prompt approved = (if approved then PromptStart else PromptExit)"

text \<open>The start-up up to the question whether to start the daemon, which is asked only when it is not ready.\<close>

definition app_setup :: "toml \<Rightarrow> (config_error \<Rightarrow> str) \<Rightarrow> build \<Rightarrow> str list \<Rightarrow> paths \<Rightarrow> 'a autolaunch \<Rightarrow> bool \<Rightarrow> fsys \<Rightarrow> 'a
    \<Rightarrow> app_action list \<times> fsys \<times> 'a" where
  "app_setup tm display b directories ps al ready fs a =
     (case ensure_exists tm ps fs of
        (Inl e, fs1) \<Rightarrow> ([ShowError NoConfigFile (display e)], fs1, a)
      | (Inr created, fs1) \<Rightarrow>
        (case load tm ps fs1 of
           Inl e \<Rightarrow> ([ShowError ConfigUnreadable (display e)], fs1, a)
         | Inr c \<Rightarrow>
           (case set_autostart al (cf_launch_at_login c) a of
              (Inl e, a1) \<Rightarrow> ([ShowError AutostartFailed e], fs1, a1)
            | (Inr _, a1) \<Rightarrow>
              (case install_bundled_helpers b directories ps helper_names fs1 of
                 (Inl e, fs2) \<Rightarrow> ([ShowError HelpersFailed e], fs2, a1)
               | (Inr _, fs2) \<Rightarrow>
                   if \<not> ready then ([AskToStartDaemon], fs2, a1)
                   else (initialize_ui tm ps created fs2, fs2, a1)))))"

text \<open>What follows the answer to that question; \<open>ready\<close> and \<open>waited\<close> are the two probes of the daemon.\<close>

definition request_daemon_start :: "toml \<Rightarrow> build \<Rightarrow> paths \<Rightarrow> bool \<Rightarrow> bool \<Rightarrow> bool \<Rightarrow> (str + unit) \<Rightarrow> bool \<Rightarrow> fsys
    \<Rightarrow> app_action list \<times> fsys" where
  "request_daemon_start tm b ps created_config approved ready spawned waited fs =
     (case daemon_prompt approved of
        PromptExit \<Rightarrow> ([ExitApp 0], fs)
      | PromptStart \<Rightarrow>
          if ready then (initialize_ui tm ps created_config fs, fs)
          else (case start_daemon b ps spawned fs of
                  (Inl e, fs1) \<Rightarrow> ([ShowError DaemonNotStarted e], fs1)
                | (Inr _, fs1) \<Rightarrow>
                    if \<not> waited
                    then ([SpawnDaemon, ShowError DaemonNotReady
                            (from_utf8_lossy (join_path (pa_data ps) ''aisshd.stderr.log''))], fs1)
                    else (SpawnDaemon # initialize_ui tm ps created_config fs1, fs1)))"

text \<open>
  A request to exit: whether it is held up, the flag afterwards, and what is done while it is
  held up. \<open>exit(0)\<close> leads to a further request.
\<close>

definition exit_requested :: "toml \<Rightarrow> paths \<Rightarrow> fsys \<Rightarrow> bool \<Rightarrow> bool \<times> bool \<times> app_action list" where
  "exit_requested tm ps fs exit_in_progress =
     (let stop_daemon = (case load tm ps fs of Inr c \<Rightarrow> cf_quit_daemon_on_app_exit c | Inl _ \<Rightarrow> False)
      in if stop_daemon \<and> \<not> exit_in_progress then (True, True, [CallShutdown, ExitApp 0])
         else (False, exit_in_progress, []))"

section \<open>The tray menu\<close>

definition tray_active :: "session_info \<Rightarrow> bool" where
  "tray_active s \<longleftrightarrow> si_status s \<notin> {S_Closed, S_Failed, S_Interrupted, S_Disconnected}"

text \<open>The menu by the identifiers of its entries, and the sessions that have one.\<close>

record tray =
  tr_displayed_ids :: "str list"
  tr_items :: "str list"
  tr_menu :: "str list"

definition session_entry :: "str \<Rightarrow> str" where
  "session_entry i = ''session:'' @ i"

text \<open>The fixed entries of the menu.\<close>

definition tray_action_menu :: "str list" where
  "tray_action_menu = [''history'', ''separator'', ''check-updates'', ''quit'']"

text \<open>Inserting the entries; \<open>made\<close> says for which of them the toolkit made and accepted an entry.\<close>

fun insert_entries :: "(str \<Rightarrow> bool) \<Rightarrow> nat \<Rightarrow> str list \<Rightarrow> tray \<Rightarrow> tray" where
  "insert_entries made k [] tr = tr"
| "insert_entries made k (i # is) tr =
     insert_entries made (Suc k) is
       (if made i then tr\<lparr>tr_menu := take k (tr_menu tr) @ [session_entry i] @ drop k (tr_menu tr),
                          tr_items := tr_items tr @ [i]\<rparr> else tr)"

definition refresh_tray :: "(str \<Rightarrow> bool) \<Rightarrow> session_info list \<Rightarrow> tray \<Rightarrow> tray" where
  "refresh_tray made ss tr =
     (let active_ids = map si_id (filter tray_active ss)
      in if active_ids \<noteq> tr_displayed_ids tr
         then (insert_entries made 0 active_ids
                (tr\<lparr>tr_menu := filter (\<lambda>e. e \<notin> session_entry ` set (tr_items tr)) (tr_menu tr),
                    tr_items := []\<rparr>))\<lparr>tr_displayed_ids := active_ids\<rparr>
         else tr)"

section \<open>Updates\<close>

datatype origin = Startup | Manual

datatype update_action = LogLine | ReportDialog bool | AskToInstall | DownloadAndInstall | RestartApp

fun should_report :: "origin \<Rightarrow> bool" where
  "should_report Startup = False"
| "should_report Manual = True"

definition report :: "origin \<Rightarrow> bool \<Rightarrow> update_action list" where
  "report origin failed = (if \<not> should_report origin then [LogLine] else [ReportDialog failed])"

definition install_update :: "bool \<Rightarrow> update_action list" where
  "install_update installed = DownloadAndInstall # (if installed then [RestartApp] else report Manual True)"

text \<open>\<open>None\<close> is a dialog that was dropped without an answer.\<close>

definition confirm_update :: "bool option \<Rightarrow> bool \<Rightarrow> update_action list" where
  "confirm_update approved installed =
     AskToInstall # (if (case approved of Some yes \<Rightarrow> yes | None \<Rightarrow> False) then install_update installed else [])"

definition check_update :: "str + unit \<Rightarrow> str + bool \<Rightarrow> bool option \<Rightarrow> bool \<Rightarrow> origin \<Rightarrow> update_action list" where
  "check_update updater found approved installed origin =
     (case updater of
        Inl _ \<Rightarrow> report origin True
      | Inr _ \<Rightarrow>
        (case found of
           Inr True \<Rightarrow> confirm_update approved installed
         | Inr False \<Rightarrow> report origin False
         | Inl _ \<Rightarrow> report origin True))"

section \<open>Configuration on disk and in the daemon\<close>

lemma save_atomic_file:
  assumes "save_atomic tm c (under root) fs = (r, fs')"
  shows "(\<exists>e. r = Inl e) \<and> fx_nodes fs' (pa_config (under root)) = fx_nodes fs (pa_config (under root))
    \<or> r = Inr () \<and> (\<exists>doc. tm_to_string tm c = Inr doc \<and> fx_nodes fs' (pa_config (under root)) = Some (Reg mode_600 doc))"
  using save_atomic_outcome[OF assms] by (cases r) auto

text \<open>
  Saving the configuration from the window keeps the disk, the daemon and the answer together.
  The file afterwards is what it was, or the whole new configuration, or the whole previous one,
  never a mixture; the daemon is told to reload only when the new configuration is on disk, and
  then its answer is the answer of the command; and when the launch at login could not be set
  and the previous configuration could be written back, that is what the file holds.
\<close>

theorem config_save_consistent:
  assumes "config_save tm display (under root) al call c fs a d = (r, fs', a', d')"
  shows "(d' = d \<or> (r, d') = call ReloadConfig d \<and> (\<exists>doc. tm_to_string tm c = Inr doc
            \<and> fx_nodes fs' (pa_config (under root)) = Some (Reg mode_600 doc)))
    \<and> (fx_nodes fs' (pa_config (under root)) = fx_nodes fs (pa_config (under root))
       \<or> (\<exists>doc. tm_to_string tm c = Inr doc \<and> fx_nodes fs' (pa_config (under root)) = Some (Reg mode_600 doc))
       \<or> (\<exists>previous doc. load tm (under root) fs = Inr previous \<and> tm_to_string tm previous = Inr doc
            \<and> fx_nodes fs' (pa_config (under root)) = Some (Reg mode_600 doc)))"
proof (cases "load tm (under root) fs")
  case (Inl e)
  then show ?thesis using assms by (simp add: config_save_def)
next
  case (Inr previous)
  obtain r1 fs1 where s1: "save_atomic tm c (under root) fs = (r1, fs1)" by fastforce
  obtain r2 a1 where s2: "set_autostart al (cf_launch_at_login c) a = (r2, a1)" by fastforce
  obtain r3 fs3 where s3: "save_atomic tm previous (under root) fs1 = (r3, fs3)" by fastforce
  show ?thesis
  proof (cases r1)
    case (Inl e)
    then show ?thesis using assms \<open>load _ _ _ = _\<close> s1 save_atomic_file[OF s1] by (auto simp: config_save_def)
  next
    case (Inr u)
    then have new: "\<exists>doc. tm_to_string tm c = Inr doc \<and> fx_nodes fs1 (pa_config (under root)) = Some (Reg mode_600 doc)"
      using save_atomic_file[OF s1] by auto
    show ?thesis
    proof (cases r2)
      case (Inl e)
      then have "fs' = fs3" "d' = d"
        using assms \<open>load _ _ _ = _\<close> s1 \<open>r1 = _\<close> s2 s3 by (auto simp: config_save_def)
      then show ?thesis using save_atomic_file[OF s3] new \<open>load _ _ _ = _\<close> by auto
    next
      case (Inr v)
      then have "fs' = fs1" "(r, d') = call ReloadConfig d"
        using assms \<open>load _ _ _ = _\<close> s1 \<open>r1 = _\<close> s2 by (auto simp: config_save_def split: prod.splits)
      then show ?thesis using new by auto
    qed
  qed
qed

text \<open>A login item that cannot be changed: the previous configuration comes back.\<close>

definition stuck_login :: "bool autolaunch" where
  "stuck_login = \<lparr>al_is_enabled = Inr, al_enable = (\<lambda>a. (Inl ''denied'', a)), al_disable = (\<lambda>a. (Inl ''denied'', a))\<rparr>"

definition refuse_daemon :: "nat caller" where
  "refuse_daemon req d = (Inl ''unavailable'', Suc d)"

definition ready_fs :: fsys where
  "ready_fs = sample_fs\<lparr>fx_nodes := (\<lambda>_. None)(pa_config (under ''/r'') := Some (Reg mode_600 ''default''))\<rparr>"

lemma ready_load: "load sample_toml (under ''/r'') ready_fs = Inr default_config"
  by (simp add: load_def require_owner_only_def check_mode_def read_to_string_def ready_fs_def sample_fs_def sample_text
      sample_toml_def validate_def mode_600_def) (simp add: default_config_def)

theorem config_save_consistent_witness:
  "\<exists>r fs' a'. config_save sample_toml (\<lambda>_. ''error'') (under ''/r'') stuck_login refuse_daemon default_config
       ready_fs True 0 = (r, fs', a', 0)
     \<and> fx_nodes fs' (pa_config (under ''/r'')) = Some (Reg mode_600 ''default'')"
proof -
  obtain r fs' a' d' where run: "config_save sample_toml (\<lambda>_. ''error'') (under ''/r'') stuck_login refuse_daemon default_config
      ready_fs True 0 = (r, fs', a', d')" by (metis prod_cases4)
  have "\<not> cf_launch_at_login default_config" by (simp add: default_config_def)
  then have "d' = 0"
    using run ready_load by (auto simp: config_save_def set_autostart_def stuck_login_def split: prod.splits sum.splits)
  moreover have "tm_to_string sample_toml default_config = Inr ''default''"
    "fx_nodes ready_fs (pa_config (under ''/r'')) = Some (Reg mode_600 ''default'')"
    by (simp_all add: sample_toml_def ready_fs_def sample_fs_def)
  ultimately show ?thesis using config_save_consistent[OF run] ready_load run by auto
qed

section \<open>Installing a helper is atomic\<close>

lemma copy_file_cases:
  assumes "copy_file p q fs = (r, fs')" "p \<noteq> q"
  shows "(\<forall>x. x = q \<or> fx_nodes fs' x = fx_nodes fs x)
    \<and> (r = Inr () \<longrightarrow> (\<exists>m d. fx_nodes fs p = Some (Reg m d) \<and> fs' = put_node q (Reg m d) fs))"
proof -
  obtain r1 fs1 where 1: "open_truncate q fs = (r1, fs1)" by fastforce
  show ?thesis
  proof (cases "read_file p fs")
    case (Inl e)
    then show ?thesis using assms by (auto simp: copy_file_def)
  next
    case (Inr d)
    then obtain m where src: "fx_nodes fs p = Some (Reg m d)"
      by (auto simp: read_file_def split: option.splits node.splits)
    show ?thesis
    proof (cases r1)
      case (Inl e)
      then show ?thesis using assms \<open>read_file p fs = _\<close> 1 open_truncate_cases[OF 1] by (auto simp: copy_file_def)
    next
      case (Inr u)
      then obtain k where k: "fs1 = put_node q (Reg k []) fs" using open_truncate_cases[OF 1] by auto
      obtain r2 fs2 where 2: "write_all q d fs1 = (r2, fs2)" by fastforce
      show ?thesis
        using assms \<open>read_file p fs = _\<close> 1 \<open>r1 = _\<close> 2 write_all_cases[OF 2[unfolded k]] src
        by (auto simp: copy_file_def put_node_def split: sum.splits if_splits)
    qed
  qed
qed

lemma install_helper_outcome:
  assumes "install_helper source destination fs = (r, fs')"
    and "with_extension destination ''installing'' \<noteq> destination" "source \<noteq> with_extension destination ''installing''"
  shows "(\<forall>x. x = destination \<or> x = with_extension destination ''installing'' \<or> fx_nodes fs' x = fx_nodes fs x)
    \<and> (case r of
         Inl e \<Rightarrow> fx_nodes fs' destination = fx_nodes fs destination
       | Inr _ \<Rightarrow> (\<exists>m d. fx_nodes fs source = Some (Reg m d) \<and> fx_nodes fs' destination = Some (Reg mode_700 d)))"
proof -
  let ?t = "with_extension destination ''installing''"
  consider (unread) e where "same_helper source destination fs = Inl e"
    | (same) "same_helper source destination fs = Inr True" | (differs) "same_helper source destination fs = Inr False"
    by (cases "same_helper source destination fs") auto
  then show ?thesis
  proof cases
    case unread
    then show ?thesis using assms(1) by (auto simp: install_helper_def)
  next
    case same
    then obtain m m' d where "fx_nodes fs source = Some (Reg m d)" "fx_nodes fs destination = Some (Reg m' d)"
      by (auto simp: same_helper_def read_file_def split: if_splits sum.splits option.splits node.splits)
    then show ?thesis
      using assms(1) same
      by (auto simp: install_helper_def restrict_helper_def restrict_def with_mode_def split: option.splits)
  next
    case differs
    obtain r1 fs1 where 1: "copy_file source ?t fs = (r1, fs1)" by fastforce
    note copied = copy_file_cases[OF 1 assms(3)]
    show ?thesis
    proof (cases r1)
      case (Inl e)
      then have "\<exists>e. r = Inl e" "fs' = fs1"
        using assms(1) differs 1 by (auto simp: install_helper_def Let_def)
      then show ?thesis using copied assms(2) by auto metis
    next
      case (Inr u)
      then obtain m d where md: "fx_nodes fs source = Some (Reg m d)" "fs1 = put_node ?t (Reg m d) fs" using copied by auto
      obtain r2 fs2 where 2: "restrict ?t mode_700 fs1 = (r2, fs2)" by fastforce
      obtain r3 fs3 where 3: "rename_file ?t destination fs2 = (r3, fs3)" by fastforce
      show ?thesis
      proof (cases r2)
        case (Inl e)
        then have "r = Inl e" "fs' = fs1"
          using assms(1) differs 1 \<open>r1 = _\<close> 2 restrict_cases[OF 2[unfolded md(2)]] md(2)
          by (auto simp: install_helper_def restrict_helper_def Let_def)
        then show ?thesis using md(2) assms(2) by auto
      next
        case (Inr v)
        then have fs2: "fs2 = put_node ?t (Reg mode_700 d) fs" using restrict_cases[OF 2[unfolded md(2)]] by auto
        have "r = r3" "fs' = fs3"
          using assms(1) differs 1 \<open>r1 = _\<close> 2 Inr 3
          by (auto simp: install_helper_def restrict_helper_def replace_helper_def Let_def)
        then show ?thesis
          using rename_file_cases[OF 3[unfolded fs2]] md(1) assms(2) by (auto split: if_splits)
      qed
    qed
  qed
qed

text \<open>
  Installing a helper is all or nothing: after an error the installed program is the one that was
  there before, byte for byte and with its mode; after a success it has the bytes of the bundled
  helper and is executable by its owner only. Nothing else is touched but the temporary file
  beside it.
\<close>

theorem install_helper_atomic:
  assumes "install_helper source destination fs = (r, fs')"
    and "with_extension destination ''installing'' \<noteq> destination" "source \<noteq> with_extension destination ''installing''"
  shows "(\<forall>x. x = destination \<or> x = with_extension destination ''installing'' \<or> fx_nodes fs' x = fx_nodes fs x)
    \<and> (case r of
         Inl e \<Rightarrow> fx_nodes fs' destination = fx_nodes fs destination
       | Inr _ \<Rightarrow> (\<exists>m d. fx_nodes fs source = Some (Reg m d) \<and> fx_nodes fs' destination = Some (Reg mode_700 d)))"
  using install_helper_outcome[OF assms] .

theorem install_helper_atomic_witness:
  "case install_helper ''/app/aisshd'' ''/r/bin/aisshd''
      (sample_fs\<lparr>fx_nodes := (\<lambda>_. None)(''/app/aisshd'' := Some (Reg 493 ''new''), ''/r/bin/aisshd'' := Some (Reg 448 ''old''))\<rparr>) of
     (r, fs') \<Rightarrow> r = Inr () \<and> fx_nodes fs' ''/r/bin/aisshd'' = Some (Reg mode_700 ''new'')"
proof -
  let ?fs = "sample_fs\<lparr>fx_nodes := (\<lambda>_. None)(''/app/aisshd'' := Some (Reg 493 ''new''), ''/r/bin/aisshd'' := Some (Reg 448 ''old''))\<rparr>"
  have temp: "with_extension ''/r/bin/aisshd'' ''installing'' = ''/r/bin/aisshd.installing''"
    by (simp add: with_extension_def)
  obtain r fs' where run: "install_helper ''/app/aisshd'' ''/r/bin/aisshd'' ?fs = (r, fs')" by fastforce
  have "r = Inr ()"
    using run temp
    by (simp add: install_helper_def same_helper_def read_file_def sample_fs_def Let_def copy_file_def open_truncate_def
        write_all_def restrict_helper_def restrict_def with_mode_def replace_helper_def rename_file_def)
  then show ?thesis using install_helper_atomic[OF run] run temp by (auto simp: sample_fs_def)
qed

section \<open>Start, exit, tray and updates\<close>

lemma wait_loop_iff: "wait_loop n probe i \<longleftrightarrow> (\<exists>k < n. probe (i + k))"
proof (induction n arbitrary: i)
  case (Suc n)
  have "(\<exists>k < Suc n. probe (i + k)) \<longleftrightarrow> probe i \<or> (\<exists>k < n. probe (Suc i + k))"
    by (metis (no_types, lifting) add_Suc_right add_Suc_shift less_Suc_eq_0_disj add_0_right)
  then show ?case using Suc by simp
qed simp

lemma start_after_approval:
  "SpawnDaemon \<in> set (fst (request_daemon_start tm b ps created approved ready spawned waited fs)) \<longleftrightarrow>
     approved \<and> \<not> ready \<and> fst (start_daemon b ps spawned fs) = Inr ()"
  by (auto simp: request_daemon_start_def daemon_prompt_def initialize_ui_def Let_def split: prod.splits sum.splits)

lemma setup_never_spawns:
  "SpawnDaemon \<notin> set (fst (app_setup tm display b directories ps al ready fs a))"
  by (auto simp: app_setup_def initialize_ui_def Let_def split: prod.splits sum.splits)

lemma update_needs_approval:
  "DownloadAndInstall \<in> set (check_update updater found approved installed origin) \<longleftrightarrow>
     updater = Inr () \<and> found = Inr True \<and> approved = Some True"
  by (cases updater; cases found; cases origin)
    (auto simp: check_update_def report_def confirm_update_def install_update_def split: option.splits bool.splits if_splits)


definition tray_ok :: "str list \<Rightarrow> tray \<Rightarrow> bool" where
  "tray_ok fixed_entries tr \<longleftrightarrow> tr_items tr = tr_displayed_ids tr
     \<and> tr_menu tr = map session_entry (tr_displayed_ids tr) @ fixed_entries"

lemma insert_entries_all:
  assumes "tr_menu tr = map session_entry shown @ fixed_entries" "tr_items tr = shown"
  shows "insert_entries (\<lambda>_. True) (length shown) ids tr =
    tr\<lparr>tr_menu := map session_entry (shown @ ids) @ fixed_entries, tr_items := shown @ ids\<rparr>"
  using assms
proof (induction ids arbitrary: shown tr)
  case (Cons i ids)
  show ?case
    using Cons.prems
      Cons.IH[of "tr\<lparr>tr_menu := map session_entry (shown @ [i]) @ fixed_entries, tr_items := shown @ [i]\<rparr>" "shown @ [i]"]
    by simp
qed simp

lemma refresh_tray_ok:
  assumes "tray_ok fixed_entries tr" "set fixed_entries \<inter> range session_entry = {}"
  shows "tray_ok fixed_entries (refresh_tray (\<lambda>_. True) ss tr)"
    and "tr_displayed_ids (refresh_tray (\<lambda>_. True) ss tr) = map si_id (filter tray_active ss)"
proof -
  have cleared: "filter (\<lambda>e. e \<notin> session_entry ` set (tr_items tr)) (tr_menu tr) = fixed_entries"
    using assms by (auto simp: tray_ok_def filter_empty_conv filter_id_conv)
  have "insert_entries (\<lambda>_. True) 0 ids (tr\<lparr>tr_menu := fixed_entries, tr_items := []\<rparr>) =
      tr\<lparr>tr_menu := map session_entry ids @ fixed_entries, tr_items := ids\<rparr>" for ids
    using insert_entries_all[of "tr\<lparr>tr_menu := fixed_entries, tr_items := []\<rparr>" "[]"] by simp
  then show "tray_ok fixed_entries (refresh_tray (\<lambda>_. True) ss tr)"
    "tr_displayed_ids (refresh_tray (\<lambda>_. True) ss tr) = map si_id (filter tray_active ss)"
    using assms(1) cleared by (auto simp: refresh_tray_def Let_def tray_ok_def)
qed

text \<open>
  Once a second the tray menu is brought up to date; the entries of the active sessions are in
  front of the fixed ones and in the order of the list, after any number of refreshes.
\<close>

definition fresh_tray :: tray where
  "fresh_tray = \<lparr>tr_displayed_ids = [], tr_items = [], tr_menu = tray_action_menu\<rparr>"

definition tray_tick :: "tray \<Rightarrow> tray \<Rightarrow> bool" where
  "tray_tick tr tr' \<longleftrightarrow> (\<exists>ss. tr' = refresh_tray (\<lambda>_. True) ss tr)"

lemma tray_actions_apart: "set tray_action_menu \<inter> range session_entry = {}"
  by (auto simp: tray_action_menu_def session_entry_def)

interpretation tick: step_invariant "\<lambda>tr. tr = fresh_tray" tray_tick "tray_ok tray_action_menu"
  using refresh_tray_ok(1)[OF _ tray_actions_apart]
  by unfold_locales (auto simp: tray_tick_def, simp add: fresh_tray_def tray_ok_def)

end
