(* ===== verification/Desktop_Ui.thy ===== *)
theory Desktop_Ui
  imports Desktop
begin

text \<open>
  The rest of \<open>apps/desktop/src-tauri/src/main.rs\<close>: the menu of the tray with its labels and its
  handler, the windows, the folders the application opens, and how the Windows build replaces a
  helper that may be running. Calls on the toolkit are values of \<open>ui_call\<close>, in order; whether one
  fails is an argument.
\<close>

section \<open>Folders\<close>

definition open_in_file_manager :: "bool \<Rightarrow> (str \<Rightarrow> str \<Rightarrow> str + unit) \<Rightarrow> str \<Rightarrow> str + unit" where
  "open_in_file_manager windows spawn path =
     (let program = (if windows then ''explorer'' else ''open'') in spawn program path)"

definition open_config :: "bool \<Rightarrow> (str \<Rightarrow> str \<Rightarrow> str + unit) \<Rightarrow> paths \<Rightarrow> str + unit" where
  "open_config windows spawn ps = open_in_file_manager windows spawn (pa_root ps)"

definition open_keys :: "bool \<Rightarrow> (str \<Rightarrow> str \<Rightarrow> str + unit) \<Rightarrow> paths \<Rightarrow> str + unit" where
  "open_keys windows spawn ps = open_in_file_manager windows spawn (pa_keys ps)"

definition reload_config_command :: "'d caller \<Rightarrow> 'd \<Rightarrow> (str + response_data) \<times> 'd" where
  "reload_config_command call d = call ReloadConfig d"

definition helper_directories :: "str option \<Rightarrow> str \<Rightarrow> str list" where
  "helper_directories resource_dir manifest_dir =
     (case resource_dir of Some resources \<Rightarrow> [join_path resources ''binaries''] | None \<Rightarrow> [])
     @ [join_path manifest_dir ''binaries'']"

definition runtime_arches :: "bool \<Rightarrow> str list" where
  "runtime_arches aarch64 =
     (if aarch64 then [''aarch64'', ''x86_64''] else [''x86_64'', ''aarch64''])"

section \<open>Replacing a helper on Windows\<close>

text \<open>
  A program that runs cannot be removed or overwritten, but renamed. \<open>removable\<close> says which files
  can be deleted. A destination is a file of the helpers' directory, so its last separator is the
  one \<open>join\<close> wrote.
\<close>

definition file_name :: "str \<Rightarrow> str" where
  "file_name p = (case rfind (CHR ''/'') p of None \<Rightarrow> p | Some i \<Rightarrow> drop (Suc i) p)"

definition with_file_name :: "str \<Rightarrow> str \<Rightarrow> str" where
  "with_file_name p name = (case rfind (CHR ''/'') p of None \<Rightarrow> name | Some i \<Rightarrow> take (Suc i) p @ name)"

definition displaced_path :: "str \<Rightarrow> nat \<Rightarrow> nat \<Rightarrow> str" where
  "displaced_path destination pid stamp =
     with_file_name destination
       (from_utf8_lossy (file_name destination) @ ''.replaced-'' @ show_nat pid @ ''-'' @ show_nat stamp)"

definition remove_file :: "(str \<Rightarrow> bool) \<Rightarrow> str \<Rightarrow> fsys \<Rightarrow> fsys" where
  "remove_file removable p fs =
     (if removable p then fs\<lparr>fx_nodes := (fx_nodes fs)(p := None)\<rparr> else fs)"

definition replace_helper_windows :: "(str \<Rightarrow> bool) \<Rightarrow> str \<Rightarrow> str \<Rightarrow> str \<Rightarrow> fsys \<Rightarrow> (str + unit) \<times> fsys" where
  "replace_helper_windows removable displaced temp destination fs =
     (case (if fx_nodes fs destination \<noteq> None then rename_file destination displaced fs else (Inr (), fs)) of
        (Inl e, fs1) \<Rightarrow>
          (Inl (''cannot move the previous helper '' @ from_utf8_lossy destination @ '' aside''), fs1)
      | (Inr _, fs1) \<Rightarrow>
        (case rename_file temp destination fs1 of
           (Inl e, fs2) \<Rightarrow> (Inl e, fs2)
         | (Inr _, fs2) \<Rightarrow> (Inr (), remove_file removable displaced fs2)))"

definition sweep_displaced :: "(str \<Rightarrow> bool) \<Rightarrow> str list option \<Rightarrow> str \<Rightarrow> fsys \<Rightarrow> fsys" where
  "sweep_displaced removable entries destination fs =
     (let prefix = from_utf8_lossy (file_name destination) @ ''.replaced-'' in
      case entries of
        None \<Rightarrow> fs
      | Some names \<Rightarrow>
          foldl (\<lambda>fs name. if starts_with (from_utf8_lossy name) prefix
                           then remove_file removable (with_file_name destination name) fs else fs) fs names)"

definition install_helper_windows :: "(str \<Rightarrow> bool) \<Rightarrow> str list option \<Rightarrow> nat \<Rightarrow> nat \<Rightarrow> str \<Rightarrow> str \<Rightarrow> fsys
    \<Rightarrow> (str + unit) \<times> fsys" where
  "install_helper_windows removable entries pid stamp source destination fs0 =
     (let fs = sweep_displaced removable entries destination fs0 in
      case same_helper source destination fs of
        Inl e \<Rightarrow> (Inl e, fs)
      | Inr True \<Rightarrow> (Inr (), fs)
      | Inr False \<Rightarrow>
        (let temp = with_extension destination ''installing'' in
         case copy_file source temp fs of
           (Inl _, fs1) \<Rightarrow>
             (Inl (''cannot copy helper '' @ from_utf8_lossy source @ '' to '' @ from_utf8_lossy temp), fs1)
         | (Inr _, fs1) \<Rightarrow>
             replace_helper_windows removable (displaced_path destination pid stamp) temp destination fs1))"

text \<open>Sweeping removes nothing but files with the name of a parked helper.\<close>

lemma remove_file_other: "p \<noteq> q \<Longrightarrow> fx_nodes (remove_file removable q fs) p = fx_nodes fs p"
  by (simp add: remove_file_def)

lemma sweep_spares:
  assumes "\<And>name. starts_with (from_utf8_lossy name) (from_utf8_lossy (file_name destination) @ ''.replaced-'') \<Longrightarrow>
    p \<noteq> with_file_name destination name"
  shows "fx_nodes (sweep_displaced removable entries destination fs) p = fx_nodes fs p"
proof (cases entries)
  case (Some names)
  have "fx_nodes (foldl (\<lambda>fs name. if starts_with (from_utf8_lossy name) (from_utf8_lossy (file_name destination) @ ''.replaced-'')
      then remove_file removable (with_file_name destination name) fs else fs) fs names) p = fx_nodes fs p"
    using assms by (induction names arbitrary: fs) (auto simp: remove_file_other)
  then show ?thesis using Some by (simp add: sweep_displaced_def Let_def)
qed (simp add: sweep_displaced_def Let_def)

text \<open>
  Replacing a helper on Windows is not all or nothing, as it is elsewhere. When moving the new
  program into place fails after the old one was moved aside, no program is left under the
  helper's name; the old one is left under the parked name, which the next launch sweeps away.
  Otherwise a failure changes nothing and a success leaves the new program.
\<close>

theorem windows_replace_loses_helper:
  assumes "displaced \<noteq> destination" "displaced \<noteq> temp" "temp \<noteq> destination"
    and "fx_nodes fs destination = Some (Reg m old)" "fx_nodes fs temp = Some (Reg m' new)"
    and "fx_nodes fs displaced = None"
  shows "case replace_helper_windows removable displaced temp destination fs of
     (Inr _, fs') \<Rightarrow> fx_nodes fs' destination = Some (Reg m' new)
   | (Inl _, fs') \<Rightarrow>
       if fx_fault fs Rename destination = None
       then fx_nodes fs' destination = None \<and> fx_nodes fs' displaced = Some (Reg m old)
       else fx_nodes fs' = fx_nodes fs"
  using assms
  by (auto simp: replace_helper_windows_def rename_file_def remove_file_def split: option.splits)

theorem windows_replace_loses_helper_witness:
  "case replace_helper_windows (\<lambda>_. True) ''b/d.replaced-1-2'' ''b/d.installing'' ''b/d''
     (sample_fs\<lparr>fx_nodes := [''b/d'' \<mapsto> Reg 448 ''old'', ''b/d.installing'' \<mapsto> Reg 448 ''new''],
        fx_fault := \<lambda>c p. if c = Rename \<and> p = ''b/d.installing'' then Some ''Access is denied.'' else None\<rparr>) of
     (r, fs') \<Rightarrow> r = Inl ''Access is denied.'' \<and> fx_nodes fs' ''b/d'' = None
       \<and> fx_nodes fs' ''b/d.replaced-1-2'' = Some (Reg 448 ''old'')"
proof -
  let ?fs = "sample_fs\<lparr>fx_nodes := [''b/d'' \<mapsto> Reg 448 ''old'', ''b/d.installing'' \<mapsto> Reg 448 ''new''],
        fx_fault := \<lambda>c p. if c = Rename \<and> p = ''b/d.installing'' then Some ''Access is denied.'' else None\<rparr>"
  have "fst (replace_helper_windows (\<lambda>_. True) ''b/d.replaced-1-2'' ''b/d.installing'' ''b/d'' ?fs) = Inl ''Access is denied.''"
    by (simp add: replace_helper_windows_def rename_file_def)
  then show ?thesis
    using windows_replace_loses_helper[of "''b/d.replaced-1-2''" "''b/d''" "''b/d.installing''" ?fs 448 "''old''" 448 "''new''" "\<lambda>_. True"]
    by (auto split: prod.splits)
qed

section \<open>Windows\<close>

datatype ui_call =
    SetPolicyRegular | SetPolicyAccessory | BuildMainWindow | Unminimize | ShowMain | SetFocus
  | EmitSelectSession str | PreventClose | HideWindow

text \<open>Calls are made in order up to the first that fails.\<close>

fun run_calls :: "(ui_call \<Rightarrow> str + unit) \<Rightarrow> ui_call list \<Rightarrow> (str + unit) \<times> ui_call list" where
  "run_calls respond [] = (Inr (), [])"
| "run_calls respond (c # cs) =
     (case respond c of
        Inl e \<Rightarrow> (Inl e, [c])
      | Inr _ \<Rightarrow> (case run_calls respond cs of (r, made) \<Rightarrow> (r, c # made)))"

definition show_main_window :: "bool \<Rightarrow> bool \<Rightarrow> (ui_call \<Rightarrow> str + unit) \<Rightarrow> (str + unit) \<times> ui_call list" where
  "show_main_window macos has_window respond =
     run_calls respond ((if macos then [SetPolicyRegular] else []) @ (if has_window then [] else [BuildMainWindow])
       @ [Unminimize, ShowMain, SetFocus])"

definition show_session_in_main :: "bool \<Rightarrow> bool \<Rightarrow> (ui_call \<Rightarrow> str + unit) \<Rightarrow> str \<Rightarrow> (str + unit) \<times> ui_call list" where
  "show_session_in_main macos has_window respond session_id =
     (case show_main_window macos has_window respond of
        (Inl e, made) \<Rightarrow> (Inl e, made)
      | (Inr _, made) \<Rightarrow>
          (case run_calls respond [EmitSelectSession session_id] of (r, made') \<Rightarrow> (r, made @ made')))"

text \<open>Closing a window hides it; the application goes on in the tray.\<close>

definition close_requested :: "bool \<Rightarrow> str \<Rightarrow> ui_call list" where
  "close_requested macos label =
     [PreventClose, HideWindow] @ (if macos \<and> label = ''main'' then [SetPolicyAccessory] else [])"

datatype finish_failure = TrayFailed str | MainThreadFailed str

definition finish_startup :: "str + unit \<Rightarrow> str + unit \<Rightarrow> finish_failure list" where
  "finish_startup entered initialized =
     (case entered of
        Inl e \<Rightarrow> [MainThreadFailed e]
      | Inr _ \<Rightarrow> (case initialized of Inl e \<Rightarrow> [TrayFailed e] | Inr _ \<Rightarrow> []))"

section \<open>Entries of the tray menu\<close>

datatype glyph = GHome | GRefresh | GStop | GAvailable | GPartiallyAvailable | GUnavailable

definition QUIT_ACCELERATOR :: "bool \<Rightarrow> str" where
  "QUIT_ACCELERATOR macos = (if macos then ''Cmd+Q'' else ''Ctrl+Q'')"

definition action_glyph :: "str \<Rightarrow> glyph option" where
  "action_glyph i =
     (if i = ''history'' then Some GHome
      else if i = ''check-updates'' then Some GRefresh
      else if i = ''quit'' then Some GStop
      else None)"

fun status_glyph :: "session_status option \<Rightarrow> glyph option" where
  "status_glyph None = None"
| "status_glyph (Some S_Ready) = Some GAvailable"
| "status_glyph (Some S_Idle) = Some GAvailable"
| "status_glyph (Some S_Connecting) = Some GPartiallyAvailable"
| "status_glyph (Some S_ExecRunning) = Some GPartiallyAvailable"
| "status_glyph (Some S_PtyOpen) = Some GPartiallyAvailable"
| "status_glyph (Some S_Disconnected) = Some GUnavailable"
| "status_glyph (Some S_Interrupted) = Some GUnavailable"
| "status_glyph (Some S_Closed) = Some GUnavailable"
| "status_glyph (Some S_Failed) = Some GUnavailable"

text \<open>The glyph and the text of an entry; only macOS draws glyphs.\<close>

record entry =
  en_id :: str
  en_text :: str
  en_glyph :: "glyph option"
  en_accelerator :: "str option"

definition tray_entry :: "bool \<Rightarrow> str \<Rightarrow> str \<Rightarrow> str option \<Rightarrow> session_status option \<Rightarrow> entry" where
  "tray_entry macos i t accelerator status =
     \<lparr>en_id = i, en_text = t,
      en_glyph = (if macos then (case action_glyph i of Some g \<Rightarrow> Some g | None \<Rightarrow> status_glyph status) else None),
      en_accelerator = accelerator\<rparr>"

definition set_tray_status :: "bool \<Rightarrow> session_status option \<Rightarrow> entry \<Rightarrow> entry" where
  "set_tray_status macos status en = (if macos then en\<lparr>en_glyph := status_glyph status\<rparr> else en)"

definition strip_prefix :: "str \<Rightarrow> str \<Rightarrow> str option" where
  "strip_prefix p s = (if starts_with s p then Some (drop (length p) s) else None)"

datatype menu_action = OpenSession str | OpenHistory | CheckNow | QuitNow | NoAction

definition on_menu_event :: "str \<Rightarrow> menu_action" where
  "on_menu_event i =
     (case strip_prefix ''session:'' i of
        Some session_id \<Rightarrow> OpenSession session_id
      | None \<Rightarrow>
          if i = ''history'' then OpenHistory
          else if i = ''check-updates'' then CheckNow
          else if i = ''quit'' then QuitNow
          else NoAction)"

section \<open>One tick of the tray\<close>

text \<open>
  The menu of \<open>Desktop\<close> with the entry of every session it shows. An respond that is not a list of
  sessions, and an error, leave everything as it is.
\<close>

record live_tray =
  lt_tray :: tray
  lt_entries :: "str \<Rightarrow> entry option"

definition session_title :: "(session_status \<Rightarrow> str) \<Rightarrow> time \<Rightarrow> session_info \<Rightarrow> str" where
  "session_title debug now s =
     si_target_name s @ '' - '' @ (case si_current_command s of Some c \<Rightarrow> c | None \<Rightarrow> ''Ready'') @ '' - ''
       @ show_nat (seconds_between now (si_created_at s)) @ ''s ['' @ debug (si_status s) @ '']''"

fun make_entries :: "bool \<Rightarrow> (str \<Rightarrow> bool) \<Rightarrow> session_info list \<Rightarrow> (str \<Rightarrow> entry option) \<Rightarrow> str \<Rightarrow> entry option" where
  "make_entries macos made [] m = m"
| "make_entries macos made (s # ss) m =
     make_entries macos made ss
       (if made (si_id s)
        then m(si_id s \<mapsto> tray_entry macos (session_entry (si_id s)) (si_target_name s) None (Some (si_status s)))
        else m)"

fun label_entries :: "bool \<Rightarrow> (session_status \<Rightarrow> str) \<Rightarrow> time list \<Rightarrow> session_info list \<Rightarrow> (str \<Rightarrow> entry option)
    \<Rightarrow> str \<Rightarrow> entry option" where
  "label_entries macos debug (now # nows) (s # ss) m =
     label_entries macos debug nows ss
       (case m (si_id s) of
          None \<Rightarrow> m
        | Some en \<Rightarrow> m(si_id s \<mapsto> set_tray_status macos (Some (si_status s))
                                   (en\<lparr>en_text := session_title debug now s\<rparr>)))"
| "label_entries macos debug _ _ m = m"

definition tick_tray :: "bool \<Rightarrow> (session_status \<Rightarrow> str) \<Rightarrow> (str \<Rightarrow> bool) \<Rightarrow> time list \<Rightarrow> (str + response_data)
    \<Rightarrow> live_tray \<Rightarrow> live_tray" where
  "tick_tray macos debug made nows result lt =
     (case result of
        Inr (R_Sessions ss) \<Rightarrow>
          (let active = filter tray_active ss;
               tr = refresh_tray made ss (lt_tray lt);
               m = (if map si_id active \<noteq> tr_displayed_ids (lt_tray lt)
                    then make_entries macos made active (\<lambda>_. None) else lt_entries lt)
           in \<lparr>lt_tray = tr, lt_entries = label_entries macos debug nows active m\<rparr>)
      | _ \<Rightarrow> lt)"

section \<open>What the tray shows\<close>

definition entry_ok :: "bool \<Rightarrow> str \<Rightarrow> entry \<Rightarrow> bool" where
  "entry_ok macos i en \<longleftrightarrow> en_id en = session_entry i \<and> (macos \<or> en_glyph en = None)"

definition live_ok :: "bool \<Rightarrow> live_tray \<Rightarrow> bool" where
  "live_ok macos lt \<longleftrightarrow> tray_ok tray_action_menu (lt_tray lt)
     \<and> (\<forall>i. lt_entries lt i \<noteq> None \<longleftrightarrow> i \<in> set (tr_displayed_ids (lt_tray lt)))
     \<and> (\<forall>i en. lt_entries lt i = Some en \<longrightarrow> entry_ok macos i en)"

lemma make_entries_dom: "make_entries macos (\<lambda>_. True) ss m i \<noteq> None \<longleftrightarrow> m i \<noteq> None \<or> i \<in> si_id ` set ss"
  by (induction ss arbitrary: m) auto

lemma make_entries_ok:
  "\<forall>i en. m i = Some en \<longrightarrow> entry_ok macos i en \<Longrightarrow>
     make_entries macos made ss m i = Some en \<Longrightarrow> entry_ok macos i en"
proof (induction ss arbitrary: m)
  case (Cons s ss)
  show ?case
    by (rule Cons.IH[OF _ Cons.prems(2)[simplified]])
      (use Cons.prems(1) in \<open>auto simp: entry_ok_def tray_entry_def\<close>)
qed simp

lemma label_entries_dom: "label_entries macos debug nows ss m i \<noteq> None \<longleftrightarrow> m i \<noteq> None"
  by (induction macos debug nows ss m rule: label_entries.induct) (auto split: option.splits)

lemma set_status_ok: "entry_ok macos i en \<Longrightarrow> entry_ok macos i (set_tray_status macos st (en\<lparr>en_text := t\<rparr>))"
  by (auto simp: entry_ok_def set_tray_status_def)

lemma label_entries_ok:
  "\<forall>i en. m i = Some en \<longrightarrow> entry_ok macos i en \<Longrightarrow>
     label_entries macos debug nows ss m i = Some en \<Longrightarrow> entry_ok macos i en"
proof (induction macos debug nows ss m rule: label_entries.induct)
  case (1 macos debug now nows s ss m)
  show ?case
    by (rule "1.IH"[OF _ "1.prems"(2)[unfolded label_entries.simps]])
      (use "1.prems"(1) set_status_ok in \<open>auto split: option.splits if_splits\<close>)
qed auto

lemma label_entries_other: "i \<notin> si_id ` set ss \<Longrightarrow> label_entries macos debug nows ss m i = m i"
  by (induction macos debug nows ss m rule: label_entries.induct) (auto split: option.splits)

lemma label_entries_at:
  "distinct (map si_id ss) \<Longrightarrow> length nows = length ss \<Longrightarrow> k < length ss \<Longrightarrow> m (si_id (ss ! k)) = Some en \<Longrightarrow>
     label_entries macos debug nows ss m (si_id (ss ! k)) =
       Some (set_tray_status macos (Some (si_status (ss ! k))) (en\<lparr>en_text := session_title debug (nows ! k) (ss ! k)\<rparr>))"
proof (induction macos debug nows ss m arbitrary: k rule: label_entries.induct)
  case (1 macos debug now nows s ss m)
  show ?case
  proof (cases k)
    case 0
    then show ?thesis using "1.prems" by (simp add: label_entries_other)
  next
    case (Suc j)
    then have "si_id (ss ! j) \<in> si_id ` set ss" using "1.prems"(3) by simp
    then have "si_id (ss ! j) \<noteq> si_id s" using "1.prems"(1) by auto
    then have "(case m (si_id s) of None \<Rightarrow> m | Some e \<Rightarrow> m(si_id s \<mapsto> set_tray_status macos (Some (si_status s))
        (e\<lparr>en_text := session_title debug now s\<rparr>))) (si_id (ss ! j)) = Some en"
      using "1.prems"(4) Suc by (auto split: option.splits)
    from "1.IH"[OF _ _ _ this] show ?thesis using Suc "1.prems"(1-3) by simp
  qed
qed auto

lemma tick_tray_ok:
  assumes "live_ok macos lt"
  shows "live_ok macos (tick_tray macos debug (\<lambda>_. True) nows result lt)"
proof (cases "\<exists>ss. result = Inr (R_Sessions ss)")
  case True
  then obtain ss where r: "result = Inr (R_Sessions ss)" by blast
  let ?tr = "refresh_tray (\<lambda>_. True) ss (lt_tray lt)"
  let ?active = "filter tray_active ss"
  let ?m = "if map si_id ?active \<noteq> tr_displayed_ids (lt_tray lt)
    then make_entries macos (\<lambda>_. True) ?active (\<lambda>_. None) else lt_entries lt"
  have tr: "tray_ok tray_action_menu ?tr" "tr_displayed_ids ?tr = map si_id ?active"
    using refresh_tray_ok[OF _ tray_actions_apart] assms by (simp_all add: live_ok_def)
  have "?m i \<noteq> None \<longleftrightarrow> i \<in> set (tr_displayed_ids ?tr)" for i
  proof (cases "map si_id ?active = tr_displayed_ids (lt_tray lt)")
    case True
    then show ?thesis using assms unfolding tr(2) by (simp add: live_ok_def)
  next
    case False
    then show ?thesis using make_entries_dom[of macos ?active "\<lambda>_. None" i] unfolding tr(2) by simp
  qed
  moreover have "entry_ok macos i en" if "?m i = Some en" for i en
    using assms that make_entries_ok[of "\<lambda>_. None"] by (auto simp: live_ok_def split: if_splits)
  ultimately show ?thesis
    using tr(1) label_entries_dom label_entries_ok[of ?m macos debug nows ?active]
    by (simp add: live_ok_def tick_tray_def r Let_def)
next
  case False
  then have "tick_tray macos debug (\<lambda>_. True) nows result lt = lt"
    by (auto simp: tick_tray_def split: sum.splits response_data.splits)
  then show ?thesis using assms by simp
qed

definition live_start :: live_tray where
  "live_start = \<lparr>lt_tray = fresh_tray, lt_entries = \<lambda>_. None\<rparr>"

inductive live_tick :: "bool \<Rightarrow> live_tray \<Rightarrow> live_tray \<Rightarrow> bool" for macos where
  live_tick_any: "live_tick macos lt (tick_tray macos debug (\<lambda>_. True) nows result lt)"

interpretation live: step_invariant "\<lambda>lt. lt = live_start" "live_tick macos" "live_ok macos" for macos
  by unfold_locales
    (simp add: live_ok_def live_start_def tray_ok_def fresh_tray_def, auto elim!: live_tick.cases intro: tick_tray_ok)

lemma menu_event_entry: "on_menu_event (session_entry i) = OpenSession i"
  by (simp add: on_menu_event_def strip_prefix_def session_entry_def starts_with_def)


definition tray_session :: session_info where
  "tray_session = sample_session\<lparr>si_id := ''u'', si_status := S_Ready, si_target_name := ''box'',
     si_current_command := None, si_created_at := 0\<rparr>"


end
