(* ===== verification/Daemon_Main.thy ===== *)
theory Daemon_Main
  imports Daemon
begin

text \<open>
  The daemon's \<open>main\<close> (\<open>apps/daemon/src/main.rs\<close>): what it does before it serves, in the order the
  code has it, and the loop that accepts clients until it is told to stop. Two daemons that start
  at the same time are a step relation on the socket file of \<open>crates/ipc/src/unix.rs\<close>. The last
  section types the protocol: which answer belongs to which request.
\<close>

section \<open>Starting the daemon\<close>

datatype boot_error =
    BootConfig config_error | BootLoad str config_error | BootEndpoint io_error
  | BootStorage storage_error

definition boot_error_text :: "(config_error \<Rightarrow> str) \<Rightarrow> boot_error \<Rightarrow> str" where
  "boot_error_text display e =
     (case e of
        BootConfig c \<Rightarrow> display c
      | BootLoad context c \<Rightarrow> context
      | BootEndpoint io \<Rightarrow> io_message io
      | BootStorage s \<Rightarrow> storage_error_text s)"

text \<open>What has been done so far; the last entry of a failed start is what came before the failure.\<close>

datatype boot_stage =
    ConfigEnsured | ConfigLoaded | EndpointBound | EndpointHardened | DatabaseOpened | ManagerStarted

record boot_world =
  bw_toml :: toml
  bw_root :: "str option"
  bw_home :: "str option"
  bw_socket :: socket_answers
  bw_harden :: "io_error + unit"
  bw_database :: "storage_error + (session_row list \<times> command_row list \<times> event_row list)"
  bw_faults :: sql_faults
  bw_interrupt_time :: time
  bw_cleanup_time :: time

definition CONFIG_HINT :: "bool \<Rightarrow> str" where
  "CONFIG_HINT windows =
     (if windows then ''copy config.example.toml and grant access only to your account''
      else ''copy config.example.toml and chmod 600'')"

definition boot_storage :: "boot_world \<Rightarrow> paths \<Rightarrow> config \<Rightarrow> (boot_error + manager) \<times> boot_stage list" where
  "boot_storage bw ps c =
     (case bw_database bw of
        Inl e \<Rightarrow> (Inl (BootStorage e), [])
      | Inr (ss, cs, es) \<Rightarrow>
          (case start_manager (bw_faults bw) c ps ss cs es (bw_interrupt_time bw) (bw_cleanup_time bw) of
             Inl e \<Rightarrow> (Inl (BootStorage e), [DatabaseOpened])
           | Inr m \<Rightarrow> (Inr m, [DatabaseOpened, ManagerStarted])))"

definition boot_endpoint :: "boot_world \<Rightarrow> paths \<Rightarrow> config \<Rightarrow> (boot_error + manager) \<times> boot_stage list" where
  "boot_endpoint bw ps c =
     (case fst (bind (endpoint ps) (bw_socket bw)) of
        Inl e \<Rightarrow> (Inl (BootEndpoint e), [])
      | Inr _ \<Rightarrow>
          (case bw_harden bw of
             Inl e \<Rightarrow> (Inl (BootEndpoint e), [EndpointBound])
           | Inr _ \<Rightarrow>
               (case boot_storage bw ps c of
                  (r, stages) \<Rightarrow> (r, EndpointBound # EndpointHardened # stages))))"

definition boot :: "boot_world \<Rightarrow> fsys \<Rightarrow> (boot_error + manager) \<times> boot_stage list \<times> fsys" where
  "boot bw fs =
     (case discover (bw_root bw) (bw_home bw) of
        Inl e \<Rightarrow> (Inl (BootConfig e), [], fs)
      | Inr ps \<Rightarrow>
          (case ensure_exists (bw_toml bw) ps fs of
             (Inl e, fs') \<Rightarrow> (Inl (BootConfig e), [], fs')
           | (Inr _, fs') \<Rightarrow>
               (case load (bw_toml bw) ps fs' of
                  Inl e \<Rightarrow>
                    (Inl (BootLoad (''cannot load '' @ pa_config ps @ '' ('' @ CONFIG_HINT False @ '')'') e),
                     [ConfigEnsured], fs')
                | Inr c \<Rightarrow>
                    (case boot_endpoint bw ps c of
                       (r, stages) \<Rightarrow> (r, ConfigEnsured # ConfigLoaded # stages, fs')))))"

text \<open>A daemon that has started went through every step.\<close>

lemma boot_started:
  assumes "boot bw fs = (Inr m, stages, fs')"
  obtains ps b c ss cs es where "discover (bw_root bw) (bw_home bw) = Inr ps"
    "ensure_exists (bw_toml bw) ps fs = (Inr b, fs')" "load (bw_toml bw) ps fs' = Inr c"
    "fst (bind (endpoint ps) (bw_socket bw)) = Inr ()" "bw_harden bw = Inr ()"
    "bw_database bw = Inr (ss, cs, es)"
    "start_manager (bw_faults bw) c ps ss cs es (bw_interrupt_time bw) (bw_cleanup_time bw) = Inr m"
  using assms
  by (auto simp: boot_def boot_endpoint_def boot_storage_def split: sum.splits prod.splits)

text \<open>A first start: a configuration file, an empty database, nobody on the endpoint.\<close>

definition first_boot :: boot_world where
  "first_boot = \<lparr>bw_toml = sample_toml, bw_root = Some ''/r'', bw_home = None,
     bw_socket = \<lparr>sa_exists = False, sa_connect = Inl (io_err NotFound []), sa_remove = Inr (), sa_bind = Inr ()\<rparr>,
     bw_harden = Inr (), bw_database = Inr ([], [], []), bw_faults = no_faults, bw_interrupt_time = 10, bw_cleanup_time = 20\<rparr>"

definition first_fs :: fsys where
  "first_fs = sample_fs\<lparr>fx_nodes := [''/r/config.toml'' \<mapsto> Reg mode_600 ''default'']\<rparr>"

lemma first_ensured:
  "ensure_exists sample_toml (under ''/r'') first_fs = (Inr False, snd (ensure (under ''/r'') first_fs))"
  "load sample_toml (under ''/r'') (snd (ensure (under ''/r'') first_fs)) = Inr default_config"
  by (simp_all add: ensure_exists_def ensure_def create_dir_all_def restrict_def first_fs_def sample_fs_def under_def
      join_path_def starts_with_def ends_with_def Let_def put_node_def with_mode_def load_def require_owner_only_def
      check_mode_def read_to_string_def sample_text sample_toml_def mode_600_def validate_def default_config_def)

definition first_manager :: manager where
  "first_manager = new_manager default_config (under ''/r'')
     (open_storage [] [] [] (cf_recording_limit_mib default_config))"

lemma first_start: "start_manager no_faults default_config (under ''/r'') [] [] [] 10 20 = Inr first_manager"
  by (simp add: start_manager_def first_manager_def new_manager_def open_storage_def interrupt_unfinished_def
      cleanup_def conn_def)

lemma first_booted:
  "boot first_boot first_fs =
     (Inr first_manager, [ConfigEnsured, ConfigLoaded, EndpointBound, EndpointHardened, DatabaseOpened, ManagerStarted],
      snd (ensure (under ''/r'') first_fs))"
  by (simp add: boot_def boot_endpoint_def boot_storage_def first_boot_def discover_def first_ensured first_start bind_def)

section \<open>One database, many daemons\<close>

text \<open>
  The databases a daemon may find: an empty one, and what any daemon before it left, whatever the
  engine refused meanwhile and whenever that one stopped or was killed, in the middle of a request
  too: of the writes of the last handler some are done, each cut off at any of its statements (which is
  the same as the engine refusing the statement that was not reached). A start that failed, or was killed, after it
  opened the database has marked the open sessions, removed old ones, or neither. The recording limit of the
  configuration was not lowered in between.
\<close>

inductive daemon_life :: "('s, 'l) platform \<Rightarrow> storage \<Rightarrow> bool" for pl where
  life_new: "daemon_life pl (open_storage [] [] [] limit)"
| life_start: "daemon_life pl st \<Longrightarrow>
    st_recording_limit_bytes st \<le> st_recording_limit_bytes (open_storage [] [] [] limit) \<Longrightarrow>
    st1 = (open_storage (st_sessions st) (st_commands st) (st_events st) limit)\<lparr>st_fault := f\<rparr> \<Longrightarrow>
    st2 = snd (interrupt_unfinished now st1) \<Longrightarrow> st' \<in> {st1, st2, snd (cleanup now' days st2)} \<Longrightarrow>
    daemon_life pl st'"
| life_run: "daemon_life pl st \<Longrightarrow> boot bw fs = (Inr m, stages, fs') \<Longrightarrow>
    discover (bw_root bw) (bw_home bw) = Inr ps \<Longrightarrow> load (bw_toml bw) ps fs' = Inr c \<Longrightarrow>
    bw_database bw = Inr (st_sessions st, st_commands st, st_events st) \<Longrightarrow>
    st_recording_limit_bytes st \<le> st_recording_limit_bytes (open_storage [] [] [] (cf_recording_limit_mib c)) \<Longrightarrow>
    (daemon_step pl True)\<^sup>*\<^sup>* \<lparr>ho_manager = m, ho_tasks = [], ho_remote = r, ho_local = l\<rparr> h \<Longrightarrow>
    (storage_step True)\<^sup>*\<^sup>* (mg_storage (ho_manager h)) st' \<Longrightarrow> daemon_life pl st'"

lemma st_inv_reopen:
  assumes "st_inv st" "st_recording_limit_bytes st \<le> st_recording_limit_bytes (open_storage [] [] [] limit)"
  shows "st_inv (open_storage (st_sessions st) (st_commands st) (st_events st) limit)"
proof -
  have "st_recording_limit_bytes (open_storage [] [] [] limit) < u64_mod - 1"
    using st_inv_open[of limit] by (simp add: st_inv_def st_accounts_def)
  then show ?thesis using assms by (auto simp: st_inv_defs open_storage_def dest: order_trans)
qed

lemma boot_host_inv:
  assumes "boot bw fs = (Inr m, stages, fs')" "discover (bw_root bw) (bw_home bw) = Inr ps"
    "load (bw_toml bw) ps fs' = Inr c" "bw_database bw = Inr (st_sessions st, st_commands st, st_events st)"
    "st_recording_limit_bytes st \<le> st_recording_limit_bytes (open_storage [] [] [] (cf_recording_limit_mib c))"
    "st_inv st" "sick \<or> bw_faults bw = no_faults"
  shows "host_inv sick \<lparr>ho_manager = m, ho_tasks = [], ho_remote = r, ho_local = l\<rparr>"
proof -
  have "start_manager (bw_faults bw) c ps (st_sessions st) (st_commands st) (st_events st) (bw_interrupt_time bw)
      (bw_cleanup_time bw) = Inr m"
    by (rule boot_started[OF assms(1)]) (use assms(2-4) in simp)
  then show ?thesis
    using mach.initial_inv[OF start_manager_fresh[OF _ st_inv_reopen[OF assms(6,5)] assms(7)]] by (simp add: host_inv_def)
qed

lemma storage_steps_inv:
  assumes "(storage_step True)\<^sup>*\<^sup>* st st'" "st_inv st"
  shows "st_inv st'"
  using store.run_inv[OF assms(1)] assms(2) by (simp add: store_ok_def)

lemma daemon_life_inv: "daemon_life pl st \<Longrightarrow> st_inv st"
proof (induction rule: daemon_life.induct)
  case (life_new limit)
  then show ?case by (rule st_inv_open)
next
  case (life_start st limit st1 f st2 now st' now' days)
  have "st_inv st1" using st_inv_reopen[OF life_start.IH life_start.hyps(2)] life_start.hyps(3) by simp
  then have "st_inv st2" using st_inv_interrupt_unfinished(1) life_start.hyps(4) by blast
  then show ?case using \<open>st_inv st1\<close> st_inv_cleanup(1) life_start.hyps(5) by blast
next
  case (life_run st bw fs m stages fs' ps c r l h st')
  have inv: "host_inv True \<lparr>ho_manager = m, ho_tasks = [], ho_remote = r, ho_local = l\<rparr>"
    by (rule boot_host_inv[OF life_run.hyps(2-6) life_run.IH]) simp
  then have "st_inv (mg_storage m)" by (simp add: host_inv_def machine_inv_def core_inv_def)
  moreover have "(storage_step True)\<^sup>*\<^sup>* (mg_storage m) st'"
    using daemon_run_store[OF life_run.hyps(7) inv] life_run.hyps(8) by simp
  ultimately show ?case by (rule storage_steps_inv[rotated])
qed

section \<open>Accepting clients\<close>

text \<open>
  What the two branches of the \<open>select!\<close> deliver: a change of the shutdown flag (an error when its
  sender is gone), and an accepted connection with the identity of its peer.
\<close>

datatype 'c loop_event =
    ShutdownChanged "unit + bool" | Accepted "io_error + 'c \<times> (io_error + nat)"

datatype main_end = Stopped | AcceptFailed io_error | StillServing

fun main_loop :: "nat \<Rightarrow> 'c loop_event list \<Rightarrow> main_end \<times> 'c list" where
  "main_loop euid [] = (StillServing, [])"
| "main_loop euid (ShutdownChanged changed # es) =
     (if changed = Inr True then (Stopped, []) else main_loop euid es)"
| "main_loop euid (Accepted (Inl e) # es) = (AcceptFailed e, [])"
| "main_loop euid (Accepted (Inr (stream, peer)) # es) =
     (case main_loop euid es of
        (how, served) \<Rightarrow> (how, if admit euid peer then stream # served else served))"

text \<open>Every client that is served is the daemon's own user, and none is served after the end.\<close>

definition admitted :: "nat \<Rightarrow> 'c loop_event list \<Rightarrow> 'c list" where
  "admitted euid es = List.map_filter (\<lambda>e. case e of
     Accepted (Inr (stream, peer)) \<Rightarrow> if peer = Inr euid then Some stream else None | _ \<Rightarrow> None) es"

definition ends_loop :: "'c loop_event \<Rightarrow> bool" where
  "ends_loop e = (case e of ShutdownChanged changed \<Rightarrow> changed = Inr True | Accepted r \<Rightarrow> isl r)"

lemma admit_iff: "admit euid peer \<longleftrightarrow> peer = Inr euid"
  by (cases peer) (auto simp: admit_def same_user_def split: bool.split)

lemma main_loop_serves:
  "snd (main_loop euid es) = admitted euid (takeWhile (\<lambda>e. \<not> ends_loop e) es)"
  by (induction euid es rule: main_loop.induct)
    (auto simp: admitted_def map_filter_def ends_loop_def admit_iff split: prod.split)

lemma main_loop_stops:
  "fst (main_loop euid es) = Stopped \<longleftrightarrow>
     (\<exists>rest. dropWhile (\<lambda>e. \<not> ends_loop e) es = ShutdownChanged (Inr True) # rest)"
  by (induction euid es rule: main_loop.induct)
    (auto simp: ends_loop_def split: prod.split)

section \<open>A second daemon\<close>

text \<open>
  C16: A daemon that finds another one answering on its endpoint gives up before it touches the
  database: the start fails with \<open>AddrInUse\<close>, the socket is left alone, and the sessions of the
  running daemon are not marked interrupted. In general the database is opened only once the
  endpoint is bound and restricted to its owner, and the configuration has been accepted.
\<close>

theorem second_daemon_stops:
  "case boot bw fs of (r, stages, fs') \<Rightarrow>
     (if sa_exists (bw_socket bw) \<and> sa_connect (bw_socket bw) = Inr ()
      then isl r \<and> EndpointBound \<notin> set stages
        \<and> (EndpointHardened \<notin> set stages \<and> DatabaseOpened \<notin> set stages)
        \<and> snd (bind path (bw_socket bw)) = [SockConnect]
        \<and> (if ConfigLoaded \<in> set stages then \<exists>e. r = Inl (BootEndpoint e) \<and> io_kind e = AddrInUse else True)
      else True)
   \<and> (if DatabaseOpened \<in> set stages
      then take 4 stages = [ConfigEnsured, ConfigLoaded, EndpointBound, EndpointHardened]
        \<and> bw_harden bw = Inr () \<and> (\<exists>ps c. load (bw_toml bw) ps fs' = Inr c \<and> fst (bind (endpoint ps) (bw_socket bw)) = Inr ())
      else True)"
proof (cases "sa_exists (bw_socket bw) \<and> sa_connect (bw_socket bw) = Inr ()")
  case True
  then have "bind ep (bw_socket bw) = (Inl (io_err AddrInUse (''aisshd is already running at '' @ ep)), [SockConnect])" for ep
    by (simp add: bind_def)
  with True show ?thesis
    by (auto simp: boot_def boot_endpoint_def io_err_def split: sum.splits prod.splits)
next
  case False
  then show ?thesis
    by (auto simp: boot_def boot_endpoint_def boot_storage_def split: sum.splits prod.splits)
qed

section \<open>Two daemons that start at the same time\<close>

text \<open>
  The socket file and how far each daemon has come in \<open>bind\<close>. Every call on the file system is a
  step of its own; the code takes no lock between them.
\<close>

datatype socket_file = NoSocket | StaleSocket | LiveSocket nat

datatype bind_pc = AtExists | AtConnect | AtRemove | AtBind | Listening | Refused io_kind

fun bind_next :: "nat \<Rightarrow> bind_pc \<Rightarrow> socket_file \<Rightarrow> bind_pc \<times> socket_file" where
  "bind_next d AtExists f = (if f = NoSocket then AtBind else AtConnect, f)"
| "bind_next d AtConnect f = (case f of LiveSocket _ \<Rightarrow> Refused AddrInUse | _ \<Rightarrow> AtRemove, f)"
| "bind_next d AtRemove f = (if f = NoSocket then (Refused NotFound, f) else (AtBind, NoSocket))"
| "bind_next d AtBind f = (if f = NoSocket then (Listening, LiveSocket d) else (Refused AddrInUse, f))"
| "bind_next d Listening f = (Listening, f)"
| "bind_next d (Refused k) f = (Refused k, f)"

type_synonym bind_race = "socket_file \<times> (nat \<Rightarrow> bind_pc)"

definition bind_move :: "nat \<Rightarrow> bind_race \<Rightarrow> bind_race" where
  "bind_move d s = (case bind_next d (snd s d) (fst s) of (pc, f) \<Rightarrow> (f, (snd s)(d := pc)))"

inductive bind_step :: "bind_race \<Rightarrow> bind_race \<Rightarrow> bool" where
  bind_step_move: "bind_step s (bind_move d s)"

text \<open>What the calls of one daemon answer when nobody else is at the file.\<close>

definition file_answers :: "socket_file \<Rightarrow> socket_answers" where
  "file_answers f =
     \<lparr>sa_exists = f \<noteq> NoSocket,
      sa_connect = (case f of LiveSocket _ \<Rightarrow> Inr () | StaleSocket \<Rightarrow> Inl (io_err ConnectionRefused [])
                      | NoSocket \<Rightarrow> Inl (io_err NotFound [])),
      sa_remove = Inr (), sa_bind = Inr ()\<rparr>"

fun bind_outcome :: "io_error + unit \<Rightarrow> bind_pc" where
  "bind_outcome (Inr _) = Listening"
| "bind_outcome (Inl e) = Refused (io_kind e)"

text \<open>Alone, the four steps are \<open>bind\<close>.\<close>

lemma bind_moves_alone:
  "snd s d = AtExists \<Longrightarrow>
     snd ((bind_move d ^^ 4) s) d = bind_outcome (fst (bind path (file_answers (fst s))))"
  by (cases "fst s") (simp_all add: eval_nat_numeral bind_move_def file_answers_def bind_def io_err_def)

definition live_race :: "bind_race \<Rightarrow> bool" where
  "live_race s \<longleftrightarrow> fst s \<noteq> StaleSocket \<and> (\<forall>d. snd s d \<noteq> AtRemove \<and> (snd s d = AtConnect \<longrightarrow> fst s \<noteq> NoSocket)
     \<and> (snd s d = Listening \<longleftrightarrow> fst s = LiveSocket d))"

lemma bind_next_live:
  assumes "bind_next d pc f = (pc', f')" "f \<noteq> StaleSocket" "pc \<noteq> AtRemove" "pc = AtConnect \<longrightarrow> f \<noteq> NoSocket"
    "pc = Listening \<longleftrightarrow> f = LiveSocket d"
  shows "f' \<noteq> StaleSocket \<and> pc' \<noteq> AtRemove \<and> (pc' = AtConnect \<longrightarrow> f' \<noteq> NoSocket)
    \<and> (pc' = Listening \<longleftrightarrow> f' = LiveSocket d) \<and> (f' = f \<or> f = NoSocket \<and> f' = LiveSocket d)"
  using assms by (cases pc; cases f) auto

lemma live_race_step: "bind_step s t \<Longrightarrow> live_race s \<Longrightarrow> live_race t"
proof (induction rule: bind_step.induct)
  case (bind_step_move s d)
  obtain pc f where moved: "bind_next d (snd s d) (fst s) = (pc, f)" by fastforce
  with bind_step_move bind_next_live[OF moved] have "f \<noteq> StaleSocket \<and> pc \<noteq> AtRemove
      \<and> (pc = AtConnect \<longrightarrow> f \<noteq> NoSocket) \<and> (pc = Listening \<longleftrightarrow> f = LiveSocket d)
      \<and> (f = fst s \<or> fst s = NoSocket \<and> f = LiveSocket d)"
    by (simp add: live_race_def)
  then show ?case
    using bind_step_move moved by (auto simp: live_race_def bind_move_def)
qed

definition starting :: "bind_race \<Rightarrow> bool" where
  "starting s \<longleftrightarrow> fst s = NoSocket \<and> snd s = (\<lambda>_. AtExists)"

interpretation race: step_invariant starting bind_step live_race
  by unfold_locales (simp add: starting_def live_race_def, rule live_race_step)


definition race_run :: "nat list \<Rightarrow> bind_race \<Rightarrow> bind_race" where
  "race_run ds s = foldl (\<lambda>s d. bind_move d s) s ds"

lemma race_run_steps: "bind_step\<^sup>*\<^sup>* s (race_run ds s)"
proof (induction ds arbitrary: s)
  case (Cons d ds)
  have "bind_step\<^sup>*\<^sup>* s (race_run ds (bind_move d s))"
    by (rule converse_rtranclp_into_rtranclp[OF bind_step_move Cons.IH])
  then show ?case by (simp add: race_run_def)
qed (simp add: race_run_def)


text \<open>
  C36: With the socket file of a daemon that died it is different. Both daemons find nobody
  answering; the first one removes the file and listens, and then the second one removes the live
  socket of the first, listens as well, and takes over its clients.
\<close>

theorem stale_socket_two_daemons:
  "bind_step\<^sup>*\<^sup>* (StaleSocket, \<lambda>_. AtExists) (race_run [0, 0, 1, 1, 0, 0, 1, 1] (StaleSocket, \<lambda>_. AtExists))
   \<and> (case race_run [0, 0, 1, 1, 0, 0, 1, 1] (StaleSocket, \<lambda>_. AtExists) of
        (f, pc) \<Rightarrow> f = LiveSocket 1 \<and> pc 0 = Listening \<and> pc 1 = Listening)"
  by (rule conjI[OF race_run_steps]) (simp add: race_run_def bind_move_def)

section \<open>The types of the protocol\<close>

datatype data_kind =
    K_Handshake | K_Targets | K_Sessions | K_Session | K_Command | K_Commands | K_FileStat
  | K_FileContent | K_FileOutcome | K_Events | K_Ack

fun kind_of :: "response_data \<Rightarrow> data_kind" where
  "kind_of (R_Handshake _ _) = K_Handshake"
| "kind_of (R_Targets _) = K_Targets"
| "kind_of (R_Sessions _) = K_Sessions"
| "kind_of (R_Session _) = K_Session"
| "kind_of (R_Command _) = K_Command"
| "kind_of (R_Commands _) = K_Commands"
| "kind_of (R_FileStat _) = K_FileStat"
| "kind_of (R_FileContent _) = K_FileContent"
| "kind_of (R_FileOutcome _) = K_FileOutcome"
| "kind_of (R_Events _) = K_Events"
| "kind_of R_Ack = K_Ack"

fun expected_kind :: "request \<Rightarrow> data_kind" where
  "expected_kind (Handshake _ _) = K_Handshake"
| "expected_kind TargetsList = K_Targets"
| "expected_kind (SessionsList _) = K_Sessions"
| "expected_kind (SessionCreate _ _) = K_Session"
| "expected_kind (SessionStatus _) = K_Session"
| "expected_kind (ExecStart _ _ _ _ _) = K_Command"
| "expected_kind (ExecBackground _ _ _ _ _) = K_Command"
| "expected_kind (CommandPoll _ _ _ _) = K_Events"
| "expected_kind (CommandsList _ _ _) = K_Commands"
| "expected_kind (ShellOpen _ _ _ _) = K_Session"
| "expected_kind (ShellRead _ _ _ _) = K_Events"
| "expected_kind (FileStat _ _ _) = K_FileStat"
| "expected_kind (FileRead _ _ _ _) = K_FileContent"
| "expected_kind (FileWrite _ _ _ _ _ _ _ _) = K_FileOutcome"
| "expected_kind (FileUpload _ _ _ _ _ _) = K_FileOutcome"
| "expected_kind (FileDownload _ _ _ _ _ _) = K_FileOutcome"
| "expected_kind _ = K_Ack"

text \<open>
  C10: An answer has the type of its request: whatever the daemon is asked and whatever state it is
  in, a successful answer is of the one kind of data that belongs to the request, so a client may
  take any other kind for a broken daemon.
\<close>

theorem answers_well_typed:
  "case dispatch pl mo cn req h of
     (Some (Inr d), _) \<Rightarrow> kind_of d = expected_kind req
   | _ \<Rightarrow> True"
  by (cases req)
    (auto simp: answer_def on_manager_def on_machine_def on_remote_def on_local_def poll_request_def
      read_request_def events_response_def map_sum_def split: option.splits sum.splits)

end
