(* ===== verification/Named_Pipe.thy ===== *)
theory Named_Pipe
  imports Protocol "HOL-Library.Word"
begin

text \<open>
  The endpoint on Windows: its name, derived from the configuration root by a 64-bit hash
  (\<open>crates/config/src/lib.rs\<close>), and the named pipe behind it (\<open>crates/ipc/src/windows.rs\<close>). The answers
  of the platform to creating and opening a pipe, and the identities of accounts, are arguments.
\<close>

unbundle bit_operations_syntax

section \<open>The name of the pipe\<close>

definition FNV_OFFSET :: "64 word" where
  "FNV_OFFSET = 0xcbf29ce484222325"

definition FNV_PRIME :: "64 word" where
  "FNV_PRIME = 0x00000100000001b3"

definition fnv_step :: "64 word \<Rightarrow> char \<Rightarrow> 64 word" where
  "fnv_step hash byte = (hash XOR of_nat (bval byte)) * FNV_PRIME"

text \<open>The argument is the text of the root, as \<open>to_string_lossy\<close> gives it.\<close>

definition endpoint_key :: "str \<Rightarrow> 64 word" where
  "endpoint_key root = foldl fnv_step FNV_OFFSET root"

definition hex_digit :: "nat \<Rightarrow> char" where
  "hex_digit d = (if d < 10 then char_of (48 + d) else char_of (87 + d))"

text \<open>\<open>{:016x}\<close> of a \<open>u64\<close> has exactly sixteen digits.\<close>

definition hex16 :: "64 word \<Rightarrow> str" where
  "hex16 v = map (\<lambda>i. hex_digit (unat v div 16 ^ i mod 16)) (rev [0..<16])"

definition pipe_endpoint :: "str \<Rightarrow> str" where
  "pipe_endpoint root = [CHR 0x5C, CHR 0x5C] @ ''.'' @ [CHR 0x5C] @ ''pipe'' @ [CHR 0x5C] @ ''aissh-'' @ hex16 (endpoint_key root)"

section \<open>The pipe\<close>

record pipe_error =
  pe_raw_os_error :: "nat option"
  pe_error :: io_error

definition ERROR_ACCESS_DENIED :: nat where
  "ERROR_ACCESS_DENIED = 5"

definition ERROR_PIPE_BUSY :: nat where
  "ERROR_PIPE_BUSY = 231"

definition CONNECT_ATTEMPTS :: nat where
  "CONNECT_ATTEMPTS = 40"

text \<open>The options an instance is created with; the platform refuses clients from other machines.\<close>

record pipe_options =
  first_pipe_instance :: bool
  reject_remote_clients :: bool

definition pipe_instance :: "(pipe_options \<Rightarrow> pipe_error + 'p) \<Rightarrow> bool \<Rightarrow> pipe_error + 'p" where
  "pipe_instance create first =
     create \<lparr>first_pipe_instance = first, reject_remote_clients = True\<rparr>"

definition pipe_bind :: "str \<Rightarrow> (pipe_options \<Rightarrow> pipe_error + 'p) \<Rightarrow> io_error + 'p" where
  "pipe_bind endpoint_path create =
     (case pipe_instance create True of
        Inr pending \<Rightarrow> Inr pending
      | Inl e \<Rightarrow>
          if pe_raw_os_error e = Some ERROR_ACCESS_DENIED
          then Inl (io_err AddrInUse (''aisshd is already running at '' @ endpoint_path))
          else Inl (io_err (io_kind (pe_error e))
                 (''cannot create daemon pipe '' @ endpoint_path @ '': '' @ io_message (pe_error e))))"

text \<open>
  \<open>accept\<close> hands the waiting instance out once the next one exists; the result is the connected
  instance and the one that is waiting afterwards.
\<close>

definition pipe_accept ::
  "'p \<Rightarrow> io_error + unit \<Rightarrow> (pipe_options \<Rightarrow> pipe_error + 'p) \<Rightarrow> (io_error + 'p) \<times> 'p" where
  "pipe_accept pending connected create =
     (case connected of
        Inl e \<Rightarrow> (Inl e, pending)
      | Inr _ \<Rightarrow>
          (case pipe_instance create False of
             Inl e \<Rightarrow> (Inl (pe_error e), pending)
           | Inr p \<Rightarrow> (Inr pending, p)))"

text \<open>The attempts of a client: the answer to each, and the pauses in milliseconds so far.\<close>

fun connect_loop :: "nat \<Rightarrow> nat \<Rightarrow> (nat \<Rightarrow> pipe_error + 'c) \<Rightarrow> nat \<Rightarrow> (io_error + 'c) option \<times> nat list" where
  "connect_loop 0 delay opened i = (None, [])"
| "connect_loop (Suc n) delay opened i =
     (case opened i of
        Inr client \<Rightarrow> (Some (Inr client), [])
      | Inl e \<Rightarrow>
          if pe_raw_os_error e = Some ERROR_PIPE_BUSY
          then (case connect_loop n (min (delay * 2) 50) opened (Suc i) of (r, ds) \<Rightarrow> (r, delay # ds))
          else (Some (Inl (pe_error e)), []))"

definition pipe_connect :: "str \<Rightarrow> (nat \<Rightarrow> pipe_error + 'c) \<Rightarrow> (io_error + 'c) \<times> nat list" where
  "pipe_connect endpoint_path opened =
     (case connect_loop CONNECT_ATTEMPTS 2 opened 0 of
        (Some r, ds) \<Rightarrow> (r, ds)
      | (None, ds) \<Rightarrow> (Inl (io_err WouldBlock (''named pipe '' @ endpoint_path @ '' stayed busy'')), ds))"

section \<open>Who is connected\<close>

text \<open>
  The answers of the platform about the token of a process. The first query only reports the
  size it needs; the second one fills the buffer, whose SID is read with its length.
\<close>

record token_answers =
  ta_open :: "io_error + unit"
  ta_needed :: nat
  ta_info :: "io_error + bytes"
  ta_last_error :: io_error

text \<open>Which handles a query opened and closed, in order.\<close>

datatype handle_kind = ProcessHandle | TokenHandle

datatype handle_event = Opened handle_kind | Closed handle_kind

definition token_sid :: "token_answers \<Rightarrow> io_error + bytes" where
  "token_sid ta =
     (if ta_needed ta = 0 then Inl (ta_last_error ta)
      else case ta_info ta of
        Inl e \<Rightarrow> Inl e
      | Inr sid \<Rightarrow> if length sid = 0 then Inl (ta_last_error ta) else Inr sid)"

definition process_user_sid :: "token_answers \<Rightarrow> (io_error + bytes) \<times> handle_event list" where
  "process_user_sid ta =
     (case ta_open ta of
        Inl e \<Rightarrow> (Inl e, [])
      | Inr _ \<Rightarrow> (token_sid ta, [Opened TokenHandle, Closed TokenHandle]))"

text \<open>The client's process, by its id, as far as this process may open it.\<close>

record client_answers =
  cl_process_id :: "io_error + nat"
  cl_open_process :: "nat \<Rightarrow> io_error + token_answers"

definition client_user_sid :: "client_answers \<Rightarrow> (io_error + bytes) \<times> handle_event list" where
  "client_user_sid cl =
     (case cl_process_id cl of
        Inl e \<Rightarrow> (Inl e, [])
      | Inr pid \<Rightarrow>
          (case cl_open_process cl pid of
             Inl e \<Rightarrow> (Inl e, [])
           | Inr ta \<Rightarrow>
               (case process_user_sid ta of
                  (r, hs) \<Rightarrow> (r, Opened ProcessHandle # hs @ [Closed ProcessHandle]))))"

definition pipe_same_user ::
  "client_answers \<Rightarrow> token_answers \<Rightarrow> (io_error + bool) \<times> handle_event list" where
  "pipe_same_user cl own =
     (case client_user_sid cl of
        (Inl e, hs) \<Rightarrow> (Inl e, hs)
      | (Inr client, hs) \<Rightarrow>
          (case process_user_sid own of
             (r, hs') \<Rightarrow> (map_sum id (\<lambda>daemon. client = daemon) r, hs @ hs')))"

text \<open>
  A client is found to be the same user only when both SIDs could be read and are the same bytes;
  everything that cannot be read is an error, which the daemon treats as a refusal.
\<close>

lemma pipe_same_user_iff:
  "fst (pipe_same_user cl own) = Inr True \<longleftrightarrow>
     (\<exists>sid. sid \<noteq> [] \<and> fst (client_user_sid cl) = Inr sid \<and> fst (process_user_sid own) = Inr sid)"
  by (auto simp: pipe_same_user_def client_user_sid_def process_user_sid_def token_sid_def
      split: sum.splits prod.splits if_splits)

text \<open>Every handle that was opened is closed, innermost first, whichever call fails.\<close>

fun handles_closed :: "handle_kind list \<Rightarrow> handle_event list \<Rightarrow> bool" where
  "handles_closed st [] \<longleftrightarrow> st = []"
| "handles_closed st (Opened k # hs) \<longleftrightarrow> handles_closed (k # st) hs"
| "handles_closed st (Closed k # hs) \<longleftrightarrow> (case st of [] \<Rightarrow> False | k' # st' \<Rightarrow> k' = k \<and> handles_closed st' hs)"

lemma pipe_same_user_handles: "handles_closed [] (snd (pipe_same_user cl own))"
  by (auto simp: pipe_same_user_def client_user_sid_def process_user_sid_def
      split: sum.splits prod.splits)

section \<open>Reading and writing\<close>

text \<open>A stream is either half of a pipe; polling it polls the pipe.\<close>

datatype ('s, 'c) pipe_stream = PipeServer 's | PipeClient 'c

definition pipe_poll_read :: "('s \<Rightarrow> 'b \<Rightarrow> 'r) \<Rightarrow> ('c \<Rightarrow> 'b \<Rightarrow> 'r) \<Rightarrow> ('s, 'c) pipe_stream \<Rightarrow> 'b \<Rightarrow> 'r" where
  "pipe_poll_read server client s buf =
     (case s of PipeServer p \<Rightarrow> server p buf | PipeClient p \<Rightarrow> client p buf)"

definition pipe_poll_write :: "('s \<Rightarrow> bytes \<Rightarrow> 'r) \<Rightarrow> ('c \<Rightarrow> bytes \<Rightarrow> 'r) \<Rightarrow> ('s, 'c) pipe_stream \<Rightarrow> bytes \<Rightarrow> 'r" where
  "pipe_poll_write server client s buf =
     (case s of PipeServer p \<Rightarrow> server p buf | PipeClient p \<Rightarrow> client p buf)"

definition pipe_poll_flush :: "('s \<Rightarrow> 'r) \<Rightarrow> ('c \<Rightarrow> 'r) \<Rightarrow> ('s, 'c) pipe_stream \<Rightarrow> 'r" where
  "pipe_poll_flush server client s = (case s of PipeServer p \<Rightarrow> server p | PipeClient p \<Rightarrow> client p)"

definition pipe_poll_shutdown :: "('s \<Rightarrow> 'r) \<Rightarrow> ('c \<Rightarrow> 'r) \<Rightarrow> ('s, 'c) pipe_stream \<Rightarrow> 'r" where
  "pipe_poll_shutdown server client s = (case s of PipeServer p \<Rightarrow> server p | PipeClient p \<Rightarrow> client p)"

section \<open>Different roots, different pipes\<close>

text \<open>The prime is odd, so multiplying by it can be undone.\<close>

lemma fnv_prime_inverse: "FNV_PRIME * 0xce965057aff6957b = 1"
  by (simp add: FNV_PRIME_def)

lemma fnv_prime_cancel: "a * FNV_PRIME = b * FNV_PRIME \<longleftrightarrow> a = b"
proof
  assume "a * FNV_PRIME = b * FNV_PRIME"
  then have "a * (FNV_PRIME * 0xce965057aff6957b) = b * (FNV_PRIME * 0xce965057aff6957b)"
    by (simp add: mult.assoc[symmetric])
  then show "a = b" by (simp add: fnv_prime_inverse)
qed simp

lemma xor_cancel: "(a XOR c) = (b XOR c) \<longleftrightarrow> a = b" for a b c :: "64 word"
proof
  assume "(a XOR c) = (b XOR c)"
  then have "((a XOR c) XOR c) = ((b XOR c) XOR c)" by simp
  then show "a = b" by (simp add: xor.assoc)
qed simp

lemma fnv_step_hash: "fnv_step a c = fnv_step b c \<longleftrightarrow> a = b"
  by (simp add: fnv_step_def fnv_prime_cancel xor_cancel)

lemma bval_less: "bval c < 256"
  by (metis bval_def of_char_mod_256 mod_less_divisor zero_less_numeral)

lemma fnv_step_byte: "fnv_step a b = fnv_step a c \<longleftrightarrow> b = c"
proof
  assume "fnv_step a b = fnv_step a c"
  then have "(a XOR of_nat (bval b)) = (a XOR of_nat (bval c))"
    unfolding fnv_step_def by (simp only: fnv_prime_cancel)
  then have "(of_nat (bval b) XOR a :: 64 word) = of_nat (bval c) XOR a" by (simp only: xor.commute)
  then have eq: "(of_nat (bval b) :: 64 word) = of_nat (bval c)" by (simp add: xor_cancel)
  have "unat (of_nat (bval x) :: 64 word) = bval x" for x
    using bval_less[of x] by (simp add: unsigned_of_nat take_bit_nat_eq_self)
  then have "bval b = bval c" using eq by metis
  then show "b = c" by (simp add: bval_def)
qed simp

lemma fnv_fold: "foldl fnv_step a bs = foldl fnv_step b bs \<longleftrightarrow> a = b"
  by (induction bs arbitrary: a b) (simp_all add: fnv_step_hash)

lemma hex_digit_inj: "d < 16 \<Longrightarrow> e < 16 \<Longrightarrow> hex_digit d = hex_digit e \<longleftrightarrow> d = e"
proof -
  assume "d < 16" "e < 16"
  moreover have "char_of m = (char_of n :: char) \<longleftrightarrow> m = n" if "m < 256" "n < 256" for m n :: nat
    using that by (metis char_of_mod_256 of_char_of mod_less)
  ultimately show ?thesis by (auto simp: hex_digit_def)
qed

lemma nibbles:
  "(\<forall>i < k. n div 16 ^ i mod 16 = m div 16 ^ i mod (16 :: nat)) \<Longrightarrow> n < 16 ^ k \<Longrightarrow> m < 16 ^ k \<Longrightarrow> n = m"
proof (induction k arbitrary: n m)
  case (Suc k)
  have "n div 16 div 16 ^ i mod 16 = m div 16 div 16 ^ i mod 16" if "i < k" for i
    using Suc.prems(1)[rule_format, of "Suc i"] that by (simp add: div_mult2_eq)
  moreover have "n div 16 < 16 ^ k" "m div 16 < 16 ^ k" using Suc.prems(2,3) by auto
  ultimately have "n div 16 = m div 16" using Suc.IH by blast
  moreover have "n mod 16 = m mod 16" using Suc.prems(1)[rule_format, of 0] by simp
  ultimately show ?case by (metis div_mult_mod_eq)
qed simp

lemma hex16_inj: "hex16 v = hex16 w \<longleftrightarrow> v = w"
proof
  assume "hex16 v = hex16 w"
  then have "\<forall>i < 16. unat v div 16 ^ i mod 16 = unat w div 16 ^ i mod 16"
    by (auto simp: hex16_def hex_digit_inj)
  moreover have "unat v < 16 ^ 16" "unat w < 16 ^ 16"
    using unsigned_less[of v] unsigned_less[of w] by simp_all
  ultimately have "unat v = unat w" by (rule nibbles)
  then show "v = w" by (rule unsigned_word_eqI)
qed simp

text \<open>
  Two roots that differ in one byte never share a pipe: however long they are and wherever they
  differ, the names of their endpoints are different, because every step of the hash can be
  undone and the sixteen digits show all of it.
\<close>

theorem one_byte_other_pipe:
  assumes "r = xs @ b # ys" "r' = xs @ c # ys" "b \<noteq> c"
  shows "pipe_endpoint r \<noteq> pipe_endpoint r'"
  using assms by (simp add: pipe_endpoint_def endpoint_key_def hex16_inj fnv_fold fnv_step_byte)

theorem one_byte_other_pipe_witness: "pipe_endpoint ''C:a'' \<noteq> pipe_endpoint ''D:a''"
  by (rule one_byte_other_pipe[of _ "[]" "CHR ''C''" "'':a''" _ "CHR ''D''"]) simp_all

text \<open>For roots in general the hash is only a hash: there are more roots than names.\<close>

lemma pipes_collide: "\<exists>r r'. r \<noteq> r' \<and> pipe_endpoint r = pipe_endpoint r'"
proof -
  have "\<not> inj endpoint_key"
    using finite_imageD[of endpoint_key UNIV] finite_subset[OF subset_UNIV finite, of "range endpoint_key"]
      infinite_UNIV_listI by blast
  then obtain r r' where "r \<noteq> r'" "endpoint_key r = endpoint_key r'" by (auto simp: inj_def)
  then show ?thesis by (intro exI[of _ r] exI[of _ r']) (simp add: pipe_endpoint_def)
qed

text \<open>A client gives up after forty attempts and has waited less than two seconds by then.\<close>

lemma connect_loop_bound:
  "length (snd (connect_loop n delay opened i)) \<le> n
    \<and> (delay \<le> 50 \<longrightarrow> sum_list (snd (connect_loop n delay opened i)) \<le> n * 50)"
  by (induction n delay opened i rule: connect_loop.induct) (auto split: sum.splits prod.splits)

lemma pipe_connect_bound: "length (snd (pipe_connect p opened)) \<le> 40 \<and> sum_list (snd (pipe_connect p opened)) \<le> 2000"
  using connect_loop_bound[of CONNECT_ATTEMPTS 2 opened 0]
  by (auto simp: pipe_connect_def CONNECT_ATTEMPTS_def split: prod.splits option.splits)

end
