(* ===== verification/Ipc.thy ===== *)
theory Ipc
  imports Daemon Named_Pipe
begin

text \<open>
  The transport the daemon and its clients share (\<open>crates/ipc/src/lib.rs\<close>): a listener and a stream
  that are a Unix socket or a Windows named pipe, chosen when the program is built. \<open>Daemon\<close> and
  \<open>Named_Pipe\<close> hold the two implementations.
\<close>

section \<open>Listeners and streams\<close>

datatype 'p listener = UnixListener str | PipeListener str 'p

datatype ('u, 's, 'c) ipc_stream = UnixStream 'u | PipeStream "('s, 'c) pipe_stream"

text \<open>What the platform answers: the socket calls on Unix, creating an instance on Windows.\<close>

record ('u, 'p, 'c) ipc_answers =
  ia_socket :: socket_answers
  ia_set_mode :: "str \<Rightarrow> nat \<Rightarrow> io_error + unit"
  ia_socket_accept :: "io_error + 'u"
  ia_socket_connect :: "io_error + 'u"
  ia_create :: "pipe_options \<Rightarrow> pipe_error + 'p"
  ia_pipe_connected :: "io_error + unit"
  ia_pipe_open :: "nat \<Rightarrow> pipe_error + 'c"

definition ipc_bind :: "bool \<Rightarrow> str \<Rightarrow> ('u, 'p, 'c) ipc_answers \<Rightarrow> io_error + 'p listener" where
  "ipc_bind windows path a =
     (if windows then map_sum id (PipeListener path) (pipe_bind path (ia_create a))
      else map_sum id (\<lambda>_. UnixListener path) (fst (bind path (ia_socket a))))"

fun ipc_accept :: "('u, 'p, 'c) ipc_answers \<Rightarrow> 'p listener \<Rightarrow> (io_error + ('u, 'p, 'c) ipc_stream) \<times> 'p listener" where
  "ipc_accept a (UnixListener path) = (map_sum id UnixStream (ia_socket_accept a), UnixListener path)"
| "ipc_accept a (PipeListener path pending) =
     (case pipe_accept pending (ia_pipe_connected a) (ia_create a) of
        (r, waiting) \<Rightarrow> (map_sum id (\<lambda>p. PipeStream (PipeServer p)) r, PipeListener path waiting))"

fun ipc_harden :: "('u, 'p, 'c) ipc_answers \<Rightarrow> 'p listener \<Rightarrow> io_error + unit" where
  "ipc_harden a (UnixListener path) = ia_set_mode a path mode_600"
| "ipc_harden a (PipeListener path pending) = Inr ()"

text \<open>The file that is removed when the daemon stops; removing it may fail, which is ignored.\<close>

fun ipc_cleanup :: "'p listener \<Rightarrow> str option" where
  "ipc_cleanup (UnixListener path) = Some path"
| "ipc_cleanup (PipeListener path pending) = None"

fun ipc_endpoint :: "'p listener \<Rightarrow> str" where
  "ipc_endpoint (UnixListener path) = path"
| "ipc_endpoint (PipeListener path pending) = path"

definition ipc_connect :: "bool \<Rightarrow> str \<Rightarrow> ('u, 'p, 'c) ipc_answers \<Rightarrow> io_error + ('u, 'p, 'c) ipc_stream" where
  "ipc_connect windows path a =
     (if windows then map_sum id (\<lambda>c. PipeStream (PipeClient c)) (fst (pipe_connect path (ia_pipe_open a)))
      else map_sum id UnixStream (ia_socket_connect a))"

text \<open>Who is at the other end: user numbers on Unix, account identifiers on Windows.\<close>

definition ipc_same_user ::
  "('u \<Rightarrow> io_error + nat) \<Rightarrow> nat \<Rightarrow> (('p, 'c) pipe_stream \<Rightarrow> client_answers) \<Rightarrow> token_answers
    \<Rightarrow> ('u, 'p, 'c) ipc_stream \<Rightarrow> io_error + bool" where
  "ipc_same_user peer_uid euid client own s =
     (case s of
        UnixStream u \<Rightarrow> same_user euid (peer_uid u)
      | PipeStream p \<Rightarrow> fst (pipe_same_user (client p) own))"

section \<open>The promises of the transport\<close>

text \<open>A listener keeps its endpoint, and after a failed \<open>accept\<close> it is as it was.\<close>

lemma ipc_accept_endpoint: "ipc_endpoint (snd (ipc_accept a l)) = ipc_endpoint l"
  by (cases l) (auto split: prod.split)

lemma ipc_accept_failed: "fst (ipc_accept a l) = Inl e \<Longrightarrow> snd (ipc_accept a l) = l"
  by (cases l) (auto simp: pipe_accept_def split: sum.splits prod.splits)

text \<open>Every pipe refuses clients from other machines, and only the first one claims the name.\<close>

lemma pipe_instance_options:
  "(\<And>opts. reject_remote_clients opts \<Longrightarrow> create opts = create' opts) \<Longrightarrow>
     pipe_instance create first = pipe_instance create' first"
  by (simp add: pipe_instance_def)

text \<open>The account of the peer, as far as the platform tells it.\<close>

definition peer_is_user ::
  "('u \<Rightarrow> io_error + nat) \<Rightarrow> nat \<Rightarrow> (('p, 'c) pipe_stream \<Rightarrow> client_answers) \<Rightarrow> token_answers
    \<Rightarrow> ('u, 'p, 'c) ipc_stream \<Rightarrow> bool" where
  "peer_is_user peer_uid euid client own s \<longleftrightarrow>
     (case s of
        UnixStream u \<Rightarrow> peer_uid u = Inr euid
      | PipeStream p \<Rightarrow> \<exists>sid. sid \<noteq> [] \<and> fst (client_user_sid (client p)) = Inr sid
                              \<and> fst (process_user_sid own) = Inr sid)"

lemma names_path: "\<exists>before after. u @ path @ v = before @ path @ after"
  by blast

text \<open>
  C29: The transport keeps the same promises on both platforms. Binding an endpoint that a live daemon
  owns - the socket answers, or the name's first instance is taken - fails with \<open>AddrInUse\<close> and
  names the endpoint; a bound listener is at the endpoint that was asked for; and a peer counts as
  the same user only when its account could be read and is the daemon's.
\<close>

theorem transport_promises:
  "(if (if windows then (\<exists>e. ia_create a \<lparr>first_pipe_instance = True, reject_remote_clients = True\<rparr> = Inl e
                           \<and> pe_raw_os_error e = Some ERROR_ACCESS_DENIED)
        else sa_exists (ia_socket a) \<and> sa_connect (ia_socket a) = Inr ())
    then ipc_bind windows path a = Inl (io_err AddrInUse (''aisshd is already running at '' @ path))
    else (case ipc_bind windows path a of
            Inr l \<Rightarrow> ipc_endpoint l = path \<and> ipc_cleanup l = (if windows then None else Some path)
          | Inl e \<Rightarrow> \<exists>before after. io_message e = before @ path @ after))
   \<and> (ipc_same_user peer_uid euid client own s = Inr True \<longleftrightarrow> peer_is_user peer_uid euid client own s)"
proof (rule conjI, goal_cases)
  case 1
  show ?case
  proof (cases windows)
    case True
    then show ?thesis
      by (cases "ia_create a \<lparr>first_pipe_instance = True, reject_remote_clients = True\<rparr>")
        (auto simp: ipc_bind_def pipe_bind_def pipe_instance_def io_err_def intro: names_path[of "''cannot create daemon pipe ''", simplified])
  next
    case False
    then show ?thesis
      by (cases "sa_connect (ia_socket a)"; cases "sa_remove (ia_socket a)"; cases "sa_bind (ia_socket a)")
        (auto simp: ipc_bind_def bind_def Let_def io_err_def
          intro: names_path[of "''cannot bind daemon socket ''", simplified]
            names_path[of "''cannot remove stale socket ''", simplified]
            names_path[of "''cannot inspect existing socket ''", simplified])
  qed
next
  case 2
  show ?case
    by (cases s) (simp_all add: ipc_same_user_def peer_is_user_def pipe_same_user_iff,
      cases "peer_uid (case s of UnixStream u \<Rightarrow> u)", auto simp: same_user_def)
qed

end
