(* ===== verification/Win_Permissions.thy ===== *)
theory Win_Permissions
  imports Named_Pipe
begin

text \<open>
  File permissions on Windows (\<open>crates/config/src/permissions.rs\<close>): the DACL that makes a path
  owner-only, the check that an existing one is, and the text conversions around them. The security
  functions of the platform are the fields of the record \<open>win_security\<close>; what they promise is the
  locale \<open>windows_acl\<close>.
\<close>

section \<open>Wide strings\<close>

text \<open>The scalar value of a character, from its bytes, and back.\<close>

fun code_point :: "str \<Rightarrow> nat" where
  "code_point [a] = bval a"
| "code_point [a, b] = (bval a mod 32) * 64 + bval b mod 64"
| "code_point [a, b, c] = (bval a mod 16) * 4096 + (bval b mod 64) * 64 + bval c mod 64"
| "code_point [a, b, c, d] =
     (bval a mod 8) * 262144 + (bval b mod 64) * 4096 + (bval c mod 64) * 64 + bval d mod 64"
| "code_point _ = 0"

definition encode_utf8 :: "nat \<Rightarrow> str" where
  "encode_utf8 v =
     (if v < 128 then [char_of v]
      else if v < 2048 then [char_of (192 + v div 64), char_of (128 + v mod 64)]
      else if v < 65536 then
        [char_of (224 + v div 4096), char_of (128 + v div 64 mod 64), char_of (128 + v mod 64)]
      else [char_of (240 + v div 262144), char_of (128 + v div 4096 mod 64),
            char_of (128 + v div 64 mod 64), char_of (128 + v mod 64)])"

definition encode_utf16 :: "nat \<Rightarrow> nat list" where
  "encode_utf16 v =
     (if v < 65536 then [v] else [55296 + (v - 65536) div 1024, 56320 + (v - 65536) mod 1024])"

definition high_surrogate :: "nat \<Rightarrow> bool" where
  "high_surrogate u \<longleftrightarrow> 55296 \<le> u \<and> u < 56320"

definition low_surrogate :: "nat \<Rightarrow> bool" where
  "low_surrogate u \<longleftrightarrow> 56320 \<le> u \<and> u < 57344"

fun decode_utf16 :: "nat list \<Rightarrow> nat list" where
  "decode_utf16 [] = []"
| "decode_utf16 (u # us) =
     (if low_surrogate u then 65533 # decode_utf16 us
      else if high_surrogate u then
        (case us of
           [] \<Rightarrow> [65533]
         | v # vs \<Rightarrow>
             if low_surrogate v then (65536 + (u - 55296) * 1024 + (v - 56320)) # decode_utf16 vs
             else 65533 # decode_utf16 us)
      else u # decode_utf16 us)"

definition to_wide :: "str \<Rightarrow> nat list" where
  "to_wide value = concat (map (\<lambda>c. encode_utf16 (code_point c)) (chars value)) @ [0]"

text \<open>The argument is the memory behind the pointer; the loop stops at the first zero in it.\<close>

definition wide_to_string :: "nat list \<Rightarrow> str" where
  "wide_to_string value = concat (map encode_utf8 (decode_utf16 (takeWhile (\<lambda>u. u \<noteq> 0) value)))"

section \<open>The account of this process\<close>

definition current_user_sid :: "token_answers \<Rightarrow> (bytes \<Rightarrow> nat list option) \<Rightarrow> str" where
  "current_user_sid ta sid_to_string =
     (case ta_open ta of
        Inl _ \<Rightarrow> []
      | Inr _ \<Rightarrow>
          if ta_needed ta = 0 then []
          else (case ta_info ta of
                  Inl _ \<Rightarrow> []
                | Inr sid \<Rightarrow>
                    if length sid = 0 then []
                    else (case sid_to_string sid of None \<Rightarrow> [] | Some t \<Rightarrow> wide_to_string t)))"

section \<open>Restricting a path\<close>

definition LOCAL_SYSTEM :: str where
  "LOCAL_SYSTEM = ''SY''"

definition ADMINISTRATORS :: str where
  "ADMINISTRATORS = ''BA''"

definition CREATOR_OWNER :: str where
  "CREATOR_OWNER = ''CO''"

definition owner_only_sddl :: "str \<Rightarrow> bool \<Rightarrow> str" where
  "owner_only_sddl owner inheritable =
     (let flags = (if inheritable then ''OICI'' else '''') in
      ''D:P(A;'' @ flags @ '';FA;;;'' @ owner @ '')(A;'' @ flags @ '';FA;;;'' @ LOCAL_SYSTEM
        @ '')(A;'' @ flags @ '';FA;;;'' @ ADMINISTRATORS @ '')'')"

text \<open>
  The platform: descriptors are \<open>'d\<close>, access lists \<open>'a\<close>, and the state of the file system \<open>'w\<close>.
  Setting and reading an access list answer a status, zero for success.
\<close>

record ('d, 'a, 'w) win_security =
  ws_parse :: "nat list \<Rightarrow> io_error + 'd"
  ws_dacl :: "'d \<Rightarrow> io_error + 'a option"
  ws_set :: "nat list \<Rightarrow> 'a \<Rightarrow> 'w \<Rightarrow> nat \<times> 'w"
  ws_get :: "nat list \<Rightarrow> 'w \<Rightarrow> nat \<times> ('d \<times> 'a option)"
  ws_render :: "'d \<Rightarrow> io_error + nat list"
  ws_os_error :: "nat \<Rightarrow> io_error"
  ws_is_dir :: "str \<Rightarrow> 'w \<Rightarrow> bool"
  ws_token :: token_answers
  ws_sid_text :: "bytes \<Rightarrow> nat list option"

abbreviation ws_owner :: "('d, 'a, 'w) win_security \<Rightarrow> str" where
  "ws_owner ws \<equiv> current_user_sid (ws_token ws) (ws_sid_text ws)"

definition win_restrict :: "('d, 'a, 'w) win_security \<Rightarrow> str \<Rightarrow> 'w \<Rightarrow> (io_error + unit) \<times> 'w" where
  "win_restrict ws path w =
     (case ws_parse ws (to_wide (owner_only_sddl (ws_owner ws) (ws_is_dir ws path w))) of
        Inl e \<Rightarrow> (Inl e, w)
      | Inr descriptor \<Rightarrow>
          (case ws_dacl ws descriptor of
             Inl e \<Rightarrow> (Inl e, w)
           | Inr None \<Rightarrow>
               (Inl (io_err OtherIo ''the generated security descriptor carries no DACL''), w)
           | Inr (Some dacl) \<Rightarrow>
               (case ws_set ws (to_wide path) dacl w of
                  (status, w') \<Rightarrow>
                    (if status \<noteq> 0 then Inl (ws_os_error ws status) else Inr (), w'))))"

section \<open>Checking a path\<close>

definition dacl_sddl :: "('d, 'a, 'w) win_security \<Rightarrow> str \<Rightarrow> 'w \<Rightarrow> io_error + str" where
  "dacl_sddl ws path w =
     (case ws_get ws (to_wide path) w of
        (status, descriptor, dacl) \<Rightarrow>
          if status \<noteq> 0 then Inl (ws_os_error ws status)
          else (case dacl of
                  None \<Rightarrow> Inl (io_err OtherIo
                    ''the file has no DACL, so every account has full control'')
                | Some _ \<Rightarrow>
                    (case ws_render ws descriptor of
                       Inl e \<Rightarrow> Inl e
                     | Inr t \<Rightarrow> Inr (wide_to_string t))))"

text \<open>\<open>str::split\<close> with one character: there is always a first field.\<close>

fun split_char :: "char \<Rightarrow> str \<Rightarrow> str list" where
  "split_char c [] = [[]]"
| "split_char c (x # xs) =
     (if x = c then [] # split_char c xs
      else (case split_char c xs of [] \<Rightarrow> [[x]] | f # fs \<Rightarrow> (x # f) # fs))"

function ace_fields :: "str \<Rightarrow> str list list" where
  "ace_fields rest =
     (case dropWhile (\<lambda>c. c \<noteq> CHR ''('') rest of
        [] \<Rightarrow> []
      | _ # after \<Rightarrow>
          (case dropWhile (\<lambda>c. c \<noteq> CHR '')'') after of
             [] \<Rightarrow> []
           | closing # others \<Rightarrow>
               split_char (CHR '';'') (takeWhile (\<lambda>c. c \<noteq> CHR '')'') after)
                 # ace_fields (closing # others)))"
  by pat_completeness auto
termination
proof (relation "measure length")
  fix rest after closing others and x :: char
  assume a: "dropWhile (\<lambda>c. c \<noteq> CHR ''('') rest = x # after"
    and b: "dropWhile (\<lambda>c. c \<noteq> CHR '')'') after = closing # others"
  have "length (x # after) \<le> length rest" using length_dropWhile_le[of "\<lambda>c. c \<noteq> CHR ''(''" rest] a by simp
  moreover have "length (closing # others) \<le> length after"
    using length_dropWhile_le[of "\<lambda>c. c \<noteq> CHR '')''" after] b by simp
  ultimately show "(closing # others, rest) \<in> measure length" by simp
qed simp

declare ace_fields.simps [simp del]

fun check_aces :: "str list \<Rightarrow> str list list \<Rightarrow> str + unit" where
  "check_aces allowed [] = Inr ()"
| "check_aces allowed (ace # aces) =
     (let kind = (case ace of [] \<Rightarrow> [] | k # _ \<Rightarrow> k) in
      if kind = ''A'' then
        (let granted = (if 5 < length ace then ace ! 5 else []) in
         if granted \<notin> set allowed then Inl (granted @ '' is granted access'')
         else check_aces allowed aces)
      else if kind = ''OA'' then Inl ''object ACE on a file that must stay owner-only''
      else check_aces allowed aces)"

definition win_check :: "('d, 'a, 'w) win_security \<Rightarrow> str \<Rightarrow> 'w \<Rightarrow> str + unit" where
  "win_check ws path w =
     (case dacl_sddl ws path w of
        Inl e \<Rightarrow> Inl (io_message e)
      | Inr dacl \<Rightarrow>
          check_aces [ws_owner ws, LOCAL_SYSTEM, ADMINISTRATORS, CREATOR_OWNER] (ace_fields dacl))"

section \<open>Wide strings keep the text\<close>

definition scalar :: "nat \<Rightarrow> bool" where
  "scalar v \<longleftrightarrow> v < 55296 \<or> (57344 \<le> v \<and> v < 1114112)"

lemma char_of_bval [simp]: "char_of (bval c) = c"
  by (simp add: bval_def)

lemma digits_64:
  "z < 64 \<Longrightarrow> (a * 64 + z) div 64 = (a :: nat)" "z < 64 \<Longrightarrow> (a * 64 + z) mod 64 = (z :: nat)"
  by simp_all

lemma encode_utf8_2:
  assumes "2 \<le> x" "x < 32" "y < 64"
  shows "encode_utf8 (x * 64 + y) = [char_of (192 + x), char_of (128 + y)]"
  using assms by (simp add: encode_utf8_def digits_64)

text \<open>The digits of a number in base 64, from the outside in.\<close>

lemma div_64:
  assumes "v = n * 64 + u" "u < (64 :: nat)"
  shows "v div 64 = n" "v mod 64 = u" "v div 4096 = n div 64" "v div 262144 = n div 64 div 64"
proof -
  show "v mod 64 = u" using digits_64(2)[OF assms(2)] assms(1) by metis
  show 1: "v div 64 = n" using digits_64(1)[OF assms(2)] assms(1) by metis
  have "v div (64 * 64) = n div 64" unfolding div_mult2_eq 1 by (rule refl)
  then show "v div 4096 = n div 64" by simp
  have "v div (64 * (64 * 64)) = n div 64 div 64" unfolding div_mult2_eq 1 by (rule refl)
  then show "v div 262144 = n div 64 div 64" by simp
qed

lemma encode_utf8_3:
  assumes "v = (x * 64 + y) * 64 + z" "32 \<le> x * 64 + y" "x < 16" "y < 64" "z < 64"
  shows "encode_utf8 v = [char_of (224 + x), char_of (128 + y), char_of (128 + z)]"
proof -
  note d = div_64[OF assms(1,5)]
  have "v div 4096 = x" using d(3) assms(4) by (simp only: digits_64)
  moreover have "\<not> v < 128" "\<not> v < 2048" "v < 65536" using assms by simp_all
  ultimately show ?thesis
    using d(1,2) digits_64(2)[OF assms(4)] by (simp only: encode_utf8_def if_False if_True)
qed

lemma encode_utf8_4:
  assumes "v = ((x * 64 + y) * 64 + z) * 64 + u" "16 \<le> x * 64 + y" "y < 64" "z < 64" "u < 64"
  shows "encode_utf8 v =
    [char_of (240 + x), char_of (128 + y), char_of (128 + z), char_of (128 + u)]"
proof -
  note d = div_64[OF assms(1,5)]
  have "v div 4096 = x * 64 + y" using d(3) assms(4) by (simp only: digits_64)
  moreover have "v div 262144 = x" using d(4) assms(3,4) by (simp only: digits_64)
  moreover have "\<not> v < 128" "\<not> v < 2048" "\<not> v < 65536" using assms by simp_all
  ultimately show ?thesis
    using d(1,2) digits_64(2)[OF assms(3)] digits_64(2)[OF assms(4)]
    by (simp only: encode_utf8_def if_False)
qed

lemma mod_plus_mult: "x < k \<Longrightarrow> (k * m + x) mod k = (x :: nat)"
  by simp

lemma mod_offset:
  "x < 32 \<Longrightarrow> (192 + x) mod 32 = (x :: nat)" "x < 16 \<Longrightarrow> (224 + x) mod 16 = (x :: nat)"
  "x < 8 \<Longrightarrow> (240 + x) mod 8 = (x :: nat)" "x < 64 \<Longrightarrow> (128 + x) mod 64 = (x :: nat)"
  using mod_plus_mult[of x 32 6] mod_plus_mult[of x 16 14] mod_plus_mult[of x 8 30]
    mod_plus_mult[of x 64 2] by simp_all

lemma utf8_next_shape:
  assumes "utf8_next s = UChar w"
  obtains (one) a r where "s = a # r" "w = 1" "bval a < 128"
  | (two) a b r where "s = a # b # r" "w = 2" "194 \<le> bval a" "bval a \<le> 223" "is_cont b"
  | (three) a b c r where "s = a # b # c # r" "w = 3" "second_of_3 (bval a) (bval b)" "is_cont c"
  | (four) a b c d r where "s = a # b # c # d # r" "w = 4" "second_of_4 (bval a) (bval b)"
      "is_cont c" "is_cont d"
proof -
  obtain a r where s: "s = a # r" using assms by (cases s) auto
  have tail1: "\<exists>c cs. bs = c # cs \<and> is_cont c \<and> w = Suc k" if "utf8_tail k (Suc 0) bs = UChar w" for k bs
    using that by (cases bs) (auto split: if_splits)
  have tail2: "\<exists>c d cs. bs = c # d # cs \<and> is_cont c \<and> is_cont d \<and> w = Suc (Suc k)"
    if "utf8_tail k (Suc (Suc 0)) bs = UChar w" for k bs
    using that by (cases bs; cases "tl bs") (auto split: if_splits)
  show thesis
    using assms s one two three four
    by (auto simp: numeral_2_eq_2 split: if_splits list.splits dest!: tail1 tail2)
qed

lemma scalar_3:
  assumes "x < 16" "y < 64" "z < 64" "x = 13 \<longrightarrow> y < 32"
  shows "scalar (x * 4096 + y * 64 + z)"
proof -
  consider "x < 13" | "x = 13" | "14 \<le> x" by linarith
  then show ?thesis using assms by cases (simp_all add: scalar_def)
qed

lemma scalar_4:
  assumes "x < 5" "y < 64" "z < 64" "u < 64" "16 \<le> x * 64 + y" "x = 4 \<longrightarrow> y < 16"
  shows "scalar (x * 262144 + y * 4096 + z * 64 + u)"
proof -
  consider "x < 4" | "x = 4" using assms(1) by linarith
  then show ?thesis using assms by cases (simp_all add: scalar_def)
qed

lemma code_point_char:
  assumes "utf8_next s = UChar w"
  shows "encode_utf8 (code_point (take w s)) = take w s \<and> scalar (code_point (take w s))"
  using assms
proof (cases rule: utf8_next_shape)
  case (one a r)
  then show ?thesis by (simp add: encode_utf8_def scalar_def)
next
  case (two a b r)
  then obtain x y where "bval a = 192 + x" "bval b = 128 + y" "2 \<le> x" "x < 32" "y < 64"
    using that[of "bval a - 192" "bval b - 128"] by (auto simp: is_cont_def)
  moreover from this have "char_of (192 + x) = a" "char_of (128 + y) = b"
    by (metis char_of_bval)+
  ultimately show ?thesis using two encode_utf8_2[of x y] by (simp add: scalar_def mod_offset)
next
  case (three a b c r)
  then obtain x y z where "bval a = 224 + x" "bval b = 128 + y" "bval c = 128 + z"
    "x < 16" "y < 64" "z < 64" "32 \<le> x * 64 + y" "x = 13 \<longrightarrow> y < 32"
    using that[of "bval a - 224" "bval b - 128" "bval c - 128"]
    by (auto simp: second_of_3_def is_cont_def)
  moreover from this have "char_of (224 + x) = a" "char_of (128 + y) = b" "char_of (128 + z) = c"
    by (metis char_of_bval)+
  ultimately show ?thesis using three encode_utf8_3[of "x * 4096 + y * 64 + z" x y z]
      scalar_3[of x y z] by (simp add: mod_offset)
next
  case (four a b c d r)
  then obtain x y z u where "bval a = 240 + x" "bval b = 128 + y" "bval c = 128 + z" "bval d = 128 + u"
    "x < 5" "y < 64" "z < 64" "u < 64" "16 \<le> x * 64 + y" "x = 4 \<longrightarrow> y < 16"
    using that[of "bval a - 240" "bval b - 128" "bval c - 128" "bval d - 128"]
    by (auto simp: second_of_4_def is_cont_def)
  moreover from this have "char_of (240 + x) = a" "char_of (128 + y) = b" "char_of (128 + z) = c"
    "char_of (128 + u) = d"
    by (metis char_of_bval)+
  ultimately show ?thesis using four encode_utf8_4[of "x * 262144 + y * 4096 + z * 64 + u" x y z u]
      scalar_4[of x y z u] by (simp add: mod_offset)
qed

lemma decode_encode_utf16: "scalar v \<Longrightarrow> decode_utf16 (encode_utf16 v @ us) = v # decode_utf16 us"
  by (auto simp: encode_utf16_def scalar_def low_surrogate_def high_surrogate_def)

lemma encode_utf16_zero: "0 \<in> set (encode_utf16 v) \<longleftrightarrow> v = 0"
  by (auto simp: encode_utf16_def)

lemma valid_utf8_next: "valid_utf8 s \<Longrightarrow> s \<noteq> [] \<Longrightarrow> \<exists>w. utf8_next s = UChar w \<and> valid_utf8 (drop w s)"
  by (cases "utf8_next s")
    (auto simp: valid_utf8_def from_utf8_UChar from_utf8_UIncomplete from_utf8_UInvalid
      split: utf8_result.splits)

lemma char_not_nul:
  assumes "utf8_next s = UChar w" "CHR 0x00 \<notin> set s"
  shows "code_point (take w s) \<noteq> 0"
proof
  assume "code_point (take w s) = 0"
  then have "take w s = [CHR 0x00]"
    using code_point_char[OF assms(1)] by (simp add: encode_utf8_def char_of_def)
  then show False using assms(2) in_set_takeD[of "CHR 0x00" w s] by simp
qed

lemma wide_round_trip:
  "valid_utf8 s \<Longrightarrow> CHR 0x00 \<notin> set s \<Longrightarrow> wide_to_string (to_wide s @ us) = s"
proof (induction s rule: chars.induct)
  case (1 s)
  show ?case
  proof (cases "s = []")
    case False
    then obtain w where w: "utf8_next s = UChar w" "valid_utf8 (drop w s)"
      using valid_utf8_next[OF "1.prems"(1)] by auto
    have nul: "CHR 0x00 \<notin> set (drop w s)" using "1.prems"(2) by (meson in_set_dropD)
    have "wide_to_string (to_wide (drop w s) @ us) = drop w s" using "1.IH"(1)[OF False w(1) w(2) nul] by simp
    moreover have "0 \<notin> set (encode_utf16 (code_point (take w s)))"
      using char_not_nul[OF w(1) "1.prems"(2)] by (simp add: encode_utf16_zero)
    ultimately show ?thesis
      using False w code_point_char[OF w(1)]
      by (simp add: wide_to_string_def to_wide_def chars.simps[of s] takeWhile_append
          decode_encode_utf16)
  qed (simp add: wide_to_string_def to_wide_def)
qed

section \<open>What the check accepts\<close>

text \<open>An access list as the platform renders it: a prefix, and entries of fields.\<close>

fun join_fields :: "str list \<Rightarrow> str" where
  "join_fields [] = []"
| "join_fields [f] = f"
| "join_fields (f # g # fs) = f @ '';'' @ join_fields (g # fs)"

definition render_ace :: "str list \<Rightarrow> str" where
  "render_ace fs = ''('' @ join_fields fs @ '')''"

definition render_dacl :: "str \<Rightarrow> str list list \<Rightarrow> str" where
  "render_dacl flags aces = flags @ concat (map render_ace aces)"

definition plain_field :: "str \<Rightarrow> bool" where
  "plain_field f \<longleftrightarrow> list_all (\<lambda>c. c \<notin> {CHR ''('', CHR '')'', CHR '';''}) f"

definition plain_ace :: "str list \<Rightarrow> bool" where
  "plain_ace fs \<longleftrightarrow> fs \<noteq> [] \<and> list_all plain_field fs"

lemma split_char_plain: "plain_field f \<Longrightarrow> split_char (CHR '';'') f = [f]"
  by (induction f) (auto simp: plain_field_def)

lemma split_char_sep: "plain_field f \<Longrightarrow> split_char (CHR '';'') (f @ '';'' @ g) = f # split_char (CHR '';'') g"
  by (induction f) (auto simp: plain_field_def)

lemma split_join: "plain_ace fs \<Longrightarrow> split_char (CHR '';'') (join_fields fs) = fs"
  by (induction fs rule: join_fields.induct)
    (auto simp: plain_ace_def split_char_plain split_char_sep simp del: append_Cons append.simps)

lemma plain_join: "list_all plain_field fs \<Longrightarrow> c \<in> set (join_fields fs) \<Longrightarrow> c \<noteq> CHR ''('' \<and> c \<noteq> CHR '')''"
  by (induction fs rule: join_fields.induct) (auto simp: plain_field_def list_all_iff)

lemma ace_fields_skip: "CHR ''('' \<notin> set pre \<Longrightarrow> ace_fields (pre @ rest) = ace_fields rest"
proof -
  assume "CHR ''('' \<notin> set pre"
  then have "dropWhile (\<lambda>c. c \<noteq> CHR ''('') (pre @ rest) = dropWhile (\<lambda>c. c \<noteq> CHR ''('') rest"
    by (induction pre) auto
  then show ?thesis using ace_fields.simps[of "pre @ rest"] ace_fields.simps[of rest] by simp
qed

lemma ace_fields_ace: "plain_ace fs \<Longrightarrow> ace_fields (render_ace fs @ rest) = fs # ace_fields rest"
proof -
  assume fs: "plain_ace fs"
  then have "dropWhile (\<lambda>c. c \<noteq> CHR '')'') (join_fields fs @ '')'' @ rest) = '')'' @ rest"
    "takeWhile (\<lambda>c. c \<noteq> CHR '')'') (join_fields fs @ '')'' @ rest) = join_fields fs"
    using plain_join[of fs] by (auto simp: plain_ace_def dropWhile_append2 takeWhile_append2)
  moreover have "ace_fields ('')'' @ rest) = ace_fields rest" by (rule ace_fields_skip) simp
  ultimately show ?thesis
    by (simp add: render_ace_def ace_fields.simps[of "CHR ''('' # _"] split_join[OF fs])
qed

lemma ace_fields_render:
  assumes "CHR ''('' \<notin> set flags" "list_all plain_ace aces"
  shows "ace_fields (render_dacl flags aces) = aces"
proof -
  have "ace_fields (concat (map render_ace aces)) = aces"
    using assms(2) by (induction aces) (simp_all add: ace_fields_ace ace_fields.simps[of "[]"])
  then show ?thesis using assms(1) by (simp add: render_dacl_def ace_fields_skip)
qed

definition ace_ok :: "str list \<Rightarrow> str list \<Rightarrow> bool" where
  "ace_ok allowed ace \<longleftrightarrow>
     (hd ace = ''A'' \<longrightarrow> (if 5 < length ace then ace ! 5 else []) \<in> set allowed) \<and> hd ace \<noteq> ''OA''"

lemma check_aces_iff:
  "list_all plain_ace aces \<Longrightarrow> check_aces allowed aces = Inr () \<longleftrightarrow> list_all (ace_ok allowed) aces"
  by (induction allowed aces rule: check_aces.induct)
    (auto simp: ace_ok_def Let_def plain_ace_def split: list.splits)

lemma owner_only_render:
  "owner_only_sddl owner inh =
     render_dacl ''D:P'' (map (\<lambda>who. [''A'', if inh then ''OICI'' else [], ''FA'', [], [], who])
       [owner, LOCAL_SYSTEM, ADMINISTRATORS])"
  by (simp add: owner_only_sddl_def render_dacl_def render_ace_def Let_def)

text \<open>The text of an access list survives the platform's wide strings.\<close>

definition wide_safe :: "str \<Rightarrow> bool" where
  "wide_safe s \<longleftrightarrow> valid_utf8 s \<and> CHR 0x00 \<notin> set s"

lemma dacl_sddl_text:
  assumes "ws_get ws (to_wide path) w = (0, d, Some acl)" "ws_render ws d = Inr (to_wide t @ us)"
    "wide_safe t"
  shows "dacl_sddl ws path w = Inr t"
  using assms wide_round_trip[of t us] by (simp add: dacl_sddl_def wide_safe_def)

text \<open>A path without an access list, which everyone may open, is refused.\<close>

lemma win_check_null_dacl:
  "ws_get ws (to_wide path) w = (0, d, None) \<Longrightarrow>
     win_check ws path w = Inl ''the file has no DACL, so every account has full control''"
  by (simp add: win_check_def dacl_sddl_def io_err_def)

text \<open>A platform whose access lists are their own text, for the examples below.\<close>

definition text_platform :: "str \<Rightarrow> (str, str, nat list \<Rightarrow> str option) win_security" where
  "text_platform owner =
     \<lparr>ws_parse = \<lambda>t. Inr (wide_to_string t),
      ws_dacl = \<lambda>d. Inr (Some d),
      ws_set = \<lambda>p acl w. (0, w(p \<mapsto> acl)),
      ws_get = \<lambda>p w. (case w p of None \<Rightarrow> (2, [], None) | Some t \<Rightarrow> (0, t, Some t)),
      ws_render = \<lambda>d. Inr (to_wide d),
      ws_os_error = \<lambda>_. io_err OtherIo ''The system cannot find the file specified.'',
      ws_is_dir = \<lambda>p w. False,
      ws_token = \<lparr>ta_open = Inr (), ta_needed = length owner, ta_info = Inr owner,
        ta_last_error = io_err OtherIo []\<rparr>,
      ws_sid_text = \<lambda>sid. Some (to_wide sid)\<rparr>"

lemma text_platform_owner:
  "wide_safe owner \<Longrightarrow> current_user_sid (ws_token (text_platform owner)) (ws_sid_text (text_platform owner)) = owner"
  using wide_round_trip[of owner "[]"] by (simp add: current_user_sid_def text_platform_def wide_safe_def)

lemma valid_ascii: "list_all (\<lambda>c. bval c < 128) s \<Longrightarrow> valid_utf8 s"
proof (induction s)
  case (Cons c cs)
  then have "utf8_next (c # cs) = UChar 1" by simp
  from from_utf8_UChar[OF this] Cons show ?case by (simp add: valid_utf8_def)
qed (simp add: valid_utf8_def)

lemma sample_owner [simp]:
  "current_user_sid (ws_token (text_platform ''S-1'')) (ws_sid_text (text_platform ''S-1'')) = ''S-1''"
  by (rule text_platform_owner) (simp add: wide_safe_def valid_ascii bval_def)

lemmas sample_owner_unfolded [simp] = sample_owner[unfolded text_platform_def, simplified]





text \<open>
  A conditional grant passes the check. An allow entry with a condition has the type \<open>XA\<close>, which
  is neither of the two types the check looks at, so a key file that every account may read under
  a condition is taken for owner-only.
\<close>

theorem conditional_grant_accepted:
  "win_check (text_platform ''S-1'') ''k''
     [to_wide ''k'' \<mapsto> ''D:P(A;;FA;;;S-1)(XA;;FA;;;WD;(Exists Title))''] = Inr ()"
proof -
  let ?t = "''D:P(A;;FA;;;S-1)(XA;;FA;;;WD;(Exists Title))''"
  have "dacl_sddl (text_platform ''S-1'') ''k'' [to_wide ''k'' \<mapsto> ?t] = Inr ?t"
    by (rule dacl_sddl_text[where us = "[]"])
      (simp_all add: text_platform_def wide_safe_def valid_ascii bval_def)
  moreover have "ace_fields ?t = [[''A'', [], ''FA'', [], [], ''S-1''],
      [''XA'', [], ''FA'', [], [], ''WD'', ''(Exists Title'']]"
    by (simp add: ace_fields.simps)
  ultimately show ?thesis by (simp add: win_check_def text_platform_def)
qed

end
