(* ===== verification/Ssh_Channel.thy ===== *)
theory Ssh_Channel
  imports Session
begin

text \<open>
  The channels of an SSH connection (\<open>crates/ssh/src/lib.rs\<close>): opening a channel for a command, for
  the SFTP subsystem or for a terminal, and the calls on an open one. What the SSH client library
  answers to each call is a field of the record \<open>channel_answers\<close>; an error is its text.
\<close>

section \<open>Opening channels\<close>

record channel_answers =
  ca_open :: "str + unit"
  ca_exec :: "str \<Rightarrow> str + unit"
  ca_subsystem :: "str \<Rightarrow> str + unit"
  ca_sftp_handshake :: "(str + unit) option"
  ca_locale_probe :: "channel_msg list option"
  ca_set_env :: "str \<Rightarrow> str \<Rightarrow> str + unit"
  ca_request_pty :: "str \<Rightarrow> nat \<Rightarrow> nat \<Rightarrow> str + unit"
  ca_request_shell :: "str + unit"
  ca_send :: "bytes \<Rightarrow> str + unit"
  ca_eof :: "str + unit"
  ca_close :: "str + unit"
  ca_signal_term :: "str + unit"
  ca_window_change :: "nat \<Rightarrow> nat \<Rightarrow> str + unit"

text \<open>The host key is not verified, only its fingerprint is kept.\<close>

definition check_server_key :: "str \<Rightarrow> str option \<Rightarrow> bool \<times> str option" where
  "check_server_key fingerprint slot = (True, Some fingerprint)"

definition open_exec :: "channel_answers \<Rightarrow> str \<Rightarrow> str + unit" where
  "open_exec ca command_line =
     (case ca_open ca of Inl e \<Rightarrow> Inl e | Inr _ \<Rightarrow> ca_exec ca command_line)"

text \<open>The handshake is \<open>None\<close> when its 15 seconds have passed.\<close>

definition open_sftp :: "channel_answers \<Rightarrow> str + unit" where
  "open_sftp ca =
     (case ca_open ca of
        Inl e \<Rightarrow> Inl (''SFTP_UNAVAILABLE: '' @ e)
      | Inr _ \<Rightarrow>
        (case ca_subsystem ca ''sftp'' of
           Inl e \<Rightarrow> Inl (''SFTP_UNAVAILABLE: '' @ e)
         | Inr _ \<Rightarrow>
           (case ca_sftp_handshake ca of
              None \<Rightarrow> Inl ''SFTP_UNAVAILABLE: the server did not complete the SFTP handshake''
            | Some (Inl e) \<Rightarrow> Inl (''SFTP_UNAVAILABLE: '' @ e
                @ ''; this server may have the sftp subsystem disabled - use ssh_exec_start instead'')
            | Some (Inr _) \<Rightarrow> Inr ())))"

definition set_locale :: "channel_answers \<Rightarrow> str option \<Rightarrow> str + unit" where
  "set_locale ca found =
     (case found of
        None \<Rightarrow> Inr ()
      | Some v \<Rightarrow>
        (case ca_set_env ca ''LANG'' v of Inl e \<Rightarrow> Inl e | Inr _ \<Rightarrow> ca_set_env ca ''LC_ALL'' v))"

definition open_pty :: "channel_answers \<Rightarrow> nat \<Rightarrow> nat \<Rightarrow> str \<Rightarrow> str + unit" where
  "open_pty ca cols rows term_name =
     (let found = remote_utf8_locale (ca_locale_probe ca) in
      case ca_open ca of
        Inl e \<Rightarrow> Inl e
      | Inr _ \<Rightarrow>
        (case set_locale ca found of
           Inl e \<Rightarrow> Inl e
         | Inr _ \<Rightarrow>
           (case ca_request_pty ca term_name cols rows of
              Inl e \<Rightarrow> Inl e
            | Inr _ \<Rightarrow> ca_request_shell ca)))"

section \<open>Open channels\<close>

definition exec_cancel :: "channel_answers \<Rightarrow> str + unit" where
  "exec_cancel ca = ca_signal_term ca"

definition exec_write_all :: "channel_answers \<Rightarrow> bytes \<Rightarrow> str + unit" where
  "exec_write_all ca d = ca_send ca d"

definition exec_eof :: "channel_answers \<Rightarrow> str + unit" where
  "exec_eof ca = ca_eof ca"

definition pty_write :: "channel_answers \<Rightarrow> bytes \<Rightarrow> str + unit" where
  "pty_write ca d = ca_send ca d"

definition pty_resize :: "channel_answers \<Rightarrow> nat \<Rightarrow> nat \<Rightarrow> str + unit" where
  "pty_resize ca cols rows = ca_window_change ca cols rows"

definition pty_close :: "channel_answers \<Rightarrow> str + unit" where
  "pty_close ca = (case ca_eof ca of Inl e \<Rightarrow> Inl e | Inr _ \<Rightarrow> ca_close ca)"

section \<open>Errors keep their code\<close>

lemma classify_coded:
  assumes "code \<noteq> []" "list_all (\<lambda>c. is_ascii_uppercase c \<or> c = CHR ''_'') code"
  shows "classify_error (code @ '': '' @ d) = new_error code d"
proof -
  have "split_once2 (CHR '':'') (CHR '' '') (code @ '': '' @ d) = Some (code, d)"
    using assms(2)
  proof (induction code)
    case (Cons c cs)
    then have "c \<noteq> CHR '':''" by (auto simp: is_ascii_uppercase_def bval_def)
    moreover obtain y ys where "cs @ '': '' @ d = y # ys" by (cases "cs @ '': '' @ d") auto
    ultimately show ?case using Cons by simp
  qed simp
  then show ?thesis using assms(2) by (simp add: classify_error_def)
qed

text \<open>However opening SFTP fails, the client is told \<open>SFTP_UNAVAILABLE\<close>, and not to try again.\<close>

lemma open_sftp_code:
  assumes "open_sftp ca = Inl e"
  shows "ep_code (classify_error e) = ''SFTP_UNAVAILABLE'' \<and> \<not> ep_retryable (classify_error e)"
proof -
  obtain d where "e = ''SFTP_UNAVAILABLE'' @ '': '' @ d"
    using assms by (auto simp: open_sftp_def split: sum.splits option.splits)
  moreover have "list_all (\<lambda>c. is_ascii_uppercase c \<or> c = CHR ''_'') ''SFTP_UNAVAILABLE''"
    by (simp add: is_ascii_uppercase_def bval_def)
  ultimately show ?thesis using classify_coded[of "''SFTP_UNAVAILABLE''" d] by simp
qed

text \<open>A terminal is opened without a locale only when the probe found none that is UTF-8.\<close>

lemma open_pty_locale:
  assumes "open_pty ca cols rows term_name = Inr ()" "remote_utf8_locale (ca_locale_probe ca) = Some v"
  shows "ca_set_env ca ''LANG'' v = Inr () \<and> ca_set_env ca ''LC_ALL'' v = Inr ()"
  using assms by (auto simp: open_pty_def set_locale_def split: sum.splits)

end
