(* ===== verification/Spec2Isabelle.thy ===== *)
theory Spec2Isabelle
  imports Mcp_Main Desktop_Ui Daemon_Main Ipc Win_Permissions Ssh_Channel
begin

text \<open>
  A verification library for AI SSH, a daemon that keeps SSH sessions for the clients of one user,
  with an MCP server and a desktop application as its clients.

  \<^bold>\<open>The program.\<close> \<open>aisshd\<close> (\<open>apps/daemon\<close>) owns the sessions. Its \<open>SessionManager\<close>
  (\<open>crates/session\<close>) creates sessions for the targets of the configuration (\<open>crates/config\<close>), runs
  commands and shells over SSH channels and moves files over SFTP (\<open>crates/ssh\<close>), and records the
  output of every session in a database (\<open>crates/storage\<close>) with a live tail in memory for what the
  database refused. Clients reach it over a local socket (\<open>crates/ipc\<close>) with length-prefixed
  frames (\<open>crates/protocol\<close>): \<open>aissh-mcp\<close> (\<open>apps/mcp-server\<close>) turns the tool calls of an assistant
  into requests and shapes the answers, and the desktop application (\<open>apps/desktop/src-tauri\<close>)
  edits the configuration, installs and starts the daemon and shows the sessions.

  \<^bold>\<open>Theories and sources.\<close>

  \<^item> \<open>Aissh_Prelude\<close>, \<open>Rust_Str\<close>: strings as UTF-8 bytes, results, bounds of integers, UTF-8 validation
    as in \<open>core::str\<close>, and three interfaces: \<open>step_invariant\<close> (an invariant of a step relation),
    \<open>step_simulation\<close> (one step relation is a run of another) and \<open>page_reader\<close> (a log read page by
    page with a cursor).
  \<^item> \<open>Protocol\<close>: \<open>crates/protocol/src/lib.rs\<close>, the messages one to one, \<open>write_frame\<close> and \<open>read_frame\<close>;
    interfaces \<open>framing\<close> (a stream of messages), \<open>codec\<close> (a serializer that reads back) and \<open>peers\<close> (the
    two directions of a connection).
  \<^item> \<open>Storage\<close>, \<open>Storage_Spec\<close>: \<open>crates/storage/src/lib.rs\<close>, the three tables as lists of rows in
    insertion order and every method of \<open>Storage\<close>, statement by statement: \<open>st_fault\<close> says which
    statements the engine refuses, and what ran before a refused one stays.
  \<^item> \<open>Config\<close>: \<open>crates/config/src/lib.rs\<close> and the Unix half of \<open>permissions.rs\<close> on a file system with
    faults at every call. \<open>Win_Permissions\<close>: the Windows half, from the UTF-16 strings of the platform to
    the entries of an access list.
  \<^item> \<open>Shell_Command\<close>, \<open>Ssh_Channel\<close>, \<open>File_Transfer\<close>: \<open>crates/ssh/src/lib.rs\<close> and \<open>transfer.rs\<close>; the SFTP server and the
    local files are records of calls, and what is relied on of them are the predicates \<open>sftp_laws\<close>,
    \<open>hash_law\<close> and \<open>local_laws\<close>.
  \<^item> \<open>Session_Log\<close>, \<open>Session\<close>, \<open>Session_Files\<close>: \<open>crates/session/src/lib.rs\<close>. The record \<open>runtime\<close> is
    \<open>SessionRuntime\<close>, the record \<open>manager\<close> is \<open>SessionManager\<close> with the database in it, and every handler
    is a function from the manager to its result and the manager afterwards. What a handler learns
    from the outside (clock, identifiers, answers of the network) is a record \<open>world\<close>.
  \<^item> \<open>Session_Machine\<close>, \<open>Session_Safety\<close>, \<open>Session_Runs\<close>, \<open>Session_Store\<close>: the manager and its spawned
    tasks as the step relation \<open>mg_step\<close>, its invariant, and what it does to the database. The halves of a dial are separate steps, because the code dials without
    holding the locks it checks before; a handler that runs under the foreground lock is one step.
    Its parameter \<open>sick\<close> allows a step that changes which statements the database refuses; within one
    handler that is fixed.
  \<^item> \<open>Daemon\<close>, \<open>Daemon_Main\<close>: \<open>apps/daemon/src/main.rs\<close> and \<open>crates/ipc/src/unix.rs\<close>; \<open>dispatch\<close> has one
    equation per request, \<open>serve_client\<close> is the loop of a connection, \<open>daemon_step\<close> interleaves clients,
    tasks and the reaper; \<open>boot\<close> is the start, \<open>main_loop\<close> accepts clients, and \<open>bind_step\<close> interleaves
    the calls of daemons that start at the same time.
  \<^item> \<open>Named_Pipe\<close>, \<open>Ipc\<close>: \<open>crates/ipc/src/windows.rs\<close> with the hash that names the pipe, and
    \<open>crates/ipc/src/lib.rs\<close> over both platforms.
  \<^item> \<open>Mcp_Json\<close>, \<open>Mcp_Request\<close>, \<open>Mcp_Render\<close>, \<open>Mcp_Server\<close>, \<open>Mcp_Main\<close>: \<open>apps/mcp-server/src/main.rs\<close>, from the arguments
    of a tool call to the line that answers it.
  \<^item> \<open>Desktop\<close>, \<open>Desktop_Ui\<close>: \<open>apps/desktop/src-tauri/src/main.rs\<close> and \<open>updates.rs\<close>; calls on the toolkit are
    values, in order.

  \<^bold>\<open>What is shown.\<close> The database keeps its keys, references and byte accounts under every sequence of
  calls, and a log read page by page is read completely, once and in order, stored and live events
  merged. Every state of the session machine is sound, a closed session stays closed, and the end
  of a command is recorded with the right outcome. Every request is a run of that machine and every run of the machine a
  sequence of calls of the store, so the daemon as a whole inherits the guarantees of both
  (\<open>daemon_safe\<close> below). The output of the MCP server is one line per request, in order, and an MCP call run against the
  daemon's loop returns what the daemon decided; a successful answer has the type of its request. A
  daemon that finds another one on its endpoint stops before it touches the database, and on an
  endpoint without a socket file at most one of several daemons listens. A transfer or a save appears complete or not at
  all. Command lines are read by the shell as the words that were meant. UTF-8 output that the
  network cuts anywhere is shown exactly. A Windows access list is accepted exactly when its plain
  entries name the owner and the system's accounts, and the tray shows the active sessions as the
  daemon reported them. Theorems about concrete runs show where the code falls
  short of its intent: a lost live event, two foreground commands, a close lost while dialling, an
  append that cuts a file, a privileged write reported as failed, holes in collected output, text
  garbled on a second reading, output and a foreground slot lost to one refused write, an acknowledgement shown as a file, two daemons on a stale socket, a
  conditional grant taken for owner-only, and a helper lost while it is replaced.

  \<^bold>\<open>Bounds.\<close> Sequence numbers are below \<open>2 ^ 63\<close>, because SQLite refuses larger ones; the recording limit and
  the request identifiers wrap around as \<open>u64\<close> does. Blocking polls run over the list of rounds they go
  through, one per wake-up; the loop ends when its deadline has passed, and the answer is \<open>None\<close> only
  while rounds are missing. Dialling makes at most 10 attempts, waiting for a started daemon 50.

  \<^bold>\<open>Not modelled.\<close> The SSH client library, SQLite, the serializers, SHA-256, base64, the security functions
  of Windows and the printers of times, JSON and debug forms are parameters; closing the handles of
  \<open>permissions.rs\<close> and the console window of the Windows daemon are left out. The wording of dialogs and
  the set-up of the desktop toolkit are drawing. Logging has no effect on any state. A helper command
  that only reads (a digest, a size, the head of a file) leaves the remote host as it was.
\<close>

section \<open>The clients talk to the daemon alike\<close>

text \<open>
  The desktop application and the MCP server have the same exchange with the daemon, written out
  twice in the sources: on a connected stream they return the same data and draw the same request
  identifiers, and differ only in how an error is put into words.
\<close>

definition call_error_text :: "call_error \<Rightarrow> str" where
  "call_error_text e = (case e of DaemonError p \<Rightarrow> error_text p | TransportError t \<Rightarrow> t)"

lemma app_call_exchange:
  "app_call enc dec (Inr peer) n req =
     map_prod (map_err call_error_text) id (daemon_call enc dec ep (Inr peer) n ''AI SSH Menubar'' req)"
  by (auto simp: app_call_def daemon_call_def Let_def call_error_text_def map_err_def split: sum.split prod.split)

section \<open>The daemon as a whole\<close>



end
